theory Spec2Isabelle
  imports Main "HOL-Library.Word"
begin

unbundle bit_operations_syntax

chapter \<open>Definitions\<close>

section \<open>Shared types\<close>

type_synonym u16 = "16 word"
type_synonym u32 = "32 word"
type_synonym u64 = "64 word"

text \<open>
  Error returns of the code base (the negative \<open>-DER_*\<close> codes), together with
  \<open>ASSERT_FAILED\<close> for a failed \<open>D_ASSERT\<close>, which aborts the process, and
  \<open>UNDEFINED_BEHAVIOUR\<close> where the C code divides by zero or writes outside an object.
\<close>

datatype error =
    ASSERT_FAILED
  | DER_INVAL
  | DER_NOMEM
  | DER_BUSY
  | DER_HLC_SYNC
  | DER_NOSPACE
  | DER_TX_RESTART
  | DER_INPROGRESS
  | DER_OTHER int
  | UNDEFINED_BEHAVIOUR

section \<open>Hybrid logical clock (src/gurt/hlc.c)\<close>

definition D_HLC_NSEC :: u64 where
  "D_HLC_NSEC = 16"

definition D_HLC_START_SEC :: u64 where
  "D_HLC_START_SEC = 1609459200"

definition D_HLC_MASK :: u64 where
  "D_HLC_MASK = 0x3FFFF"

definition NSEC_PER_SEC :: u64 where
  "NSEC_PER_SEC = 1000000000"

text \<open>
  \<open>struct timespec\<close>: \<open>tv_sec\<close> (a \<open>time_t\<close>) and \<open>tv_nsec\<close> (a \<open>long\<close>) are 64-bit;
  every use in hlc.c mixes them with \<open>unsigned long long\<close> operands, so the arithmetic
  and the comparisons are the unsigned 64-bit ones.
\<close>

record timespec =
  tv_sec :: u64
  tv_nsec :: u64

text \<open>The two file-level variables of hlc.c.\<close>

record hlc_state =
  d_hlc :: u64
  d_hlc_epsilon :: u64

definition hlc_state_init :: hlc_state where
  "hlc_state_init = \<lparr>d_hlc = 0, d_hlc_epsilon = 1 * NSEC_PER_SEC * D_HLC_NSEC\<rparr>"

text \<open>
  \<open>d_hlc_localtime_get\<close>: the argument is what \<open>clock_gettime(CLOCK_REALTIME)\<close> stored in
  \<open>now\<close>. The assertion on \<open>tv_sec\<close> aborts; the product wraps modulo \<open>2^64\<close>.
\<close>

definition d_hlc_localtime_get :: "timespec \<Rightarrow> error + u64" where
  "d_hlc_localtime_get now =
     (if \<not> (D_HLC_START_SEC < tv_sec now) then Inl ASSERT_FAILED
      else
        let pt = ((tv_sec now - D_HLC_START_SEC) * NSEC_PER_SEC + tv_nsec now) * D_HLC_NSEC
        in Inr (pt AND NOT D_HLC_MASK))"

text \<open>The value computed in the body of the compare-and-swap loop of \<open>d_hlc_get\<close>.\<close>

definition d_hlc_get_ret :: "u64 \<Rightarrow> u64 \<Rightarrow> u64" where
  "d_hlc_get_ret pt hlc = (if (hlc AND NOT D_HLC_MASK) < pt then pt else hlc + 1)"

text \<open>
  The \<open>do ... while (!atomic_compare_exchange(&d_hlc, hlc, ret))\<close> loop. \<open>cur\<close> is the
  value loaded into \<open>hlc\<close>; the list says, for each attempt, what another thread stored
  into \<open>d_hlc\<close> between the load and the compare-and-swap (\<open>None\<close>: nothing). A
  compare-and-swap that finds another value reloads it and retries. The result is the
  returned \<open>ret\<close> and the new value of \<open>d_hlc\<close>.
\<close>

fun d_hlc_get_cas :: "u64 \<Rightarrow> u64 \<Rightarrow> u64 option list \<Rightarrow> u64 \<times> u64" where
  "d_hlc_get_cas pt cur [] = (d_hlc_get_ret pt cur, d_hlc_get_ret pt cur)"
| "d_hlc_get_cas pt cur (None # ws) = (d_hlc_get_ret pt cur, d_hlc_get_ret pt cur)"
| "d_hlc_get_cas pt cur (Some v # ws) =
     (if v = cur then (d_hlc_get_ret pt cur, d_hlc_get_ret pt cur)
      else d_hlc_get_cas pt v ws)"

definition d_hlc_get :: "hlc_state \<Rightarrow> timespec \<Rightarrow> u64 option list \<Rightarrow> error + (u64 \<times> hlc_state)" where
  "d_hlc_get s now ws =
     (case d_hlc_localtime_get now of
        Inl e \<Rightarrow> Inl e
      | Inr pt \<Rightarrow>
          (case d_hlc_get_cas pt (d_hlc s) ws of
             (ret, new) \<Rightarrow> Inr (ret, s\<lparr>d_hlc := new\<rparr>)))"

text \<open>
  Successive invocations by one thread with no other writer: each call reads the clock
  (one \<open>timespec\<close> per call) and the returned values are collected in call order.
\<close>

fun d_hlc_get_calls :: "hlc_state \<Rightarrow> timespec list \<Rightarrow> error + (u64 list \<times> hlc_state)" where
  "d_hlc_get_calls s [] = Inr ([], s)"
| "d_hlc_get_calls s (now # nows) =
     (case d_hlc_get s now [] of
        Inl e \<Rightarrow> Inl e
      | Inr (ret, s') \<Rightarrow>
          (case d_hlc_get_calls s' nows of
             Inl e \<Rightarrow> Inl e
           | Inr (rets, s'') \<Rightarrow> Inr (ret # rets, s'')))"

text \<open>
  \<open>d_hlc_get_msg\<close> with both out-pointers non-NULL: the result carries \<open>*hlc_out\<close>,
  \<open>*offset\<close> and the new state. No other thread writes \<open>d_hlc\<close> here.
\<close>

definition d_hlc_get_msg_ret :: "u64 \<Rightarrow> u64 \<Rightarrow> u64 \<Rightarrow> u64" where
  "d_hlc_get_msg_ret pt msg hlc =
     (let ml = msg AND NOT D_HLC_MASK in
      if (hlc AND NOT D_HLC_MASK) < ml then (if ml < pt then pt else msg + 1)
      else if (hlc AND NOT D_HLC_MASK) < pt then pt
      else if pt \<le> ml then (if hlc < msg then msg else hlc) + 1
      else hlc + 1)"

definition d_hlc_get_msg :: "hlc_state \<Rightarrow> timespec \<Rightarrow> u64 \<Rightarrow> error + (u64 \<times> u64 \<times> hlc_state)" where
  "d_hlc_get_msg s now msg =
     (case d_hlc_localtime_get now of
        Inl e \<Rightarrow> Inl e
      | Inr pt \<Rightarrow>
          let ml = msg AND NOT D_HLC_MASK;
              off = (if pt < ml then ml - pt else 0)
          in if d_hlc_epsilon s < off then Inl DER_HLC_SYNC
             else
               let ret = d_hlc_get_msg_ret pt msg (d_hlc s)
               in Inr (ret, off, s\<lparr>d_hlc := ret\<rparr>))"

definition d_hlc2nsec :: "u64 \<Rightarrow> u64" where
  "d_hlc2nsec hlc = hlc div D_HLC_NSEC"

definition d_nsec2hlc :: "u64 \<Rightarrow> u64" where
  "d_nsec2hlc nsec = nsec * D_HLC_NSEC"

text \<open>
  The out-pointer of the two conversions is \<open>None\<close> for \<open>NULL\<close> and \<open>Some old\<close> for a
  pointer to a cell holding \<open>old\<close>; the result is the new content of the cell.
\<close>

definition d_hlc2timespec :: "u64 \<Rightarrow> timespec option \<Rightarrow> error + timespec" where
  "d_hlc2timespec hlc ts =
     (case ts of
        None \<Rightarrow> Inl DER_INVAL
      | Some old \<Rightarrow>
          let nsec = d_hlc2nsec hlc
          in Inr (old\<lparr>tv_sec := nsec div NSEC_PER_SEC + D_HLC_START_SEC,
                      tv_nsec := nsec mod NSEC_PER_SEC\<rparr>))"

definition d_timespec2hlc :: "timespec \<Rightarrow> u64 option \<Rightarrow> error + u64" where
  "d_timespec2hlc ts hlc =
     (case hlc of
        None \<Rightarrow> Inl DER_INVAL
      | Some old \<Rightarrow>
          let nsec = (tv_sec ts - D_HLC_START_SEC) * NSEC_PER_SEC + tv_nsec ts
          in Inr (d_nsec2hlc nsec))"

text \<open>
  The timespecs the 64-bit HLC can represent: not before \<open>D_HLC_START_SEC\<close>, a
  normalised nanosecond field, and fewer than \<open>2^60\<close> nanoseconds after the start (so
  that the multiplication by \<open>D_HLC_NSEC\<close> does not wrap).
\<close>

definition hlc_representable :: "timespec \<Rightarrow> bool" where
  "hlc_representable ts =
     (unat D_HLC_START_SEC \<le> unat (tv_sec ts) \<and>
      unat (tv_nsec ts) < 1000000000 \<and>
      (unat (tv_sec ts) - unat D_HLC_START_SEC) * 1000000000 + unat (tv_nsec ts) < 2 ^ 60)"

text \<open>
  The value of \<open>d_hlc\<close> that the successful iteration of the loop loaded into \<open>hlc\<close>:
  the initial one when no other thread interferes.
\<close>

fun cas_loaded :: "u64 \<Rightarrow> u64 option list \<Rightarrow> u64" where
  "cas_loaded cur [] = cur"
| "cas_loaded cur (None # ws) = cur"
| "cas_loaded cur (Some v # ws) = (if v = cur then cur else cas_loaded v ws)"

section \<open>Garbage collector (vos/vos_gc.c)\<close>

text \<open>\<open>gc_bag_size\<close>, the number of items of a garbage bag, as the file initialises it.\<close>

definition gc_bag_size :: nat where
  "gc_bag_size = 250 + 3 * 256"

text \<open>
  Modelled from the spec: the declaration of \<open>struct vos_gc_bag_df\<close> is not among the
  sources. The comment on \<open>gc_bag_size\<close> gives its layout: a header of 64 bytes followed
  by items of 16 bytes each, so \<open>offsetof(struct vos_gc_bag_df, bag_items[n])\<close> is
  \<open>64 + 16 * n\<close>; PMDK adds 16 bytes of allocation overhead.
\<close>

definition gc_bag_offsetof_items :: "nat \<Rightarrow> nat" where
  "gc_bag_offsetof_items n = 64 + 16 * n"

definition gc_bag_heap_bytes :: "nat \<Rightarrow> nat" where
  "gc_bag_heap_bytes n = gc_bag_offsetof_items n + 16"

datatype vos_gc_type = GC_AKEY | GC_DKEY | GC_OBJ | GC_CONT | GC_MAX

text \<open>The functions a \<open>struct vos_gc\<close> can point at; \<open>None\<close> is a NULL pointer.\<close>

datatype gc_drain_fn = FN_gc_drain_key | FN_gc_drain_obj | FN_gc_drain_cont

datatype gc_free_fn = FN_gc_free_dkey | FN_gc_free_cont

record vos_gc =
  gc_name :: string
  gc_type :: vos_gc_type
  gc_drain_creds :: int
  gc_drain :: "gc_drain_fn option"
  gc_free :: "gc_free_fn option"

definition gc_table :: "vos_gc list" where
  "gc_table =
     [\<lparr>gc_name = ''akey'', gc_type = GC_AKEY, gc_drain_creds = 0,
       gc_drain = Some FN_gc_drain_key, gc_free = None\<rparr>,
      \<lparr>gc_name = ''dkey'', gc_type = GC_DKEY, gc_drain_creds = 32,
       gc_drain = Some FN_gc_drain_key, gc_free = Some FN_gc_free_dkey\<rparr>,
      \<lparr>gc_name = ''object'', gc_type = GC_OBJ, gc_drain_creds = 8,
       gc_drain = Some FN_gc_drain_obj, gc_free = None\<rparr>,
      \<lparr>gc_name = ''container'', gc_type = GC_CONT, gc_drain_creds = 1,
       gc_drain = Some FN_gc_drain_cont, gc_free = Some FN_gc_free_cont\<rparr>,
      \<lparr>gc_name = ''unknown'', gc_type = GC_MAX, gc_drain_creds = 0,
       gc_drain = None, gc_free = None\<rparr>]"

record vos_gc_item =
  it_addr :: nat
  it_args :: nat

text \<open>
  \<open>gc_drain_item\<close>. The call through \<open>gc->gc_drain\<close> is the parameter \<open>drain\<close>: it
  receives the GC, the pool, the item, the credits passed by reference and \<open>*empty\<close>, and
  returns \<open>Inl\<close> for a negative return code, or the non-negative return code, the pool,
  the remaining credits and \<open>*empty\<close>. The result of \<open>gc_drain_item\<close> is the return
  code, the pool, the caller's \<open>*credits\<close> and \<open>*empty\<close>.
\<close>

definition gc_drain_item ::
  "(vos_gc \<Rightarrow> 'p \<Rightarrow> vos_gc_item \<Rightarrow> int \<Rightarrow> bool \<Rightarrow> error + (nat \<times> 'p \<times> int \<times> bool)) \<Rightarrow>
   vos_gc \<Rightarrow> 'p \<Rightarrow> vos_gc_item \<Rightarrow> int \<Rightarrow> bool \<Rightarrow> error + (nat \<times> 'p \<times> int \<times> bool)" where
  "gc_drain_item drain gc pool item credits emp =
     (if gc_drain gc = None then Inr (0, pool, credits, True)
      else
        let creds = (if gc_type gc = GC_AKEY then credits else gc_drain_creds gc) in
        if it_addr item = 0 then Inl ASSERT_FAILED
        else
          (case drain gc pool item creds emp of
             Inl e \<Rightarrow> Inl e
           | Inr (rc, pool', creds', empty') \<Rightarrow>
               if gc_type gc = GC_AKEY then
                 (if credits \<ge> creds' then Inr (rc, pool', creds', empty')
                  else Inl ASSERT_FAILED)
               else Inr (rc, pool', credits, empty')))"

text \<open>
  The part of the loop body of \<open>gc_reclaim_pool\<close> that handles an item found in the bin:
  drain it, and when it is empty and credits remain, free it and take one credit.
  \<open>free_item\<close> stands for the call of \<open>gc_free_item\<close>, whose return code replaces the
  one of the drain (\<open>Inl\<close> when it is not 0, which leaves the loop). The result is the
  value of \<open>rc\<close> after these steps, the pool and the loop's \<open>creds\<close>.
\<close>

definition gc_reclaim_item ::
  "(vos_gc \<Rightarrow> 'p \<Rightarrow> vos_gc_item \<Rightarrow> int \<Rightarrow> bool \<Rightarrow> error + (nat \<times> 'p \<times> int \<times> bool)) \<Rightarrow>
   (vos_gc \<Rightarrow> 'p \<Rightarrow> vos_gc_item \<Rightarrow> error + 'p) \<Rightarrow>
   vos_gc \<Rightarrow> 'p \<Rightarrow> vos_gc_item \<Rightarrow> int \<Rightarrow> error + (nat \<times> 'p \<times> int)" where
  "gc_reclaim_item drain free_item gc pool item creds =
     (case gc_drain_item drain gc pool item creds False of
        Inl e \<Rightarrow> Inl e
      | Inr (rc, pool', creds', emp) \<Rightarrow>
          if emp \<and> creds' \<noteq> 0 then
            (case free_item gc pool' item of
               Inl e \<Rightarrow> Inl e
             | Inr pool'' \<Rightarrow> Inr (0, pool'', creds' - 1))
          else Inr (rc, pool', creds'))"

text \<open>Garbage bags and bins, and the part of a pool that the collector touches.\<close>

record vos_gc_bag_df =
  bag_item_first :: nat
  bag_item_last :: nat
  bag_item_nr :: nat
  bag_next :: nat
  bag_items :: "vos_gc_item list"

record vos_gc_bin_df =
  bin_bag_first :: nat
  bin_bag_last :: nat
  bin_bag_size :: nat
  bin_bag_nr :: nat

text \<open>
  \<open>umem\<close> is the persistent heap holding the bags, addressed by offset (\<open>UMOFF_NULL\<close> is
  0); \<open>vp_gc_link\<close> says whether the pool is linked on the list of pools to collect,
  \<open>vp_gc_cont\<close> is the list of containers (by handle) queued on the pool, \<open>pd_gc_bins\<close>
  and \<open>cd_gc_bins\<close> are the bins of the pool and of each container.
\<close>

record vos_pool =
  vp_dying :: bool
  vp_opened :: nat
  vp_ref :: nat
  vp_gc_link :: bool
  vp_gc_cont :: "nat list"
  pd_gc_bins :: "vos_gc_type \<Rightarrow> vos_gc_bin_df"
  cd_gc_bins :: "nat \<Rightarrow> vos_gc_type \<Rightarrow> vos_gc_bin_df"
  umem :: "nat \<Rightarrow> vos_gc_bag_df"

datatype gc_bin_ref = Pool_bin vos_gc_type | Cont_bin nat vos_gc_type

fun gc_bin_get :: "vos_pool \<Rightarrow> gc_bin_ref \<Rightarrow> vos_gc_bin_df" where
  "gc_bin_get pool (Pool_bin t) = pd_gc_bins pool t"
| "gc_bin_get pool (Cont_bin c t) = cd_gc_bins pool c t"

fun gc_bin_set :: "vos_pool \<Rightarrow> gc_bin_ref \<Rightarrow> vos_gc_bin_df \<Rightarrow> vos_pool" where
  "gc_bin_set pool (Pool_bin t) b = pool\<lparr>pd_gc_bins := (pd_gc_bins pool)(t := b)\<rparr>"
| "gc_bin_set pool (Cont_bin c t) b =
     pool\<lparr>cd_gc_bins := (cd_gc_bins pool)(c := (cd_gc_bins pool c)(t := b))\<rparr>"

text \<open>
  \<open>gc_type2bin\<close>; the container is \<open>None\<close> for a NULL pointer. Both assertions abort.
\<close>

definition gc_type2bin :: "nat option \<Rightarrow> vos_gc_type \<Rightarrow> error + gc_bin_ref" where
  "gc_type2bin cont type =
     (if type = GC_MAX then Inl ASSERT_FAILED
      else case cont of
             None \<Rightarrow> Inr (Pool_bin type)
           | Some c \<Rightarrow> if type = GC_CONT then Inl ASSERT_FAILED else Inr (Cont_bin c type))"

text \<open>
  \<open>umem_zalloc\<close> of a bag of \<open>n\<close> items at the offset the allocator chose: the bag is
  zeroed.
\<close>

definition umem_zalloc_bag :: "vos_pool \<Rightarrow> nat \<Rightarrow> nat \<Rightarrow> vos_pool" where
  "umem_zalloc_bag pool off n =
     pool\<lparr>umem := (umem pool)(off :=
       \<lparr>bag_item_first = 0, bag_item_last = 0, bag_item_nr = 0, bag_next = 0,
        bag_items = replicate n \<lparr>it_addr = 0, it_args = 0\<rparr>\<rparr>)\<rparr>"

text \<open>
  \<open>gc_bin_find_bag\<close>. \<open>zalloc\<close> is the offset \<open>umem_zalloc\<close> returns if it is called
  (0 when the allocation fails) and \<open>tx_add\<close> the outcome of the \<open>umem_tx_add_ptr\<close> calls
  of the enclosing transaction (\<open>None\<close> for 0). The result is the offset of the bag, or
  \<open>None\<close> for a NULL return, and the pool.
\<close>

definition gc_bin_find_bag ::
  "vos_pool \<Rightarrow> gc_bin_ref \<Rightarrow> nat \<Rightarrow> error option \<Rightarrow> nat option \<times> vos_pool" where
  "gc_bin_find_bag pool r zalloc tx_add =
     (let bin = gc_bin_get pool r; last = bin_bag_last bin in
      if last \<noteq> 0 \<and> bag_item_nr (umem pool last) < bin_bag_size bin then (Some last, pool)
      else if zalloc = 0 then (None, pool)
      else
        let pool1 = umem_zalloc_bag pool zalloc (bin_bag_size bin) in
        if tx_add \<noteq> None then (None, pool1)
        else
          let pool2 =
                (if last \<noteq> 0
                 then pool1\<lparr>umem := (umem pool1)(last := (umem pool1 last)\<lparr>bag_next := zalloc\<rparr>)\<rparr>
                 else gc_bin_set pool1 r (bin\<lparr>bin_bag_first := zalloc\<rparr>));
              bin2 = gc_bin_get pool2 r
          in (Some zalloc,
              gc_bin_set pool2 r (bin2\<lparr>bin_bag_last := zalloc, bin_bag_nr := bin_bag_nr bin2 + 1\<rparr>)))"

definition gc_bin_add_item ::
  "vos_pool \<Rightarrow> gc_bin_ref \<Rightarrow> vos_gc_item \<Rightarrow> nat \<Rightarrow> error option \<Rightarrow> error + vos_pool" where
  "gc_bin_add_item pool r item zalloc tx_add =
     (case gc_bin_find_bag pool r zalloc tx_add of
        (None, pool1) \<Rightarrow> Inl DER_NOSPACE
      | (Some bag_id, pool1) \<Rightarrow>
          let bin = gc_bin_get pool1 r; bag = umem pool1 bag_id in
          if \<not> bag_item_nr bag < bin_bag_size bin then Inl ASSERT_FAILED
          else
            let bag1 = bag\<lparr>bag_items := list_update (bag_items bag) (bag_item_last bag) item\<rparr>;
                last = (if bag_item_last bag + 1 = bin_bag_size bin then 0
                        else bag_item_last bag + 1)
            in (case tx_add of
                  Some e \<Rightarrow> Inl e
                | None \<Rightarrow>
                    Inr (pool1\<lparr>umem := (umem pool1)(bag_id :=
                           bag1\<lparr>bag_item_last := last, bag_item_nr := bag_item_nr bag + 1\<rparr>)\<rparr>)))"

definition gc_have_pool :: "vos_pool \<Rightarrow> bool" where
  "gc_have_pool pool = vp_gc_link pool"

definition gc_add_pool :: "vos_pool \<Rightarrow> error + vos_pool" where
  "gc_add_pool pool =
     (if vp_gc_link pool then Inl ASSERT_FAILED
      else Inr (pool\<lparr>vp_opened := vp_opened pool + 1, vp_ref := vp_ref pool + 1,
                     vp_gc_link := True\<rparr>))"

text \<open>
  \<open>gc_add_item\<close>. \<open>coh\<close> is the container handle (\<open>None\<close> when \<open>vos_hdl2cont\<close> gives
  NULL). A return code other than 0 is \<open>Inl\<close>; \<open>Inr\<close> carries the pool after a return
  of 0.
\<close>

definition gc_add_item ::
  "vos_pool \<Rightarrow> nat option \<Rightarrow> vos_gc_type \<Rightarrow> nat \<Rightarrow> nat \<Rightarrow> nat \<Rightarrow> error option \<Rightarrow> error + vos_pool" where
  "gc_add_item pool coh type item_off args zalloc tx_add =
     (case gc_type2bin coh type of
        Inl e \<Rightarrow> Inl e
      | Inr bin \<Rightarrow>
          if vp_dying pool then Inr pool
          else
            (case gc_bin_add_item pool bin \<lparr>it_addr = item_off, it_args = args\<rparr> zalloc tx_add of
               Inl e \<Rightarrow> Inl e
             | Inr pool1 \<Rightarrow>
                 (case (if \<not> gc_have_pool pool1 then gc_add_pool pool1 else Inr pool1) of
                    Inl e \<Rightarrow> Inl e
                  | Inr pool2 \<Rightarrow>
                      (case coh of
                         None \<Rightarrow> Inr pool2
                       | Some c \<Rightarrow>
                           if c \<notin> set (vp_gc_cont pool2)
                           then Inr (pool2\<lparr>vp_gc_cont := vp_gc_cont pool2 @ [c]\<rparr>)
                           else Inr pool2))))"

text \<open>
  \<open>gc_init_pool\<close>: one bag per bin of the pool, for the types below \<open>GC_MAX\<close>. The
  list holds the offsets the successive \<open>umem_zalloc\<close> calls return (0, or a list that
  has run out, when the allocation fails).
\<close>

fun gc_init_pool_loop ::
  "vos_pool \<Rightarrow> vos_gc_type list \<Rightarrow> nat list \<Rightarrow> error option \<Rightarrow> error + vos_pool" where
  "gc_init_pool_loop pd [] zs tx_add = Inr pd"
| "gc_init_pool_loop pd (t # ts) zs tx_add =
     (case zs of
        [] \<Rightarrow> Inl DER_NOMEM
      | bag_id # zs' \<Rightarrow>
          if bag_id = 0 then Inl DER_NOMEM
          else
            (case tx_add of
               Some e \<Rightarrow> Inl e
             | None \<Rightarrow>
                 gc_init_pool_loop
                   ((umem_zalloc_bag pd bag_id gc_bag_size)
                      \<lparr>pd_gc_bins := (pd_gc_bins pd)(t :=
                         \<lparr>bin_bag_first = bag_id, bin_bag_last = bag_id,
                          bin_bag_size = gc_bag_size, bin_bag_nr = 1\<rparr>)\<rparr>)
                   ts zs' tx_add))"

definition gc_init_pool :: "vos_pool \<Rightarrow> nat list \<Rightarrow> error option \<Rightarrow> error + vos_pool" where
  "gc_init_pool pd zs tx_add = gc_init_pool_loop pd [GC_AKEY, GC_DKEY, GC_OBJ, GC_CONT] zs tx_add"

text \<open>\<open>gc_init_cont\<close> for the container with handle \<open>c\<close>: the bins below \<open>GC_CONT\<close>.\<close>

definition gc_init_cont :: "vos_pool \<Rightarrow> nat \<Rightarrow> vos_pool" where
  "gc_init_cont pool c =
     fold (\<lambda>t p. gc_bin_set p (Cont_bin c t)
             \<lparr>bin_bag_first = 0, bin_bag_last = 0, bin_bag_size = gc_bag_size, bin_bag_nr = 0\<rparr>)
       [GC_AKEY, GC_DKEY, GC_OBJ] pool"

text \<open>
  A pool used in the examples: opened once, not registered for collection, no bins set
  up, an empty heap.
\<close>

definition gc_pool_example :: "bool \<Rightarrow> vos_pool" where
  "gc_pool_example dying =
     \<lparr>vp_dying = dying, vp_opened = 1, vp_ref = 1, vp_gc_link = False, vp_gc_cont = [],
      pd_gc_bins = (\<lambda>t. \<lparr>bin_bag_first = 0, bin_bag_last = 0, bin_bag_size = 0, bin_bag_nr = 0\<rparr>),
      cd_gc_bins = (\<lambda>c t. \<lparr>bin_bag_first = 0, bin_bag_last = 0, bin_bag_size = 0, bin_bag_nr = 0\<rparr>),
      umem = (\<lambda>off. \<lparr>bag_item_first = 0, bag_item_last = 0, bag_item_nr = 0, bag_next = 0,
                     bag_items = []\<rparr>)\<rparr>"

section \<open>Client network configuration (client/api mgmt: dc_mgmt_net_cfg_init)\<close>

text \<open>The process environment, and \<open>d_setenv\<close>/\<open>d_agetenv_str\<close> on it.\<close>

type_synonym environ = "string \<Rightarrow> string option"

text \<open>
  \<open>d_setenv(name, value, overwrite)\<close>: as \<open>setenv(3)\<close>, it fails with \<open>EINVAL\<close> for an
  empty name or a name containing \<open>=\<close>, which the callers turn into \<open>-DER_INVAL\<close> with
  \<open>d_errno2der(errno)\<close>.
\<close>

definition d_setenv :: "environ \<Rightarrow> string \<Rightarrow> string \<Rightarrow> bool \<Rightarrow> error + environ" where
  "d_setenv env name val overwrite =
     (if name = [] \<or> CHR ''='' \<in> set name then Inl DER_INVAL
      else if overwrite \<or> env name = None then Inr (env(name \<mapsto> val))
      else Inr env)"

definition d_agetenv_str :: "environ \<Rightarrow> string \<Rightarrow> string option" where
  "d_agetenv_str env name = env name"

text \<open>\<open>_split_env\<close>: the name before the first \<open>=\<close> and the value after it.\<close>

definition split_env :: "string \<Rightarrow> error + (string \<times> string)" where
  "split_env env =
     (if length env \<ge> 1024 then Inl DER_INVAL
      else if CHR ''='' \<notin> set env then Inl DER_INVAL
      else Inr (takeWhile (\<lambda>c. c \<noteq> CHR ''='') env, tl (dropWhile (\<lambda>c. c \<noteq> CHR ''='') env)))"

text \<open>
  A C \<open>int\<close> is a 32-bit word read as a signed number. The \<open>%d\<close> conversion of
  \<open>asprintf\<close>/\<open>sprintf\<close> prints that number. \<open>atoi\<close> is \<open>(int) strtol(s, NULL, 10)\<close>:
  \<open>strtol\<close> skips white space, reads an optional sign and the decimal digits, and
  saturates at the bounds of a 64-bit \<open>long\<close>; the conversion to \<open>int\<close> keeps the low 32
  bits.
\<close>

type_synonym c_int = "32 word"

fun string_of_nat :: "nat \<Rightarrow> string" where
  "string_of_nat n =
     (if n < 10 then [''0123456789'' ! n]
      else string_of_nat (n div 10) @ [''0123456789'' ! (n mod 10)])"

definition string_of_int :: "int \<Rightarrow> string" where
  "string_of_int i = (if i < 0 then CHR ''-'' # string_of_nat (nat (- i)) else string_of_nat (nat i))"

fun atoi_digits :: "string \<Rightarrow> int \<Rightarrow> int" where
  "atoi_digits [] acc = acc"
| "atoi_digits (c # cs) acc =
     (if c \<in> set ''0123456789'' then atoi_digits cs (acc * 10 + (of_char c - 48)) else acc)"

definition strtol :: "string \<Rightarrow> int" where
  "strtol s =
     (let v =
        (case dropWhile (\<lambda>c. c \<in> set [CHR '' '', CHR 0x09, CHR 0x0A, CHR 0x0B, CHR 0x0C, CHR 0x0D]) s of
           [] \<Rightarrow> 0
         | c # cs \<Rightarrow>
             if c = CHR ''-'' then - atoi_digits cs 0
             else if c = CHR ''+'' then atoi_digits cs 0
             else atoi_digits (c # cs) 0)
      in max (- (2 ^ 63)) (min (2 ^ 63 - 1) v))"

definition atoi :: "string \<Rightarrow> c_int" where
  "atoi s = word_of_int (strtol s)"

text \<open>
  \<open>info_g\<close> (the fields of \<open>struct dc_mgmt_sys_info\<close> the function reads), the parts of
  the \<open>GetAttachInfo\<close> response it reads (\<open>client_net_hint->env_vars\<close>, with \<open>None\<close> for a
  NULL entry and the empty list for a NULL hint, and the ranks of \<open>rank_uris\<close>), and
  \<open>crt_init_options_t\<close> (\<open>None\<close> for a NULL string).
\<close>

record dc_mgmt_sys_info =
  provider :: string
  interface :: string
  domain :: string
  crt_timeout :: c_int
  srv_srx_set :: c_int
  provider_idx :: c_int

record attach_info_resp =
  env_vars :: "string option list"
  rank_uris :: "nat list"

record crt_init_options =
  cio_crt_timeout :: c_int
  cio_provider :: "string option"
  cio_interface :: "string option"
  cio_domain :: "string option"

text \<open>What the function can change: the environment, \<open>*crt_info\<close> and the saved ranks.\<close>

record net_cfg_state =
  env :: environ
  crt_info :: crt_init_options
  g_num_serv_ranks :: nat
  g_serv_ranks :: "nat list"

text \<open>Which of the function's memory allocations succeed.\<close>

record net_cfg_mem =
  asprintf_ok :: bool
  strndup_provider_ok :: bool
  strndup_interface_ok :: bool
  strndup_domain_ok :: bool
  alloc_ranks_ok :: bool

text \<open>
  The loop over the server-supplied environment variables: NULL entries and entries
  that do not split are skipped, the others are set without overwriting. A variable
  that cannot be set ends the loop with that error (\<open>goto cleanup\<close>); the variables set
  before it stay in the environment. The result is the error (\<open>None\<close> when the loop
  runs to its end) and the environment the loop leaves.
\<close>

fun net_cfg_set_hints :: "environ \<Rightarrow> string option list \<Rightarrow> error option \<times> environ" where
  "net_cfg_set_hints e [] = (None, e)"
| "net_cfg_set_hints e (None # vs) = net_cfg_set_hints e vs"
| "net_cfg_set_hints e (Some v # vs) =
     (case split_env v of
        Inl err \<Rightarrow> net_cfg_set_hints e vs
      | Inr (v_name, v_value) \<Rightarrow>
          (case d_setenv e v_name v_value False of
             Inl err \<Rightarrow> (Some err, e)
           | Inr e' \<Rightarrow> net_cfg_set_hints e' vs))"

text \<open>The block that reconciles \<open>FI_OFI_RXM_USE_SRX\<close> with the server's setting.\<close>

definition net_cfg_srx :: "dc_mgmt_sys_info \<Rightarrow> net_cfg_mem \<Rightarrow> environ \<Rightarrow> error + environ" where
  "net_cfg_srx info mem e =
     (if srv_srx_set info \<noteq> - 1 then
        (if \<not> asprintf_ok mem then Inl DER_NOMEM
         else d_setenv e ''FI_OFI_RXM_USE_SRX'' (string_of_int (sint (srv_srx_set info))) True)
      else
        (case d_agetenv_str e ''FI_OFI_RXM_USE_SRX'' of
           Some cli_srx_set \<Rightarrow> Inl DER_INVAL
         | None \<Rightarrow> Inr e))"

text \<open>The rest of the function, after the SRX block, up to the \<open>cleanup\<close> label.\<close>

definition net_cfg_rest ::
  "dc_mgmt_sys_info \<Rightarrow> attach_info_resp \<Rightarrow> net_cfg_mem \<Rightarrow> net_cfg_state \<Rightarrow> error option \<times> net_cfg_state" where
  "net_cfg_rest info resp mem s =
     (let s1 = s\<lparr>crt_info := (crt_info s)\<lparr>cio_crt_timeout :=
                  (case d_agetenv_str (env s) ''CRT_TIMEOUT'' of
                     None \<Rightarrow> crt_timeout info
                   | Some t \<Rightarrow> atoi t)\<rparr>\<rparr>
      in case d_setenv (env s1) ''CRT_SECONDARY_PROVIDER'' (string_of_int (sint (provider_idx info))) True of
           Inl err \<Rightarrow> (Some err, s1)
         | Inr e2 \<Rightarrow>
             let s2 = s1\<lparr>env := e2\<rparr> in
             if \<not> strndup_provider_ok mem then (Some DER_NOMEM, s2)
             else
               let s3 = s2\<lparr>crt_info := (crt_info s2)\<lparr>cio_provider := Some (provider info)\<rparr>\<rparr> in
               if \<not> strndup_interface_ok mem then (Some DER_NOMEM, s3)
               else
                 let s4 = s3\<lparr>crt_info := (crt_info s3)\<lparr>cio_interface := Some (interface info)\<rparr>\<rparr> in
                 if \<not> strndup_domain_ok mem then (Some DER_NOMEM, s4)
                 else
                   let s5 = s4\<lparr>crt_info := (crt_info s4)\<lparr>cio_domain := Some (domain info)\<rparr>\<rparr>;
                       s6 = s5\<lparr>g_num_serv_ranks := length (rank_uris resp)\<rparr>
                   in if rank_uris resp \<noteq> [] \<and> \<not> alloc_ranks_ok mem then (Some DER_NOMEM, s6)
                      else (None, s6\<lparr>g_serv_ranks := rank_uris resp\<rparr>))"

text \<open>The \<open>cleanup\<close> label: on a failure the three strings of \<open>*crt_info\<close> are freed.\<close>

definition net_cfg_cleanup :: "error option \<times> net_cfg_state \<Rightarrow> error option \<times> net_cfg_state" where
  "net_cfg_cleanup r =
     (case r of
        (None, s) \<Rightarrow> (None, s)
      | (Some err, s) \<Rightarrow>
          (Some err, s\<lparr>crt_info := (crt_info s)\<lparr>cio_provider := None, cio_interface := None,
                                                 cio_domain := None\<rparr>\<rparr>))"

text \<open>
  \<open>dc_mgmt_net_cfg_init\<close>: the result is the return code (\<open>None\<close> for 0) and the state
  the call leaves.
\<close>

definition dc_mgmt_net_cfg_init ::
  "dc_mgmt_sys_info \<Rightarrow> attach_info_resp \<Rightarrow> net_cfg_mem \<Rightarrow> net_cfg_state \<Rightarrow> error option \<times> net_cfg_state" where
  "dc_mgmt_net_cfg_init info resp mem s =
     net_cfg_cleanup
       (case net_cfg_set_hints (env s) (env_vars resp) of
          (Some err, e1) \<Rightarrow> (Some err, s\<lparr>env := e1\<rparr>)
        | (None, e1) \<Rightarrow>
            (case net_cfg_srx info mem e1 of
               Inl err \<Rightarrow> (Some err, s\<lparr>env := e1\<rparr>)
             | Inr e2 \<Rightarrow> net_cfg_rest info resp mem (s\<lparr>env := e2\<rparr>)))"

definition dc_mgmt_net_cfg_check :: "dc_mgmt_sys_info \<Rightarrow> environ \<Rightarrow> error option" where
  "dc_mgmt_net_cfg_check info e =
     (if srv_srx_set info = - 1 then
        (case d_agetenv_str e ''FI_OFI_RXM_USE_SRX'' of
           Some cli_srx_set \<Rightarrow> Some DER_INVAL
         | None \<Rightarrow> None)
      else None)"

text \<open>Values used in the examples.\<close>

definition net_info_example :: "c_int \<Rightarrow> dc_mgmt_sys_info" where
  "net_info_example srx =
     \<lparr>provider = ''ofi+tcp'', interface = ''eth0'', domain = ''eth0'', crt_timeout = 60,
      srv_srx_set = srx, provider_idx = 0\<rparr>"

definition net_mem_ok :: net_cfg_mem where
  "net_mem_ok = \<lparr>asprintf_ok = True, strndup_provider_ok = True, strndup_interface_ok = True,
                 strndup_domain_ok = True, alloc_ranks_ok = True\<rparr>"

text \<open>
  The allocations the function needs once the SRX block has let it pass: the string
  for the server's SRX value when the server has set one, the three strings of
  \<open>*crt_info\<close>, and the array of ranks when there are ranks.
\<close>

definition net_cfg_allocs_ok :: "dc_mgmt_sys_info \<Rightarrow> attach_info_resp \<Rightarrow> net_cfg_mem \<Rightarrow> bool" where
  "net_cfg_allocs_ok info resp mem =
     ((srv_srx_set info = - 1 \<or> asprintf_ok mem) \<and> strndup_provider_ok mem \<and>
      strndup_interface_ok mem \<and> strndup_domain_ok mem \<and>
      (rank_uris resp = [] \<or> alloc_ranks_ok mem))"

definition net_state_example :: "string option \<Rightarrow> net_cfg_state" where
  "net_state_example srx =
     \<lparr>env = (\<lambda>n. if n = ''FI_OFI_RXM_USE_SRX'' then srx else None),
      crt_info = \<lparr>cio_crt_timeout = 0, cio_provider = None, cio_interface = None,
                  cio_domain = None\<rparr>,
      g_num_serv_ranks = 0, g_serv_ranks = []\<rparr>"

section \<open>Key punch and punch propagation (vos/vos_obj.c)\<close>

text \<open>
  Return codes of the punch path: \<open>Inl e\<close> is the negative code \<open>-e\<close>, \<open>Inr n\<close> the
  non-negative value \<open>n\<close> (0 for success, 1 for "propagate").
\<close>

type_synonym rc = "error + nat"

text \<open>
  The flag word of a punch, as the set of the flags that are set in it, so that
  \<open>(flags & VOS_OF_REPLAY_PC) == 0\<close> is \<open>VOS_OF_REPLAY_PC \<notin> flags\<close>.
\<close>

datatype vos_of_flag = VOS_OF_REPLAY_PC | VOS_OF_COND_PUNCH | VOS_OF_OTHER nat

datatype vos_iter_type = VOS_ITER_DKEY | VOS_ITER_AKEY

datatype ts_flag =
    VOS_TS_READ_OBJ | VOS_TS_WRITE_OBJ | VOS_TS_READ_DKEY | VOS_TS_WRITE_DKEY
  | VOS_OF_PUNCH_PROPAGATE

text \<open>What the punch path does, in the order it does it.\<close>

datatype punch_event =
    KEY_TREE_PUNCH_AKEY nat
  | KEY_TREE_PUNCH_DKEY
  | KEY_MARK_AGG
  | TS_APPEND_CFLAGS ts_flag
  | TS_APPEND_VFLAGS ts_flag
  | OI_PUNCH
  | OBJ_EVICT

text \<open>
  An entry handed to \<open>empty_tree_check\<close>: the key buffer that identifies it, whether its
  visibility is \<open>VOS_IT_UNCOMMITTED\<close>, the offset of its key record, and the outcome of
  fetching it and logging the known key (\<open>None\<close> for 0).
\<close>

record key_ent =
  ie_key :: nat
  ie_uncommitted :: bool
  ie_krec :: u64
  ie_fetch :: "error option"

record vos_key_info =
  ki_known_key :: u64
  ki_non_empty :: bool
  ki_has_uncommitted :: bool
  ki_first :: "nat option"

text \<open>
  \<open>empty_tree_check\<close>: the result is the callback's return code (\<open>Inr 1\<close> stops the
  iteration) and the updated \<open>vos_key_info\<close>.
\<close>

definition empty_tree_check :: "key_ent \<Rightarrow> vos_key_info \<Rightarrow> rc \<times> vos_key_info" where
  "empty_tree_check entry kinfo =
     (if ki_first kinfo = Some (ie_key entry) then (Inr 1, kinfo)
      else
        let kinfo1 = (if ki_first kinfo = None then kinfo\<lparr>ki_first := Some (ie_key entry)\<rparr>
                      else kinfo) in
        if ie_uncommitted entry then (Inr 0, kinfo1\<lparr>ki_has_uncommitted := True\<rparr>)
        else
          (case ie_fetch entry of
             Some e \<Rightarrow> (Inl e, kinfo1)
           | None \<Rightarrow> (Inr 1, kinfo1\<lparr>ki_known_key := ie_krec entry, ki_non_empty := True\<rparr>)))"

text \<open>
  Modelled from the spec: \<open>vos_iterate_key\<close> is not among the sources. It visits the
  entries of the key tree that are visible in the epoch range, in key order from the
  anchor, and calls the callback on each until the callback returns non-zero; a
  negative return code of the callback is the return code of the iteration. The
  entries it visits are the list.
\<close>

fun vos_iterate_key :: "key_ent list \<Rightarrow> vos_key_info \<Rightarrow> rc \<times> vos_key_info" where
  "vos_iterate_key [] kinfo = (Inr 0, kinfo)"
| "vos_iterate_key (entry # entries) kinfo =
     (case empty_tree_check entry kinfo of
        (Inl e, kinfo') \<Rightarrow> (Inl e, kinfo')
      | (Inr n, kinfo') \<Rightarrow> if n \<noteq> 0 then (Inr n, kinfo') else vos_iterate_key entries kinfo')"

text \<open>
  A key tree as \<open>tree_is_empty\<close> sees it: the cached known key (an offset whose low bit
  marks the key as punched; 0 is \<open>UMOFF_NULL\<close>), the entries of the tree that are visible
  in the epoch range, in key order, the position in that order at which the iteration
  from the anchor of the known key starts (it visits the entries from there on; the
  iteration without an anchor visits them all), and the outcome of logging the known
  key before it is reset.
\<close>

record key_tree =
  kt_known_key :: u64
  kt_entries :: "key_ent list"
  kt_anchor :: nat
  kt_tx_add :: "error option"

text \<open>\<open>tree_is_empty\<close>: the return code and the tree with the updated known key.\<close>

definition tree_is_empty_tail :: "key_tree \<Rightarrow> vos_key_info \<Rightarrow> rc \<times> key_tree" where
  "tree_is_empty_tail t kinfo =
     (case vos_iterate_key (kt_entries t) kinfo of
        (Inl e, kinfo') \<Rightarrow> (Inl e, t\<lparr>kt_known_key := ki_known_key kinfo'\<rparr>)
      | (Inr n, kinfo') \<Rightarrow>
          if ki_non_empty kinfo' then (Inr 0, t\<lparr>kt_known_key := ki_known_key kinfo'\<rparr>)
          else
            (case kt_tx_add t of
               Some e \<Rightarrow> (Inl e, t\<lparr>kt_known_key := ki_known_key kinfo'\<rparr>)
             | None \<Rightarrow>
                 if ki_has_uncommitted kinfo' then (Inl DER_INPROGRESS, t\<lparr>kt_known_key := 0\<rparr>)
                 else (Inr 1, t\<lparr>kt_known_key := 0\<rparr>)))"

definition tree_is_empty :: "key_tree \<Rightarrow> rc \<times> key_tree" where
  "tree_is_empty t =
     (if kt_known_key t \<noteq> 0 \<and> (kt_known_key t AND 1) = 0 then (Inr 0, t)
      else
        let kinfo = \<lparr>ki_known_key = kt_known_key t, ki_non_empty = False,
                     ki_has_uncommitted = False, ki_first = None\<rparr> in
        if kt_known_key t = 0 then tree_is_empty_tail t kinfo
        else
          (case vos_iterate_key (drop (kt_anchor t) (kt_entries t)) kinfo of
             (Inl e, kinfo') \<Rightarrow> (Inl e, t\<lparr>kt_known_key := ki_known_key kinfo'\<rparr>)
           | (Inr n, kinfo') \<Rightarrow>
               if ki_non_empty kinfo' then (Inr 0, t\<lparr>kt_known_key := ki_known_key kinfo'\<rparr>)
               else tree_is_empty_tail t kinfo'))"

text \<open>
  \<open>vos_propagate_check\<close>. \<open>propagate\<close> is the global \<open>vos_dkey_punch_propagate\<close> and
  \<open>conflict\<close> the result of \<open>vos_ts_set_check_conflict\<close>. The \<open>VOS_ITER_DKEY\<close> case of
  the switch has no \<open>break\<close>: when it does not return it falls through into the
  \<open>VOS_ITER_AKEY\<close> case, whose assignments replace the object-level flags. The result
  is the return code, the tree and the flags appended to the timestamp set.
\<close>

definition vos_propagate_check ::
  "bool \<Rightarrow> bool \<Rightarrow> key_tree \<Rightarrow> vos_iter_type \<Rightarrow> rc \<times> key_tree \<times> punch_event list" where
  "vos_propagate_check propagate conflict t type =
     (if conflict then (Inl DER_TX_RESTART, t, [])
      else if type = VOS_ITER_DKEY \<and> \<not> propagate then (Inr 0, t, [])
      else
        let read_flag = VOS_TS_READ_DKEY; write_flag = VOS_TS_WRITE_DKEY in
        (case tree_is_empty t of
           (Inr n, t') \<Rightarrow>
             if n > 0 then
               (Inr 1, t', [TS_APPEND_CFLAGS read_flag, TS_APPEND_VFLAGS VOS_OF_PUNCH_PROPAGATE,
                            TS_APPEND_CFLAGS write_flag])
             else (Inr n, t', [TS_APPEND_CFLAGS read_flag])
         | (Inl e, t') \<Rightarrow> (Inl e, t', [TS_APPEND_CFLAGS read_flag])))"

text \<open>
  The callees of \<open>key_punch\<close> that are not among the sources, by their return codes:
  \<open>obj_tree_init\<close>, the two \<open>vos_ilog_punch\<close> calls, \<open>key_tree_prepare\<close>,
  \<open>key_tree_punch\<close> for each akey and for the dkey, \<open>vos_key_mark_agg\<close>, the two
  conflict checks, and whether \<open>D_ALLOC_PTR(info)\<close> succeeds. The two trees are the akey
  tree of the dkey and the dkey tree of the object as they are after the punches.
\<close>

record punch_env =
  pe_info_alloc_ok :: bool
  pe_obj_tree_init :: rc
  pe_ilog_punch_obj :: rc
  pe_key_tree_prepare :: rc
  pe_ilog_punch_dkey :: rc
  pe_punch_akey :: "nat \<Rightarrow> rc"
  pe_conflict_akey :: bool
  pe_akey_tree :: key_tree
  pe_key_mark_agg :: rc
  pe_punch_dkey :: rc
  pe_conflict_dkey :: bool
  pe_dkey_tree :: key_tree

record punch_result =
  pr_rc :: rc
  pr_events :: "punch_event list"
  pr_akey_tree :: key_tree
  pr_dkey_tree :: key_tree

text \<open>The loop over the akeys: it stops at the first return code other than 0.\<close>

fun key_punch_akeys :: "(nat \<Rightarrow> rc) \<Rightarrow> nat \<Rightarrow> nat \<Rightarrow> rc \<Rightarrow> rc \<times> punch_event list" where
  "key_punch_akeys punch i 0 rc0 = (rc0, [])"
| "key_punch_akeys punch i (Suc n) rc0 =
     (if punch i \<noteq> Inr 0 then (punch i, [KEY_TREE_PUNCH_AKEY i])
      else
        (case key_punch_akeys punch (Suc i) n (punch i) of
           (rc', evs) \<Rightarrow> (rc', KEY_TREE_PUNCH_AKEY i # evs)))"

text \<open>The part of \<open>key_punch\<close> from the label \<open>punch_dkey\<close> on.\<close>

definition key_punch_dkey ::
  "bool \<Rightarrow> punch_env \<Rightarrow> vos_of_flag set \<Rightarrow> punch_event list \<Rightarrow> key_tree \<Rightarrow> punch_result" where
  "key_punch_dkey propagate pe flags evs akey_tree =
     (if pe_punch_dkey pe \<noteq> Inr 0 then
        \<lparr>pr_rc = pe_punch_dkey pe, pr_events = evs @ [KEY_TREE_PUNCH_DKEY],
         pr_akey_tree = akey_tree, pr_dkey_tree = pe_dkey_tree pe\<rparr>
      else if VOS_OF_REPLAY_PC \<notin> flags then
        (case vos_propagate_check propagate (pe_conflict_dkey pe) (pe_dkey_tree pe) VOS_ITER_DKEY of
           (rc', t', fl) \<Rightarrow>
             \<lparr>pr_rc = rc', pr_events = evs @ [KEY_TREE_PUNCH_DKEY] @ fl,
              pr_akey_tree = akey_tree, pr_dkey_tree = t'\<rparr>)
      else
        \<lparr>pr_rc = Inr 0, pr_events = evs @ [KEY_TREE_PUNCH_DKEY],
         pr_akey_tree = akey_tree, pr_dkey_tree = pe_dkey_tree pe\<rparr>)"

text \<open>
  \<open>key_punch\<close>. \<open>akeys\<close> is \<open>None\<close> for a NULL \<open>akeys\<close> pointer (a dkey punch) and
  \<open>Some akey_nr\<close> otherwise.
\<close>

definition key_punch ::
  "bool \<Rightarrow> punch_env \<Rightarrow> nat option \<Rightarrow> vos_of_flag set \<Rightarrow> punch_result" where
  "key_punch propagate pe akeys flags =
     (let stop = (\<lambda>r. \<lparr>pr_rc = r, pr_events = [], pr_akey_tree = pe_akey_tree pe,
                        pr_dkey_tree = pe_dkey_tree pe\<rparr>) in
      if \<not> pe_info_alloc_ok pe then stop (Inl DER_NOMEM)
      else if pe_obj_tree_init pe \<noteq> Inr 0 then stop (pe_obj_tree_init pe)
      else if pe_ilog_punch_obj pe \<noteq> Inr 0 then stop (pe_ilog_punch_obj pe)
      else
        (case akeys of
           None \<Rightarrow> key_punch_dkey propagate pe flags [] (pe_akey_tree pe)
         | Some akey_nr \<Rightarrow>
             if pe_key_tree_prepare pe \<noteq> Inr 0 then stop (pe_key_tree_prepare pe)
             else if pe_ilog_punch_dkey pe \<noteq> Inr 0 then stop (pe_ilog_punch_dkey pe)
             else
               (case key_punch_akeys (pe_punch_akey pe) 0 akey_nr (Inr 0) of
                  (rc1, evs1) \<Rightarrow>
                    (case (if rc1 = Inr 0 \<and> VOS_OF_REPLAY_PC \<notin> flags
                           then vos_propagate_check propagate (pe_conflict_akey pe)
                                  (pe_akey_tree pe) VOS_ITER_AKEY
                           else (rc1, pe_akey_tree pe, [])) of
                       (rc2, t2, fl2) \<Rightarrow>
                         if rc2 \<noteq> Inr 1 then
                           (if rc2 = Inr 0 then
                              \<lparr>pr_rc = pe_key_mark_agg pe,
                               pr_events = evs1 @ fl2 @ [KEY_MARK_AGG],
                               pr_akey_tree = t2, pr_dkey_tree = pe_dkey_tree pe\<rparr>
                            else
                              \<lparr>pr_rc = rc2, pr_events = evs1 @ fl2,
                               pr_akey_tree = t2, pr_dkey_tree = pe_dkey_tree pe\<rparr>)
                         else key_punch_dkey propagate pe flags (evs1 @ fl2) t2))))"

text \<open>
  \<open>obj_punch\<close>: \<open>info_alloc_ok\<close> is whether \<open>D_ALLOC_PTR(info)\<close> succeeds and \<open>oi_punch\<close> the
  return code of \<open>vos_oi_punch\<close>. Without the allocation nothing is punched.
\<close>

definition obj_punch :: "bool \<Rightarrow> rc \<Rightarrow> rc \<times> punch_event list" where
  "obj_punch info_alloc_ok oi_punch =
     (if \<not> info_alloc_ok then (Inl DER_NOMEM, [])
      else if oi_punch \<noteq> Inr 0 then (oi_punch, [OI_PUNCH])
      else (Inr 0, [OI_PUNCH, OBJ_EVICT]))"

text \<open>
  The part of \<open>vos_obj_punch\<close> that runs once the object is held, up to the return of
  \<open>obj_punch\<close>: a key punch when a dkey is given (\<open>dkey\<close> is whether the pointer is
  non-NULL), and \<open>obj_punch\<close> when no dkey is given or \<open>key_punch\<close> returned a positive
  value.
\<close>

definition vos_obj_punch_held ::
  "bool \<Rightarrow> punch_env \<Rightarrow> bool \<Rightarrow> rc \<Rightarrow> bool \<Rightarrow> nat option \<Rightarrow> vos_of_flag set \<Rightarrow>
   rc \<times> punch_event list" where
  "vos_obj_punch_held propagate pe info_alloc_ok oi_punch dkey akeys flags =
     (let (rc1, evs, punch_obj) =
            (if dkey then
               (let r = key_punch propagate pe akeys flags
                in (pr_rc r, pr_events r, (case pr_rc r of Inr n \<Rightarrow> n > 0 | Inl e \<Rightarrow> False)))
             else (Inr 0, [], True))
      in if punch_obj then
           (case obj_punch info_alloc_ok oi_punch of (rc2, evs2) \<Rightarrow> (rc2, evs @ evs2))
         else (rc1, evs))"

text \<open>
  Every callee of \<open>key_punch\<close> returns 0 and neither conflict check fires: for a dkey
  punch (\<open>akeys\<close> is \<open>None\<close>) the callees on the way to the label \<open>punch_dkey\<close> and after
  it, for a punch of \<open>akey_nr\<close> akeys also the callees of the akey part.
\<close>

definition punch_callees_ok :: "punch_env \<Rightarrow> nat option \<Rightarrow> bool" where
  "punch_callees_ok pe akeys =
     (pe_info_alloc_ok pe \<and> pe_obj_tree_init pe = Inr 0 \<and> pe_ilog_punch_obj pe = Inr 0 \<and>
      pe_punch_dkey pe = Inr 0 \<and> \<not> pe_conflict_dkey pe \<and>
      (case akeys of
         None \<Rightarrow> True
       | Some akey_nr \<Rightarrow>
           pe_key_tree_prepare pe = Inr 0 \<and> pe_ilog_punch_dkey pe = Inr 0 \<and>
           list_all (\<lambda>i. pe_punch_akey pe i = Inr 0) [0..<akey_nr] \<and>
           \<not> pe_conflict_akey pe \<and> pe_key_mark_agg pe = Inr 0))"

text \<open>
  The iteration over a key tree can be followed: the entries have distinct key
  buffers, the anchor lies within them, and fetching an entry and logging the known key
  succeed.
\<close>

definition key_tree_ok :: "key_tree \<Rightarrow> bool" where
  "key_tree_ok t =
     (distinct (map ie_key (kt_entries t)) \<and> kt_anchor t \<le> length (kt_entries t) \<and>
      list_all (\<lambda>e. ie_fetch e = None) (kt_entries t) \<and> kt_tx_add t = None)"

text \<open>
  What is left in a key tree after a punch, read off its contents. A sibling is left
  when the cached known key is set and not marked as punched, or when one of the
  visible entries is committed. The tree has become empty when the cached known key is
  unset or marked as punched and no entry is visible. Otherwise all that is visible is
  uncommitted.
\<close>

definition key_tree_known_live :: "key_tree \<Rightarrow> bool" where
  "key_tree_known_live t = (kt_known_key t \<noteq> 0 \<and> (kt_known_key t AND 1) = 0)"

definition key_tree_has_sibling :: "key_tree \<Rightarrow> bool" where
  "key_tree_has_sibling t =
     (key_tree_known_live t \<or> list_ex (\<lambda>e. \<not> ie_uncommitted e) (kt_entries t))"

definition key_tree_now_empty :: "key_tree \<Rightarrow> bool" where
  "key_tree_now_empty t = (\<not> key_tree_known_live t \<and> kt_entries t = [])"

definition key_tree_left :: "key_tree \<Rightarrow> rc" where
  "key_tree_left t =
     (if key_tree_has_sibling t then Inr 0
      else if key_tree_now_empty t then Inr 1
      else Inl DER_INPROGRESS)"

text \<open>
  Values used in the examples: every callee succeeds and there is no conflict. After
  the punch a tree has either no visible entry left, or an uncommitted entry followed
  by a committed one.
\<close>

definition key_tree_emptied :: key_tree where
  "key_tree_emptied = \<lparr>kt_known_key = 0x1001, kt_entries = [], kt_anchor = 0,
                        kt_tx_add = None\<rparr>"

definition key_tree_sibling :: key_tree where
  "key_tree_sibling =
     \<lparr>kt_known_key = 0x1001,
      kt_entries = [\<lparr>ie_key = 7, ie_uncommitted = True, ie_krec = 0x2000, ie_fetch = None\<rparr>,
                    \<lparr>ie_key = 9, ie_uncommitted = False, ie_krec = 0x3000, ie_fetch = None\<rparr>],
      kt_anchor = 1, kt_tx_add = None\<rparr>"

definition punch_env_example :: "key_tree \<Rightarrow> key_tree \<Rightarrow> punch_env" where
  "punch_env_example akey_tree dkey_tree =
     \<lparr>pe_info_alloc_ok = True, pe_obj_tree_init = Inr 0, pe_ilog_punch_obj = Inr 0,
      pe_key_tree_prepare = Inr 0, pe_ilog_punch_dkey = Inr 0, pe_punch_akey = (\<lambda>i. Inr 0),
      pe_conflict_akey = False, pe_akey_tree = akey_tree, pe_key_mark_agg = Inr 0,
      pe_punch_dkey = Inr 0, pe_conflict_dkey = False, pe_dkey_tree = dkey_tree\<rparr>"

definition punch_env_emptied :: punch_env where
  "punch_env_emptied = punch_env_example key_tree_emptied key_tree_emptied"

section \<open>Memory blocks of the persistent heap (common/dav/memblock.c)\<close>

subsection \<open>Chunk headers of huge blocks\<close>

datatype chunk_type =
    CHUNK_TYPE_UNKNOWN | CHUNK_TYPE_FOOTER | CHUNK_TYPE_FREE | CHUNK_TYPE_USED
  | CHUNK_TYPE_RUN | CHUNK_TYPE_RUN_DATA

text \<open>
  \<open>struct chunk_header\<close>: 8 bytes, so that \<open>chunk_get_chunk_hdr_value\<close>, which copies a
  header into a \<open>uint64_t\<close>, and the 64-bit stores of such values are modelled by the
  header itself. The fields \<open>type\<close>, \<open>flags\<close> and \<open>size_idx\<close> carry the prefix
  \<open>hdr_\<close>.
\<close>

record chunk_header =
  hdr_type :: chunk_type
  hdr_flags :: u16
  hdr_size_idx :: nat

definition chunk_get_chunk_hdr_value :: "chunk_type \<Rightarrow> u16 \<Rightarrow> nat \<Rightarrow> chunk_header" where
  "chunk_get_chunk_hdr_value t f s = \<lparr>hdr_type = t, hdr_flags = f, hdr_size_idx = s\<rparr>"

datatype memblock_state = MEMBLOCK_STATE_UNKNOWN | MEMBLOCK_ALLOCATED | MEMBLOCK_FREE

datatype log_type = LOG_PERSISTENT | LOG_TRANSIENT

text \<open>
  An entry of an operation context: a \<open>ULOG_OPERATION_SET\<close> of the chunk header in slot
  \<open>ue_slot\<close>, in the persistent (redo) log or in the transient one.
\<close>

record ulog_entry =
  ue_slot :: nat
  ue_value :: chunk_header
  ue_type :: log_type

text \<open>
  What happens to the chunk headers of a zone, in order: a store into a slot, and
  \<open>mo_wal_persist\<close> of a slot.
\<close>

datatype zone_event = EV_STORE nat chunk_header | EV_WAL_PERSIST nat

text \<open>The chunk headers of the zone of a block, with the trace of what was done to them.\<close>

record zone_state =
  chunk_headers :: "nat \<Rightarrow> chunk_header"
  zone_trace :: "zone_event list"

definition zone_store :: "zone_state \<Rightarrow> nat \<Rightarrow> chunk_header \<Rightarrow> zone_state" where
  "zone_store z slot v =
     z\<lparr>chunk_headers := (chunk_headers z)(slot := v), zone_trace := zone_trace z @ [EV_STORE slot v]\<rparr>"

definition mo_wal_persist :: "zone_state \<Rightarrow> nat \<Rightarrow> zone_state" where
  "mo_wal_persist z slot = z\<lparr>zone_trace := zone_trace z @ [EV_WAL_PERSIST slot]\<rparr>"

record memory_block =
  chunk_id :: nat
  mb_size_idx :: nat

text \<open>
  Modelled from the spec: \<open>operation_add_entry\<close> and \<open>operation_add_typed_entry\<close>
  (memops.c) are not among the sources. An entry appended without a type is for a
  pointer into the heap and goes to the persistent redo log; a typed entry goes to the
  log named.
\<close>

definition operation_add_typed_entry ::
  "ulog_entry list \<Rightarrow> nat \<Rightarrow> chunk_header \<Rightarrow> log_type \<Rightarrow> ulog_entry list" where
  "operation_add_typed_entry ctx slot v t = ctx @ [\<lparr>ue_slot = slot, ue_value = v, ue_type = t\<rparr>]"

definition operation_add_entry :: "ulog_entry list \<Rightarrow> nat \<Rightarrow> chunk_header \<Rightarrow> ulog_entry list" where
  "operation_add_entry ctx slot v = operation_add_typed_entry ctx slot v LOG_PERSISTENT"

text \<open>
  Modelled from the spec: \<open>operation_process\<close> (memops.c) is not among the sources.
  The persistent entries are made durable through the redo log and applied, in order;
  the transient entries are applied after them and are never stored in the redo log.
\<close>

definition operation_process :: "zone_state \<Rightarrow> ulog_entry list \<Rightarrow> zone_state" where
  "operation_process z ctx =
     (let z1 = fold (\<lambda>e z. mo_wal_persist (zone_store z (ue_slot e) (ue_value e)) (ue_slot e))
                 (filter (\<lambda>e. ue_type e = LOG_PERSISTENT) ctx) z
      in fold (\<lambda>e z. zone_store z (ue_slot e) (ue_value e))
           (filter (\<lambda>e. ue_type e = LOG_TRANSIENT) ctx) z1)"

text \<open>
  \<open>huge_prep_operation_hdr\<close>. \<open>ctx\<close> is \<open>None\<close> for a NULL operation context. The
  result is the zone and the operation context.
\<close>

definition huge_prep_operation_hdr ::
  "zone_state \<Rightarrow> memory_block \<Rightarrow> memblock_state \<Rightarrow> ulog_entry list option \<Rightarrow>
   zone_state \<times> ulog_entry list option" where
  "huge_prep_operation_hdr z m op ctx =
     (let hdr = chunk_id m;
          val = chunk_get_chunk_hdr_value
                  (if op = MEMBLOCK_ALLOCATED then CHUNK_TYPE_USED else CHUNK_TYPE_FREE)
                  (hdr_flags (chunk_headers z hdr)) (mb_size_idx m);
          (z1, ctx1) =
            (case ctx of
               None \<Rightarrow> (mo_wal_persist (zone_store z hdr val) hdr, None)
             | Some c \<Rightarrow> (z, Some (operation_add_entry c hdr val)))
      in if mb_size_idx m = 1 then (z1, ctx1)
         else
           let footer = hdr + mb_size_idx m - 1;
               fval = chunk_get_chunk_hdr_value CHUNK_TYPE_FOOTER 0 (mb_size_idx m)
           in (case ctx1 of
                 None \<Rightarrow> (zone_store z1 footer fval, None)
               | Some c \<Rightarrow> (z1, Some (operation_add_typed_entry c footer fval LOG_TRANSIENT))))"

text \<open>\<open>huge_write_footer\<close> for the header in slot \<open>hdr\<close>: a plain store, never persisted.\<close>

definition huge_write_footer :: "zone_state \<Rightarrow> nat \<Rightarrow> nat \<Rightarrow> zone_state" where
  "huge_write_footer z hdr sidx =
     (if sidx = 1 then z
      else zone_store z (hdr + sidx - 1)
             ((chunk_headers z hdr)\<lparr>hdr_type := CHUNK_TYPE_FOOTER, hdr_size_idx := sidx\<rparr>))"

text \<open>\<open>huge_reinit_chunk\<close>, run for every chunk when the heap boots.\<close>

definition huge_reinit_chunk :: "zone_state \<Rightarrow> memory_block \<Rightarrow> zone_state" where
  "huge_reinit_chunk z m =
     (let hdr = chunk_headers z (chunk_id m)
      in if hdr_type hdr = CHUNK_TYPE_USED then huge_write_footer z (chunk_id m) (hdr_size_idx hdr) else z)"

definition memblock_huge_init :: "zone_state \<Rightarrow> nat \<Rightarrow> nat \<Rightarrow> zone_state \<times> memory_block" where
  "memblock_huge_init z cid sidx =
     (let z1 = zone_store z cid (chunk_get_chunk_hdr_value CHUNK_TYPE_FREE 0 sidx);
          z2 = mo_wal_persist z1 cid
      in (huge_write_footer z2 cid sidx, \<lparr>chunk_id = cid, mb_size_idx = sidx\<rparr>))"

text \<open>A zone used in the examples: every slot a free chunk of one unit, nothing done yet.\<close>

definition zone_example :: zone_state where
  "zone_example =
     \<lparr>chunk_headers = (\<lambda>slot. \<lparr>hdr_type = CHUNK_TYPE_FREE, hdr_flags = 0, hdr_size_idx = 1\<rparr>),
      zone_trace = []\<rparr>"

subsection \<open>Run bitmaps\<close>

text \<open>
  Modelled from the spec: heap_layout.h is not among the sources. A chunk is 256 KiB;
  the run header (\<open>RUN_BASE_METADATA_SIZE\<close>) is 16 bytes, that is two 64-bit values; a
  bitmap value has 64 bits; a cacheline is 64 bytes; the default bitmap has 38 values.
\<close>

definition CHUNKSIZE :: nat where
  "CHUNKSIZE = 262144"

definition RUN_BASE_METADATA_VALUES :: nat where
  "RUN_BASE_METADATA_VALUES = 2"

definition RUN_BASE_METADATA_SIZE :: nat where
  "RUN_BASE_METADATA_SIZE = 16"

definition RUN_BITS_PER_VALUE :: nat where
  "RUN_BITS_PER_VALUE = 64"

definition CACHELINE_SIZE :: nat where
  "CACHELINE_SIZE = 64"

definition RUN_CONTENT_SIZE_BYTES :: "nat \<Rightarrow> nat" where
  "RUN_CONTENT_SIZE_BYTES sidx = (CHUNKSIZE - RUN_BASE_METADATA_SIZE) + (sidx - 1) * CHUNKSIZE"

definition RUN_DEFAULT_BITMAP_VALUES :: nat where
  "RUN_DEFAULT_BITMAP_VALUES = 38"

definition RUN_DEFAULT_BITMAP_SIZE :: nat where
  "RUN_DEFAULT_BITMAP_SIZE = 8 * RUN_DEFAULT_BITMAP_VALUES"

definition RUN_DEFAULT_BITMAP_NBITS :: nat where
  "RUN_DEFAULT_BITMAP_NBITS = RUN_BITS_PER_VALUE * RUN_DEFAULT_BITMAP_VALUES"

definition RUN_DEFAULT_SIZE_BYTES :: "nat \<Rightarrow> nat" where
  "RUN_DEFAULT_SIZE_BYTES sidx =
     (CHUNKSIZE - RUN_BASE_METADATA_SIZE - RUN_DEFAULT_BITMAP_SIZE) + (sidx - 1) * CHUNKSIZE"

definition CHUNK_FLAG_FLEX_BITMAP :: u16 where
  "CHUNK_FLAG_FLEX_BITMAP = 0x0008"

text \<open>Arithmetic of \<open>unsigned\<close> (32 bits) and \<open>size_t\<close> (64 bits) on natural numbers.\<close>

definition u32_of :: "nat \<Rightarrow> nat" where
  "u32_of x = x mod 2 ^ 32"

definition u32_sub :: "nat \<Rightarrow> nat \<Rightarrow> nat" where
  "u32_sub a b = (a + 2 ^ 32 - b mod 2 ^ 32) mod 2 ^ 32"

definition u64_sub :: "nat \<Rightarrow> nat \<Rightarrow> nat" where
  "u64_sub a b = (a + 2 ^ 64 - b mod 2 ^ 64) mod 2 ^ 64"

definition util_div_ceil :: "nat \<Rightarrow> nat \<Rightarrow> nat" where
  "util_div_ceil a b = u32_of (u32_of (a + b) - 1) div b"

definition ALIGN_UP :: "nat \<Rightarrow> nat \<Rightarrow> nat" where
  "ALIGN_UP x a = u32_of (u32_of (x + a - 1) div a * a)"

text \<open>\<open>struct run_bitmap\<close> without the pointer to the values, which the run holds.\<close>

record run_bitmap =
  nvalues :: nat
  nbits :: nat
  bitmap_size :: nat

text \<open>
  \<open>memblock_run_default_nallocs\<close>: the result is the number of allocations and the
  updated \<open>*size_idx\<close>.
\<close>

function memblock_run_default_nallocs_loop :: "nat \<Rightarrow> nat \<Rightarrow> nat \<Rightarrow> nat \<times> nat" where
  "memblock_run_default_nallocs_loop sidx unit_size nallocs =
     (if nallocs > RUN_DEFAULT_BITMAP_NBITS then
        (if sidx > 1 then
           memblock_run_default_nallocs_loop (sidx - 1) unit_size
             (u32_of (RUN_DEFAULT_SIZE_BYTES (sidx - 1) div unit_size))
         else memblock_run_default_nallocs_loop sidx unit_size RUN_DEFAULT_BITMAP_NBITS)
      else (nallocs, sidx))"
  by pat_completeness auto
termination
  by (relation "measure (\<lambda>(sidx, unit_size, nallocs).
        2 * sidx + (if nallocs > RUN_DEFAULT_BITMAP_NBITS then 1 else 0))") auto

declare memblock_run_default_nallocs_loop.simps [simp del]

definition memblock_run_default_nallocs :: "nat \<Rightarrow> nat \<Rightarrow> nat \<Rightarrow> nat \<times> nat" where
  "memblock_run_default_nallocs sidx unit_size alignment =
     (case memblock_run_default_nallocs_loop sidx unit_size
             (u32_of (RUN_DEFAULT_SIZE_BYTES sidx div unit_size)) of
        (nallocs, sidx') \<Rightarrow> (u32_sub nallocs (if alignment \<noteq> 0 then 1 else 0), sidx'))"

text \<open>
  \<open>memblock_run_bitmap\<close>: the result is the updated \<open>*size_idx\<close> and the bitmap
  parameters. A \<open>unit_size\<close> of 0 divides by zero.
\<close>

definition memblock_run_bitmap :: "nat \<Rightarrow> u16 \<Rightarrow> nat \<Rightarrow> nat \<Rightarrow> error + (nat \<times> run_bitmap)" where
  "memblock_run_bitmap sidx fl unit_size alignment =
     (if sidx = 0 then Inl ASSERT_FAILED
      else if unit_size = 0 then Inl UNDEFINED_BEHAVIOUR
      else if fl AND CHUNK_FLAG_FLEX_BITMAP \<noteq> 0 then
        (let content_size = RUN_CONTENT_SIZE_BYTES sidx;
             nbits0 = u32_of (content_size div unit_size);
             nvalues0 = util_div_ceil nbits0 RUN_BITS_PER_VALUE;
             nvalues1 = u32_sub (ALIGN_UP (u32_of (nvalues0 + RUN_BASE_METADATA_VALUES))
                                   (CACHELINE_SIZE div 8)) RUN_BASE_METADATA_VALUES;
             sz = nvalues1 * 8;
             nbits1 = u32_sub (u32_of (u64_sub content_size sz div unit_size))
                        (if alignment \<noteq> 0 then 1 else 0);
             unused_bits = u32_sub (u32_of (nvalues1 * RUN_BITS_PER_VALUE)) nbits1;
             unused_values = unused_bits div RUN_BITS_PER_VALUE
         in Inr (sidx, \<lparr>nvalues = u32_sub nvalues1 unused_values, nbits = nbits1,
                        bitmap_size = sz\<rparr>))
      else
        (case memblock_run_default_nallocs sidx unit_size alignment of
           (nb, sidx') \<Rightarrow>
             let unused_bits = u32_sub RUN_DEFAULT_BITMAP_NBITS nb;
                 unused_values = unused_bits div RUN_BITS_PER_VALUE
             in Inr (sidx', \<lparr>nvalues = u32_sub RUN_DEFAULT_BITMAP_VALUES unused_values,
                             nbits = nb, bitmap_size = RUN_DEFAULT_BITMAP_SIZE\<rparr>)))"

record run_descriptor =
  rdsc_flags :: u16
  rdsc_unit_size :: nat
  rdsc_size_idx :: nat
  rdsc_alignment :: nat
  rdsc_bitmap :: run_bitmap

text \<open>
  \<open>struct chunk_run\<close>: the run header and the values of the bitmap at the start of
  \<open>content\<close> (\<open>bitmap_size\<close> bytes, as 64-bit values).
\<close>

record chunk_run =
  block_size :: nat
  run_alignment :: nat
  content :: "u64 list"

text \<open>
  The three writes of \<open>memblock_run_init\<close> to the bitmap: all bits set over the whole
  bitmap, the first \<open>nvalues - 1\<close> values cleared, and the last value set to
  \<open>UINT64_MAX << trailing_bits\<close>. With \<open>nvalues = 0\<close>, or more values than the
  bitmap has room for, the writes leave the bitmap.
\<close>

definition memblock_run_init_bitmap :: "run_bitmap \<Rightarrow> error + u64 list" where
  "memblock_run_init_bitmap b =
     (if nvalues b = 0 \<or> bitmap_size b div 8 < nvalues b then Inl UNDEFINED_BEHAVIOUR
      else
        let values1 = replicate (bitmap_size b div 8) (- 1 :: u64);
            values2 = replicate (nvalues b - 1) 0 @ drop (nvalues b - 1) values1;
            trailing_bits = nbits b mod RUN_BITS_PER_VALUE;
            last_value = push_bit trailing_bits (- 1 :: u64)
        in Inr (list_update values2 (nvalues b - 1) last_value))"

text \<open>The loop of \<open>memblock_run_init\<close> that writes the headers of the run's data chunks.\<close>

fun run_init_data_hdrs :: "zone_state \<Rightarrow> nat \<Rightarrow> nat list \<Rightarrow> zone_state" where
  "run_init_data_hdrs z cid [] = z"
| "run_init_data_hdrs z cid (i # is) =
     run_init_data_hdrs
       (zone_store z (cid + i) \<lparr>hdr_type = CHUNK_TYPE_RUN_DATA, hdr_flags = 0, hdr_size_idx = i\<rparr>) cid is"

text \<open>\<open>memblock_run_init\<close>: the initialised run, the zone and the memory block.\<close>

definition memblock_run_init ::
  "zone_state \<Rightarrow> nat \<Rightarrow> run_descriptor \<Rightarrow> error + (chunk_run \<times> zone_state \<times> memory_block)" where
  "memblock_run_init z cid rdsc =
     (if rdsc_size_idx rdsc = 0 then Inl ASSERT_FAILED
      else
        (case memblock_run_init_bitmap (rdsc_bitmap rdsc) of
           Inl e \<Rightarrow> Inl e
         | Inr vals \<Rightarrow>
             let run = \<lparr>block_size = rdsc_unit_size rdsc, run_alignment = rdsc_alignment rdsc,
                        content = vals\<rparr>;
                 z1 = run_init_data_hdrs z cid [1..<rdsc_size_idx rdsc];
                 z2 = (if rdsc_size_idx rdsc > 1 then mo_wal_persist z1 (cid + 1) else z1);
                 hdr = chunk_headers z2 cid
             in if hdr_type hdr \<noteq> CHUNK_TYPE_FREE then Inl ASSERT_FAILED
                else
                  Inr (run,
                       mo_wal_persist
                         (zone_store z2 cid
                            (chunk_get_chunk_hdr_value CHUNK_TYPE_RUN (rdsc_flags rdsc) (hdr_size_idx hdr)))
                         cid,
                       \<lparr>chunk_id = cid, mb_size_idx = rdsc_size_idx rdsc\<rparr>)))"

text \<open>Bit \<open>p\<close> of a bitmap, and the number of set bits of a value.\<close>

definition run_bit :: "u64 list \<Rightarrow> nat \<Rightarrow> bool" where
  "run_bit vals p = bit (vals ! (p div 64)) (p mod 64)"

definition util_popcount64 :: "u64 \<Rightarrow> nat" where
  "util_popcount64 v = length (filter (bit v) [0..<64])"

text \<open>
  \<open>run_calc_free\<close>, the free space it computes: the number of clear bits in the first
  \<open>nvalues\<close> values of the bitmap.
\<close>

definition run_calc_free :: "run_bitmap \<Rightarrow> u64 list \<Rightarrow> nat" where
  "run_calc_free b vals = sum_list (map (\<lambda>v. util_popcount64 (NOT v)) (take (nvalues b) vals))"

section \<open>LRU array (vos/lru_array.c, vos/lru_array.h)\<close>

definition LRU_NO_IDX :: nat where
  "LRU_NO_IDX = 0xffffffff"

definition LRU_FLAG_EVICT_MANUAL :: u32 where
  "LRU_FLAG_EVICT_MANUAL = 1"

definition LRU_FLAG_REUSE_UNIQUE :: u32 where
  "LRU_FLAG_REUSE_UNIQUE = 2"

text \<open>
  An entry with its payload (the payload bytes are abstracted to a number, 0 for a
  zeroed payload), a sub-array (\<open>ls_table\<close> is \<open>None\<close> for a NULL table), and the array.
  The two lists of sub-arrays linked through \<open>ls_link\<close> are lists of sub-array
  numbers, head first. Of the callbacks only \<open>lru_on_evict\<close> and \<open>lru_on_init\<close> touch
  the array (they receive the payload and return it); \<open>None\<close> is a NULL callback.
\<close>

record lru_entry =
  le_key :: u64
  le_payload :: nat
  le_next_idx :: nat
  le_prev_idx :: nat

record lru_sub =
  ls_lru :: nat
  ls_free :: nat
  ls_array_idx :: nat
  ls_table :: "lru_entry list option"

record lru_array =
  la_count :: nat
  la_payload_size :: nat
  la_evicting :: nat
  la_flags :: u32
  la_array_nr :: nat
  la_array_shift :: nat
  la_idx_mask :: nat
  la_free_sub :: "nat list"
  la_unused_sub :: "nat list"
  lru_on_evict :: "(nat \<Rightarrow> nat) option"
  lru_on_init :: "(nat \<Rightarrow> nat) option"
  la_sub :: "lru_sub list"

datatype lru_head = HEAD_FREE | HEAD_LRU

definition ent2idx :: "lru_array \<Rightarrow> lru_sub \<Rightarrow> nat \<Rightarrow> nat" where
  "ent2idx array sub ent_idx = push_bit (la_array_shift array) (ls_array_idx sub) + ent_idx"

definition sub_head :: "lru_sub \<Rightarrow> lru_head \<Rightarrow> nat" where
  "sub_head sub h = (case h of HEAD_FREE \<Rightarrow> ls_free sub | HEAD_LRU \<Rightarrow> ls_lru sub)"

definition sub_set_head :: "lru_sub \<Rightarrow> lru_head \<Rightarrow> nat \<Rightarrow> lru_sub" where
  "sub_set_head sub h v = (case h of HEAD_FREE \<Rightarrow> sub\<lparr>ls_free := v\<rparr> | HEAD_LRU \<Rightarrow> sub\<lparr>ls_lru := v\<rparr>)"

definition sub_entries :: "lru_sub \<Rightarrow> lru_entry list" where
  "sub_entries sub = (case ls_table sub of None \<Rightarrow> [] | Some t \<Rightarrow> t)"

text \<open>
  \<open>lrua_remove_entry\<close> for the entry at \<open>idx\<close> of sub-array number \<open>si\<close>, on the ring
  whose head is named. The writes through \<open>prev\<close> and \<open>next\<close> are done in the order of
  the source.
\<close>

definition lrua_remove_entry :: "lru_array \<Rightarrow> nat \<Rightarrow> lru_head \<Rightarrow> nat \<Rightarrow> lru_array" where
  "lrua_remove_entry array si h idx =
     (let sub = la_sub array ! si;
          entries = sub_entries sub;
          entry = entries ! idx;
          sub1 =
            (if le_prev_idx entry = idx then sub_set_head sub h LRU_NO_IDX
             else
               let e1 = entries[le_prev_idx entry :=
                          (entries ! le_prev_idx entry)\<lparr>le_next_idx := le_next_idx entry\<rparr>];
                   e2 = e1[le_next_idx entry :=
                          (e1 ! le_next_idx entry)\<lparr>le_prev_idx := le_prev_idx entry\<rparr>];
                   s1 = sub\<lparr>ls_table := Some e2\<rparr>
               in if idx = sub_head sub h then sub_set_head s1 h (le_next_idx entry) else s1);
          array1 = array\<lparr>la_sub := (la_sub array)[si := sub1]\<rparr>
      in if h = HEAD_FREE \<and> sub_head sub1 h = LRU_NO_IDX \<and>
            la_flags array AND LRU_FLAG_EVICT_MANUAL \<noteq> 0
         then array1\<lparr>la_free_sub := removeAll si (la_free_sub array1),
                     la_unused_sub := removeAll si (la_unused_sub array1)\<rparr>
         else array1)"

text \<open>\<open>lrua_insert\<close> of the entry at \<open>idx\<close> into the ring whose head is named.\<close>

definition lrua_insert :: "lru_sub \<Rightarrow> lru_head \<Rightarrow> nat \<Rightarrow> bool \<Rightarrow> lru_sub" where
  "lrua_insert sub h idx do_append =
     (let entries = sub_entries sub in
      if sub_head sub h = LRU_NO_IDX then
        sub_set_head
          (sub\<lparr>ls_table := Some (entries[idx := (entries ! idx)\<lparr>le_next_idx := idx, le_prev_idx := idx\<rparr>])\<rparr>)
          h idx
      else
        let head = sub_head sub h;
            tail = le_prev_idx (entries ! head);
            e1 = entries[head := (entries ! head)\<lparr>le_prev_idx := idx\<rparr>];
            e2 = e1[tail := (e1 ! tail)\<lparr>le_next_idx := idx\<rparr>];
            e3 = e2[idx := (e2 ! idx)\<lparr>le_prev_idx := tail, le_next_idx := head\<rparr>];
            s1 = sub\<lparr>ls_table := Some e3\<rparr>
        in if do_append then s1 else sub_set_head s1 h idx)"

text \<open>
  \<open>lrua_array_alloc_one\<close> for sub-array number \<open>si\<close>; \<open>alloc_ok\<close> says whether
  \<open>D_ALLOC\<close> of the table succeeds. The table is zeroed and every entry is linked into
  the free ring.
\<close>

definition lrua_array_alloc_one :: "lru_array \<Rightarrow> nat \<Rightarrow> bool \<Rightarrow> error + lru_array" where
  "lrua_array_alloc_one array si alloc_ok =
     (let nr_ents = la_idx_mask array + 1 in
      if \<not> alloc_ok then Inl DER_NOMEM
      else
        let table = map (\<lambda>idx. \<lparr>le_key = 0,
                                 le_payload = (case lru_on_init array of None \<Rightarrow> 0 | Some f \<Rightarrow> f 0),
                                 le_next_idx = (idx + 1) AND la_idx_mask array,
                                 le_prev_idx = (if idx = 0 then nr_ents - 1 else idx - 1)\<rparr>)
                      [0..<nr_ents];
            sub = (la_sub array ! si)\<lparr>ls_table := Some table, ls_lru := LRU_NO_IDX, ls_free := 0\<rparr>
        in Inr (array\<lparr>la_free_sub := si # removeAll si (la_free_sub array),
                       la_unused_sub := removeAll si (la_unused_sub array),
                       la_sub := (la_sub array)[si := sub]\<rparr>))"

text \<open>
  \<open>sub_find_free\<close> on sub-array number \<open>si\<close>: \<open>None\<close> when it returns false, otherwise
  the array and the index handed out.
\<close>

definition sub_find_free :: "lru_array \<Rightarrow> nat \<Rightarrow> u64 \<Rightarrow> (lru_array \<times> nat) option" where
  "sub_find_free array si key =
     (let sub = la_sub array ! si in
      if ls_free sub = LRU_NO_IDX then None
      else
        let tree_idx = ls_free sub;
            array1 = lrua_remove_entry array si HEAD_FREE tree_idx;
            sub1 = lrua_insert (la_sub array1 ! si) HEAD_LRU tree_idx True;
            entries = sub_entries sub1;
            sub2 = sub1\<lparr>ls_table := Some (entries[tree_idx := (entries ! tree_idx)\<lparr>le_key := key\<rparr>])\<rparr>
        in Some (array1\<lparr>la_sub := (la_sub array1)[si := sub2]\<rparr>, ent2idx array sub tree_idx))"

text \<open>The loop of \<open>manual_find_free\<close> over the sub-arrays on \<open>la_free_sub\<close>.\<close>

fun manual_find_free_loop :: "lru_array \<Rightarrow> nat list \<Rightarrow> u64 \<Rightarrow> (lru_array \<times> nat) option" where
  "manual_find_free_loop array [] key = None"
| "manual_find_free_loop array (si # sis) key =
     (case sub_find_free array si key of
        Some r \<Rightarrow> Some r
      | None \<Rightarrow> manual_find_free_loop array sis key)"

text \<open>
  \<open>manual_find_free\<close> and \<open>lrua_find_free\<close>: the return code (\<open>Inr idx\<close> for 0, with the
  index stored through \<open>idx\<close>) and the array as the call leaves it.
\<close>

definition manual_find_free :: "lru_array \<Rightarrow> u64 \<Rightarrow> bool \<Rightarrow> (error + nat) \<times> lru_array" where
  "manual_find_free array key alloc_ok =
     (case manual_find_free_loop array (la_free_sub array) key of
        Some (array1, idx) \<Rightarrow> (Inr idx, array1)
      | None \<Rightarrow>
          (case la_unused_sub array of
             [] \<Rightarrow> (Inl DER_BUSY, array)
           | si # rest \<Rightarrow>
               (case lrua_array_alloc_one array si alloc_ok of
                  Inl e \<Rightarrow> (Inl e, array)
                | Inr array1 \<Rightarrow>
                    (case sub_find_free array1 si key of
                       None \<Rightarrow> (Inl ASSERT_FAILED, array1)
                     | Some (array2, idx) \<Rightarrow> (Inr idx, array2)))))"

definition evict_cb :: "lru_array \<Rightarrow> lru_entry \<Rightarrow> lru_entry" where
  "evict_cb array entry =
     (case lru_on_evict array of
        None \<Rightarrow> entry\<lparr>le_payload := 0\<rparr>
      | Some f \<Rightarrow> entry\<lparr>le_payload := f (le_payload entry)\<rparr>)"

definition lrua_find_free :: "lru_array \<Rightarrow> u64 \<Rightarrow> bool \<Rightarrow> (error + nat) \<times> lru_array" where
  "lrua_find_free array key alloc_ok =
     (if la_flags array AND LRU_FLAG_EVICT_MANUAL \<noteq> 0 then manual_find_free array key alloc_ok
      else
        (case sub_find_free array 0 key of
           Some (array1, idx) \<Rightarrow> (Inr idx, array1)
         | None \<Rightarrow>
             let sub = la_sub array ! 0;
                 entries = sub_entries sub;
                 entry = entries ! ls_lru sub
             in if le_key entry = 0 then (Inl ASSERT_FAILED, array)
                else
                  let entry1 = (evict_cb array entry)\<lparr>le_key := key\<rparr>;
                      sub1 = sub\<lparr>ls_table := Some (entries[ls_lru sub := entry1]),
                                 ls_lru := le_next_idx entry\<rparr>
                  in (Inr (ent2idx array sub (ls_lru sub)),
                      array\<lparr>la_sub := (la_sub array)[0 := sub1]\<rparr>)))"

text \<open>The loop of \<open>lrua_array_alloc\<close> that computes \<open>la_array_shift\<close>.\<close>

function lrua_array_shift_loop :: "nat \<Rightarrow> nat \<Rightarrow> nat" where
  "lrua_array_shift_loop shift idx_mask =
     (if 2 ^ shift < idx_mask then lrua_array_shift_loop (shift + 1) idx_mask else shift)"
  by pat_completeness auto
termination
  by (relation "measure (\<lambda>(shift, idx_mask). idx_mask - 2 ^ shift)")
    (auto intro!: diff_less_mono2)

declare lrua_array_shift_loop.simps [simp del]

text \<open>
  \<open>lrua_array_alloc\<close>. The two booleans say whether \<open>D_ALLOC\<close> of the array and of the
  first table succeed; the callbacks are the two that touch the array.
\<close>

definition lrua_array_alloc ::
  "nat \<Rightarrow> nat \<Rightarrow> nat \<Rightarrow> u32 \<Rightarrow> (nat \<Rightarrow> nat) option \<Rightarrow> (nat \<Rightarrow> nat) option \<Rightarrow> bool \<Rightarrow> bool \<Rightarrow>
   error + lru_array" where
  "lrua_array_alloc nr_ent nr_arrays payload_size fl on_evict on_init array_ok table_ok =
     (if \<not> (nr_ent > 2) then Inl ASSERT_FAILED
      else if nr_ent AND (nr_ent - 1) \<noteq> 0 then Inl ASSERT_FAILED
      else if nr_arrays \<noteq> 0 \<and> nr_arrays AND (nr_arrays - 1) \<noteq> 0 then Inl ASSERT_FAILED
      else if nr_arrays = 0 then Inl ASSERT_FAILED
      else if \<not> (nr_ent > nr_arrays) then Inl ASSERT_FAILED
      else
        let fl1 = (if nr_arrays \<noteq> 1 then fl OR LRU_FLAG_EVICT_MANUAL else fl);
            aligned_size = unat (((of_nat payload_size :: u32) + 7) AND NOT 7)
        in if \<not> array_ok then Inl DER_NOMEM
           else
             let idx_mask = nr_ent div nr_arrays - 1;
                 array =
                   \<lparr>la_count = nr_ent, la_payload_size = aligned_size mod 2 ^ 16, la_evicting = 0,
                    la_flags = fl1, la_array_nr = nr_arrays,
                    la_array_shift = lrua_array_shift_loop 1 idx_mask, la_idx_mask = idx_mask,
                    la_free_sub = [], la_unused_sub = [0..<nr_arrays],
                    lru_on_evict = on_evict, lru_on_init = on_init,
                    la_sub = map (\<lambda>idx. \<lparr>ls_lru = 0, ls_free = 0, ls_array_idx = idx,
                                            ls_table = None\<rparr>) [0..<nr_arrays]\<rparr>
             in lrua_array_alloc_one array 0 table_ok)"

text \<open>
  Every sub-array has been allocated (none is left on \<open>la_unused_sub\<close>) and no free entry
  remains anywhere (every free ring is empty); the sub-arrays linked on \<open>la_free_sub\<close> are
  sub-arrays of this array.
\<close>

definition lrua_exhausted :: "lru_array \<Rightarrow> bool" where
  "lrua_exhausted array =
     (la_unused_sub array = [] \<and>
      list_all (\<lambda>sub. ls_free sub = LRU_NO_IDX) (la_sub array) \<and>
      list_all (\<lambda>si. si < length (la_sub array)) (la_free_sub array))"

text \<open>Successive allocations with the keys of a list, for the examples.\<close>

fun lrua_find_free_keys :: "lru_array \<Rightarrow> u64 list \<Rightarrow> (error + nat) list \<times> lru_array" where
  "lrua_find_free_keys array [] = ([], array)"
| "lrua_find_free_keys array (key # keys) =
     (case lrua_find_free array key True of
        (rc, array1) \<Rightarrow>
          (case lrua_find_free_keys array1 keys of (rcs, array2) \<Rightarrow> (rc # rcs, array2)))"

text \<open>
  The array of capacity 4 with 2 sub-arrays as \<open>lrua_array_alloc\<close> leaves it, and the same
  array after four allocations with the keys 11 to 14.
\<close>

definition lrua_alloc_example :: lru_array where
  "lrua_alloc_example =
     \<lparr>la_count = 4, la_payload_size = 8, la_evicting = 0, la_flags = 1,
      la_array_nr = 2, la_array_shift = 1, la_idx_mask = 1,
      la_free_sub = [0], la_unused_sub = [1], lru_on_evict = None, lru_on_init = None,
      la_sub =
        [\<lparr>ls_lru = 4294967295, ls_free = 0, ls_array_idx = 0,
            ls_table =
              Some [\<lparr>le_key = 0, le_payload = 0, le_next_idx = 1, le_prev_idx = 1\<rparr>,
                    \<lparr>le_key = 0, le_payload = 0, le_next_idx = 0, le_prev_idx = 0\<rparr>]\<rparr>,
         \<lparr>ls_lru = 0, ls_free = 0, ls_array_idx = 1, ls_table = None\<rparr>]\<rparr>"

definition lrua_full_example :: lru_array where
  "lrua_full_example =
     \<lparr>la_count = 4, la_payload_size = 8, la_evicting = 0, la_flags = 1,
      la_array_nr = 2, la_array_shift = 1, la_idx_mask = 1,
      la_free_sub = [], la_unused_sub = [], lru_on_evict = None, lru_on_init = None,
      la_sub =
        [\<lparr>ls_lru = 0, ls_free = 4294967295, ls_array_idx = 0,
            ls_table =
              Some [\<lparr>le_key = 11, le_payload = 0, le_next_idx = 1, le_prev_idx = 1\<rparr>,
                    \<lparr>le_key = 12, le_payload = 0, le_next_idx = 0, le_prev_idx = 0\<rparr>]\<rparr>,
         \<lparr>ls_lru = 0, ls_free = 4294967295, ls_array_idx = 1,
            ls_table =
              Some [\<lparr>le_key = 13, le_payload = 0, le_next_idx = 1, le_prev_idx = 1\<rparr>,
                    \<lparr>le_key = 14, le_payload = 0, le_next_idx = 0, le_prev_idx = 0\<rparr>]\<rparr>]\<rparr>"

chapter \<open>Properties\<close>

section \<open>Hybrid logical clock\<close>

lemma D_HLC_MASK_mask: "D_HLC_MASK = mask 18"
  by (simp add: D_HLC_MASK_def mask_eq_exp_minus_1)

lemma and_not_mask_unat: "unat ((x::u64) AND NOT D_HLC_MASK) = (unat x div 2^18) * 2^18"
proof -
  have e: "x AND NOT (mask 18) = push_bit 18 (drop_bit 18 x)"
    by (rule bit_word_eqI) (auto simp: bit_simps)
  have "unat x div 2^18 * 2^18 \<le> unat x" by simp
  also have "unat x < 2^64" using unsigned_less [of x] by simp
  finally have b: "unat x div 2^18 * 2^18 < 2^64" .
  have "unat (push_bit 18 (drop_bit 18 x)) = take_bit 64 (push_bit 18 (drop_bit 18 (unat x)))"
    by (simp add: unsigned_push_bit_eq unat_drop_bit_eq)
  also have "\<dots> = unat x div 2^18 * 2^18"
    using b by (simp add: push_bit_eq_mult drop_bit_eq_div take_bit_nat_eq_self)
  finally show ?thesis by (simp add: D_HLC_MASK_mask e)
qed

lemma localtime_low_bits:
  "d_hlc_localtime_get now = Inr pt \<Longrightarrow> 2^18 dvd unat pt"
  by (auto simp: d_hlc_localtime_get_def Let_def and_not_mask_unat split: if_splits)

lemma phys_less_imp_less:
  assumes d: "2^18 dvd unat (pt::u64)" and l: "(hlc AND NOT D_HLC_MASK) < pt"
  shows "hlc < pt"
proof -
  obtain k where k: "unat pt = 2^18 * k" using d by (auto simp: dvd_def)
  from l have "unat hlc div 2^18 * 2^18 < 2^18 * k"
    by (simp add: word_less_nat_alt and_not_mask_unat k)
  then have "unat hlc div 2^18 < k" by simp
  then have "unat hlc < 2^18 * k"
    by (simp add: div_less_iff_less_mult mult.commute)
  then show ?thesis by (simp add: word_less_nat_alt k)
qed

lemma inc_greater: "(hlc::u64) \<noteq> - 1 \<Longrightarrow> hlc < hlc + 1"
proof -
  assume "hlc \<noteq> - 1"
  then have "1 + hlc \<noteq> 0" by (metis add_eq_0_iff)
  then have "unat (1 + hlc) = Suc (unat hlc)" by (rule unatSuc)
  then show ?thesis by (simp add: word_less_nat_alt add.commute)
qed

lemma d_hlc_get_ret_greater:
  "2^18 dvd unat pt \<Longrightarrow> hlc \<noteq> - 1 \<Longrightarrow> hlc < d_hlc_get_ret pt hlc"
  by (simp add: d_hlc_get_ret_def phys_less_imp_less inc_greater)

lemma d_hlc_get_cas_loaded:
  "d_hlc_get_cas pt cur ws = (d_hlc_get_ret pt (cas_loaded cur ws), d_hlc_get_ret pt (cas_loaded cur ws))"
  by (induction pt cur ws rule: d_hlc_get_cas.induct) simp_all

lemma d_hlc_get_Inr:
  "D_HLC_START_SEC < tv_sec now \<Longrightarrow>
   \<exists>pt. d_hlc_localtime_get now = Inr pt \<and>
     d_hlc_get s now ws = Inr (d_hlc_get_ret pt (cas_loaded (d_hlc s) ws),
        s\<lparr>d_hlc := d_hlc_get_ret pt (cas_loaded (d_hlc s) ws)\<rparr>)"
  by (simp add: d_hlc_get_def d_hlc_localtime_get_def d_hlc_get_cas_loaded Let_def)

lemma d_hlc_get_seq_step:
  assumes "d_hlc_get s now [] = Inr (ret, s')" and "d_hlc s \<noteq> - 1"
  shows "d_hlc s < ret \<and> d_hlc s' = ret"
proof -
  from assms(1) obtain pt where pt: "d_hlc_localtime_get now = Inr pt"
    and r: "ret = d_hlc_get_ret pt (d_hlc s)" and s': "s' = s\<lparr>d_hlc := ret\<rparr>"
    by (auto simp: d_hlc_get_def split: sum.splits)
  from localtime_low_bits [OF pt] assms(2) show ?thesis
    by (simp add: r s' d_hlc_get_ret_greater)
qed

lemma d_hlc_get_calls_sorted:
  "d_hlc_get_calls s nows = Inr (rets, s') \<Longrightarrow> - 1 \<notin> set (d_hlc s # rets) \<Longrightarrow>
   sorted_wrt (<) (d_hlc s # rets)"
proof (induction nows arbitrary: s rets)
  case Nil
  then show ?case by simp
next
  case (Cons now nows)
  from Cons.prems(1) obtain ret s1 rets' where
    g: "d_hlc_get s now [] = Inr (ret, s1)" and
    c: "d_hlc_get_calls s1 nows = Inr (rets', s')" and
    r: "rets = ret # rets'"
    by (auto split: sum.splits prod.splits)
  from Cons.prems(2) have n: "d_hlc s \<noteq> - 1" by auto
  from d_hlc_get_seq_step [OF g n] have lt: "d_hlc s < ret" and eq: "d_hlc s1 = ret" by auto
  from Cons.prems(2) r eq have "- 1 \<notin> set (d_hlc s1 # rets')" by auto
  from Cons.IH [OF c this] have "sorted_wrt (<) (ret # rets')" by (simp add: eq)
  with lt show ?case by (auto simp: r)
qed


lemma unat_mult_nowrap: "unat x * unat y < 2^64 \<Longrightarrow> unat (x * y :: u64) = unat x * unat y"
  using unat_mult_lem [of x y] by simp

lemma unat_add_nowrap: "unat x + unat y < 2^64 \<Longrightarrow> unat (x + y :: u64) = unat x + unat y"
  using unat_add_lem [of x y] by simp

lemma roundtrip:
  assumes "hlc_representable ts"
  shows "\<exists>h. d_timespec2hlc ts (Some h0) = Inr h \<and> d_hlc2timespec h (Some t0) = Inr ts"
proof -
  define a where "a = unat (tv_sec ts)"
  define b where "b = unat (tv_nsec ts)"
  define n where "n = (a - 1609459200) * 1000000000 + b"
  define d where "d = tv_sec ts - D_HLC_START_SEC"
  define p where "p = d * NSEC_PER_SEC"
  define q where "q = p + tv_nsec ts"
  define h where "h = q * D_HLC_NSEC"
  define r where "r = d_hlc2nsec h"
  from assms have a: "1609459200 \<le> a" and b: "b < 1000000000" and n: "n < 2^60"
    by (simp_all add: hlc_representable_def a_def b_def n_def D_HLC_START_SEC_def)
  have le: "D_HLC_START_SEC \<le> tv_sec ts"
    using a by (simp add: word_le_nat_alt D_HLC_START_SEC_def a_def)
  have u1: "unat d = a - 1609459200"
    using unat_sub [OF le] by (simp add: a_def D_HLC_START_SEC_def d_def)
  have "(a - 1609459200) * 1000000000 \<le> n" by (simp add: n_def)
  with n have m: "(a - 1609459200) * 1000000000 < 2^64" by simp
  have u2: "unat p = (a - 1609459200) * 1000000000"
    unfolding p_def using m unat_mult_nowrap [of d NSEC_PER_SEC]
    by (simp add: u1 NSEC_PER_SEC_def)
  have u3: "unat q = n"
    unfolding q_def using n unat_add_nowrap [of p "tv_nsec ts"]
    by (simp add: u2 n_def b_def)
  have u4: "unat h = n * 16"
    unfolding h_def using n unat_mult_nowrap [of q D_HLC_NSEC]
    by (simp add: u3 D_HLC_NSEC_def)
  have u5: "unat r = n"
    by (simp add: r_def d_hlc2nsec_def unat_div u4 D_HLC_NSEC_def)
  have dv: "n div 1000000000 = a - 1609459200" using b by (simp add: n_def)
  have "a < 2^64" using unsigned_less [of "tv_sec ts"] by (simp add: a_def)
  then have s: "unat (r div NSEC_PER_SEC + D_HLC_START_SEC) = a"
    using a dv unat_add_nowrap [of "r div NSEC_PER_SEC" D_HLC_START_SEC]
    by (simp add: unat_div u5 NSEC_PER_SEC_def D_HLC_START_SEC_def)
  have "n mod 1000000000 = b" using b by (simp add: n_def)
  then have ns: "unat (r mod NSEC_PER_SEC) = b"
    by (simp add: unat_mod u5 NSEC_PER_SEC_def)
  have e1: "r div NSEC_PER_SEC + D_HLC_START_SEC = tv_sec ts"
    using s by (simp add: a_def word_unat_eq_iff)
  have e2: "r mod NSEC_PER_SEC = tv_nsec ts"
    using ns by (simp add: b_def word_unat_eq_iff)
  have "d_timespec2hlc ts (Some h0) = Inr h"
    by (simp add: d_timespec2hlc_def d_nsec2hlc_def Let_def h_def q_def p_def d_def)
  moreover have "d_hlc2timespec h (Some t0) = Inr ts"
    using e1 e2 by (simp add: d_hlc2timespec_def Let_def r_def)
  ultimately show ?thesis by blast
qed


text \<open>
  Claim C3, as amended. A call to \<open>d_hlc_get\<close> with the wall clock after
  \<open>D_HLC_START_SEC\<close> returns; when the value it loaded from the global clock is not
  \<open>2^64 - 1\<close>, the returned timestamp is strictly greater than that value, it is the
  physical time when that exceeds the physical part of the loaded value and the loaded
  value plus one otherwise, and it becomes the new global clock. Hence successive
  invocations by one thread return strictly increasing, pairwise distinct values as long
  as the clock has not reached \<open>2^64 - 1\<close>.
\<close>

theorem d_hlc_get_strictly_increasing:
  "(D_HLC_START_SEC < tv_sec now \<and> cas_loaded (d_hlc s) ws \<noteq> - 1 \<longrightarrow>
      (\<exists>pt ret. d_hlc_localtime_get now = Inr pt \<and>
         d_hlc_get s now ws = Inr (ret, s\<lparr>d_hlc := ret\<rparr>) \<and>
         ret = (if (cas_loaded (d_hlc s) ws AND NOT D_HLC_MASK) < pt then pt
                else cas_loaded (d_hlc s) ws + 1) \<and>
         cas_loaded (d_hlc s) ws < ret)) \<and>
   (d_hlc_get_calls s nows = Inr (rets, s') \<and> - 1 \<notin> set (d_hlc s # rets) \<longrightarrow>
      sorted_wrt (<) (d_hlc s # rets) \<and> distinct rets)"
proof (intro conjI impI)
  assume a: "D_HLC_START_SEC < tv_sec now \<and> cas_loaded (d_hlc s) ws \<noteq> - 1"
  then obtain pt where pt: "d_hlc_localtime_get now = Inr pt"
    and g: "d_hlc_get s now ws = Inr (d_hlc_get_ret pt (cas_loaded (d_hlc s) ws),
        s\<lparr>d_hlc := d_hlc_get_ret pt (cas_loaded (d_hlc s) ws)\<rparr>)"
    using d_hlc_get_Inr [of now s ws] by blast
  have "cas_loaded (d_hlc s) ws < d_hlc_get_ret pt (cas_loaded (d_hlc s) ws)"
    using a localtime_low_bits [OF pt] by (simp add: d_hlc_get_ret_greater)
  with pt g show "\<exists>pt ret. d_hlc_localtime_get now = Inr pt \<and>
         d_hlc_get s now ws = Inr (ret, s\<lparr>d_hlc := ret\<rparr>) \<and>
         ret = (if (cas_loaded (d_hlc s) ws AND NOT D_HLC_MASK) < pt then pt
                else cas_loaded (d_hlc s) ws + 1) \<and>
         cas_loaded (d_hlc s) ws < ret"
    by (auto simp: d_hlc_get_ret_def)
next
  assume b: "d_hlc_get_calls s nows = Inr (rets, s') \<and> - 1 \<notin> set (d_hlc s # rets)"
  then have st: "sorted_wrt (<) (d_hlc s # rets)"
    using d_hlc_get_calls_sorted [of s nows rets s'] by blast
  then show "sorted_wrt (<) (d_hlc s # rets)" .
  from st have "sorted_wrt (<) rets" by simp
  then show "distinct rets" by (simp add: strict_sorted_iff)
qed

theorem d_hlc_get_strictly_increasing_witness:
  "D_HLC_START_SEC < tv_sec \<lparr>tv_sec = 1762000000, tv_nsec = 5\<rparr> \<and>
   cas_loaded (d_hlc hlc_state_init) [Some 7] \<noteq> - 1 \<and>
   d_hlc_get hlc_state_init \<lparr>tv_sec = 1762000000, tv_nsec = 5\<rparr> [Some 7] =
     Inr (2440652800000000000, hlc_state_init\<lparr>d_hlc := 2440652800000000000\<rparr>) \<and>
   d_hlc_get_calls hlc_state_init
     [\<lparr>tv_sec = 1762000000, tv_nsec = 5\<rparr>, \<lparr>tv_sec = 1762000000, tv_nsec = 5\<rparr>,
      \<lparr>tv_sec = 1762000000, tv_nsec = 50000\<rparr>] =
     Inr ([2440652800000000000, 2440652800000000001, 2440652800000786432],
          hlc_state_init\<lparr>d_hlc := 2440652800000786432\<rparr>) \<and>
   sorted_wrt (<) (d_hlc hlc_state_init #
     [2440652800000000000, 2440652800000000001, 2440652800000786432]) \<and>
   distinct [2440652800000000000, 2440652800000000001, 2440652800000786432 :: u64]"
  using d_hlc_get_strictly_increasing
    [of "\<lparr>tv_sec = 1762000000, tv_nsec = 5\<rparr>" hlc_state_init "[Some 7]"
        "[\<lparr>tv_sec = 1762000000, tv_nsec = 5\<rparr>, \<lparr>tv_sec = 1762000000, tv_nsec = 5\<rparr>,
          \<lparr>tv_sec = 1762000000, tv_nsec = 50000\<rparr>]"
        "[2440652800000000000, 2440652800000000001, 2440652800000786432]"
        "hlc_state_init\<lparr>d_hlc := 2440652800000786432\<rparr>"]
  by (simp add: hlc_state_init_def D_HLC_START_SEC_def d_hlc_get_def d_hlc_localtime_get_def
      d_hlc_get_ret_def D_HLC_MASK_def NSEC_PER_SEC_def D_HLC_NSEC_def Let_def)

text \<open>
  The claim as stated fails at the end of the clock's range: in July 2057, with the
  default epsilon, a message carrying \<open>2^64 - 2\<close> is accepted by \<open>d_hlc_get_msg\<close> and
  leaves the clock at \<open>2^64 - 1\<close>; the next \<open>d_hlc_get\<close> wraps around and returns 0.
\<close>

theorem d_hlc_get_wraps_counterexample:
  "d_hlc_get_msg hlc_state_init \<lparr>tv_sec = 2762380704, tv_nsec = 0\<rparr> 0xFFFFFFFFFFFFFFFE =
     Inr (0xFFFFFFFFFFFFFFFF, 9709289472, hlc_state_init\<lparr>d_hlc := 0xFFFFFFFFFFFFFFFF\<rparr>) \<and>
   d_hlc_get (hlc_state_init\<lparr>d_hlc := 0xFFFFFFFFFFFFFFFF\<rparr>)
     \<lparr>tv_sec = 2762380704, tv_nsec = 0\<rparr> [] = Inr (0, hlc_state_init\<lparr>d_hlc := 0\<rparr>) \<and>
   \<not> (0xFFFFFFFFFFFFFFFF :: u64) < 0"
  by (simp add: hlc_state_init_def D_HLC_START_SEC_def d_hlc_get_def d_hlc_localtime_get_def
      d_hlc_get_msg_def d_hlc_get_msg_ret_def
      d_hlc_get_ret_def D_HLC_MASK_def NSEC_PER_SEC_def D_HLC_NSEC_def Let_def)

text \<open>
  Claim C7, as amended. For every timespec that the HLC can represent (not before
  \<open>D_HLC_START_SEC\<close>, \<open>tv_nsec\<close> below \<open>10^9\<close>, fewer than \<open>2^60\<close> nanoseconds after the
  start), \<open>d_timespec2hlc\<close> followed by \<open>d_hlc2timespec\<close> yields the timespec again.
\<close>

theorem d_timespec2hlc_roundtrip:
  assumes "hlc_representable ts"
  shows "\<exists>h. d_timespec2hlc ts (Some h0) = Inr h \<and> d_hlc2timespec h (Some t0) = Inr ts"
  using assms by (rule roundtrip)

theorem d_timespec2hlc_roundtrip_witness:
  "hlc_representable \<lparr>tv_sec = 1762000000, tv_nsec = 123456789\<rparr> \<and>
   d_timespec2hlc \<lparr>tv_sec = 1762000000, tv_nsec = 123456789\<rparr> (Some 0) = Inr 2440652801975308624 \<and>
   d_hlc2timespec 2440652801975308624 (Some \<lparr>tv_sec = 0, tv_nsec = 0\<rparr>) =
     Inr \<lparr>tv_sec = 1762000000, tv_nsec = 123456789\<rparr>"
proof -
  have r: "hlc_representable \<lparr>tv_sec = 1762000000, tv_nsec = 123456789\<rparr>"
    by (simp add: hlc_representable_def D_HLC_START_SEC_def)
  have h: "d_timespec2hlc \<lparr>tv_sec = 1762000000, tv_nsec = 123456789\<rparr> (Some 0) = Inr 2440652801975308624"
    by (simp add: d_timespec2hlc_def d_nsec2hlc_def D_HLC_START_SEC_def NSEC_PER_SEC_def D_HLC_NSEC_def)
  from d_timespec2hlc_roundtrip [OF r, of 0 "\<lparr>tv_sec = 0, tv_nsec = 0\<rparr>"] r h
  show ?thesis by auto
qed

text \<open>
  Without the range restriction the round trip fails: a timespec in January 2058 comes
  back as one in June 2021, because the multiplication by \<open>D_HLC_NSEC\<close> wraps.
\<close>

theorem d_timespec2hlc_roundtrip_counterexample:
  "d_timespec2hlc \<lparr>tv_sec = 2777777777, tv_nsec = 0\<rparr> (Some 0) = Inr 246353158290448384 \<and>
   d_hlc2timespec 246353158290448384 (Some \<lparr>tv_sec = 0, tv_nsec = 0\<rparr>) =
     Inr \<lparr>tv_sec = 1624856272, tv_nsec = 393153024\<rparr> \<and>
   \<lparr>tv_sec = 1624856272, tv_nsec = 393153024\<rparr> \<noteq> \<lparr>tv_sec = 2777777777, tv_nsec = 0\<rparr>"
  by (simp add: d_timespec2hlc_def d_hlc2timespec_def d_nsec2hlc_def d_hlc2nsec_def
      D_HLC_START_SEC_def NSEC_PER_SEC_def D_HLC_NSEC_def)

section \<open>Garbage collector\<close>

lemma gc_table_budgets:
  "map (\<lambda>g. (gc_type g, gc_drain_creds g)) gc_table =
     [(GC_AKEY, 0), (GC_DKEY, 32), (GC_OBJ, 8), (GC_CONT, 1), (GC_MAX, 0)]"
  by (simp add: gc_table_def)

lemma gc_table_cases:
  "gc \<in> set gc_table \<Longrightarrow>
     gc = gc_table ! 0 \<or> gc = gc_table ! 1 \<or> gc = gc_table ! 2 \<or> gc = gc_table ! 3 \<or>
     gc = gc_table ! 4"
  by (auto simp: gc_table_def)

lemma gc_table_upper:
  assumes "gc \<in> set gc_table" and "gc_type gc \<noteq> GC_AKEY" and "gc_type gc \<noteq> GC_MAX"
  shows "gc_drain gc \<noteq> None \<and>
         gc_drain_creds gc = (case gc_type gc of GC_DKEY \<Rightarrow> 32 | GC_OBJ \<Rightarrow> 8 | GC_CONT \<Rightarrow> 1 | _ \<Rightarrow> 0)"
  using assms by (auto simp: gc_table_def)

lemma gc_table_akey:
  assumes "gc \<in> set gc_table" and "gc_type gc = GC_AKEY"
  shows "gc_drain gc \<noteq> None \<and> gc_drain_creds gc = 0"
  using assms by (auto simp: gc_table_def)

lemma gc_drain_item_upper:
  assumes "gc \<in> set gc_table" and "gc_type gc \<noteq> GC_AKEY" and "gc_type gc \<noteq> GC_MAX"
    and "it_addr item \<noteq> 0"
  shows "gc_drain_item drain gc pool item credits emp =
     (case drain gc pool item (gc_drain_creds gc) emp of
        Inl e \<Rightarrow> Inl e
      | Inr (rc, pool', creds', emp') \<Rightarrow> Inr (rc, pool', credits, emp'))"
  using gc_table_upper [OF assms(1-3)] assms(2,4)
  by (auto simp: gc_drain_item_def Let_def split: sum.splits prod.splits)

lemma gc_drain_item_akey:
  assumes "gc \<in> set gc_table" and "gc_type gc = GC_AKEY" and "it_addr item \<noteq> 0"
  shows "gc_drain_item drain gc pool item credits emp =
     (case drain gc pool item credits emp of
        Inl e \<Rightarrow> Inl e
      | Inr (rc, pool', creds', emp') \<Rightarrow>
          if creds' \<le> credits then Inr (rc, pool', creds', emp') else Inl ASSERT_FAILED)"
  using gc_table_akey [OF assms(1,2)] assms(2,3)
  by (auto simp: gc_drain_item_def Let_def split: sum.splits prod.splits)

lemma gc_reclaim_item_upper:
  assumes "gc \<in> set gc_table" and "gc_type gc \<noteq> GC_AKEY" and "gc_type gc \<noteq> GC_MAX"
    and "it_addr item \<noteq> 0"
  shows "gc_reclaim_item drain free_item gc pool item credits =
     (case drain gc pool item (gc_drain_creds gc) False of
        Inl e \<Rightarrow> Inl e
      | Inr (rc, pool', creds', emp') \<Rightarrow>
          if emp' \<and> credits \<noteq> 0 then
            (case free_item gc pool' item of
               Inl e \<Rightarrow> Inl e
             | Inr pool'' \<Rightarrow> Inr (0, pool'', credits - 1))
          else Inr (rc, pool', credits))"
  unfolding gc_reclaim_item_def gc_drain_item_upper [OF assms]
  by (auto split: sum.splits prod.splits)

lemma gc_reclaim_item_akey:
  assumes "gc \<in> set gc_table" and "gc_type gc = GC_AKEY" and "it_addr item \<noteq> 0"
  shows "gc_reclaim_item drain free_item gc pool item credits =
     (case drain gc pool item credits False of
        Inl e \<Rightarrow> Inl e
      | Inr (rc, pool', creds', emp') \<Rightarrow>
          if creds' \<le> credits then
            (if emp' \<and> creds' \<noteq> 0 then
               (case free_item gc pool' item of
                  Inl e \<Rightarrow> Inl e
                | Inr pool'' \<Rightarrow> Inr (0, pool'', creds' - 1))
             else Inr (rc, pool', creds'))
          else Inl ASSERT_FAILED)"
  unfolding gc_reclaim_item_def gc_drain_item_akey [OF assms]
  by (auto split: sum.splits prod.splits)

text \<open>
  Claim C5. The table has four tiers with the drain budgets 0 (akey), 32 (dkey), 8
  (object) and 1 (container), followed by the \<open>GC_MAX\<close> sentinel. For the akey tier
  \<open>gc_drain_item\<close> hands the caller's credits to the drain function and gives what is
  left back to the caller; for the dkey, object and container tiers it hands the tier's
  fixed budget to the drain function and leaves the caller's credits as they were.
  In the loop of \<open>gc_reclaim_pool\<close> the step on an item of an upper tier leaves the
  caller's credits as they were, except that it takes exactly one credit when the drain
  has reported the item empty, a credit remains and \<open>gc_free_item\<close> has freed the item;
  the step on an akey leaves what the drain has left, less that same one credit for
  freeing the emptied item.
\<close>

theorem gc_tier_credit_budgets:
  "map (\<lambda>g. (gc_type g, gc_drain_creds g)) gc_table =
     [(GC_AKEY, 0), (GC_DKEY, 32), (GC_OBJ, 8), (GC_CONT, 1), (GC_MAX, 0)] \<and>
   (gc \<in> set gc_table \<and> gc_type gc = GC_AKEY \<and> it_addr item \<noteq> 0 \<longrightarrow>
      gc_drain_item drain gc pool item credits emp =
        (case drain gc pool item credits emp of
           Inl e \<Rightarrow> Inl e
         | Inr (rc, pool', creds', emp') \<Rightarrow>
             if creds' \<le> credits then Inr (rc, pool', creds', emp') else Inl ASSERT_FAILED)) \<and>
   (gc \<in> set gc_table \<and> gc_type gc \<noteq> GC_AKEY \<and> gc_type gc \<noteq> GC_MAX \<and> it_addr item \<noteq> 0 \<longrightarrow>
      gc_drain_creds gc =
        (case gc_type gc of GC_DKEY \<Rightarrow> 32 | GC_OBJ \<Rightarrow> 8 | GC_CONT \<Rightarrow> 1 | _ \<Rightarrow> 0) \<and>
      gc_drain_item drain gc pool item credits emp =
        (case drain gc pool item (gc_drain_creds gc) emp of
           Inl e \<Rightarrow> Inl e
         | Inr (rc, pool', creds', emp') \<Rightarrow> Inr (rc, pool', credits, emp'))) \<and>
   (gc \<in> set gc_table \<and> gc_type gc \<noteq> GC_AKEY \<and> gc_type gc \<noteq> GC_MAX \<and> it_addr item \<noteq> 0 \<longrightarrow>
      gc_reclaim_item drain free_item gc pool item credits =
        (case drain gc pool item (gc_drain_creds gc) False of
           Inl e \<Rightarrow> Inl e
         | Inr (rc, pool', creds', emp') \<Rightarrow>
             if emp' \<and> credits \<noteq> 0 then
               (case free_item gc pool' item of
                  Inl e \<Rightarrow> Inl e
                | Inr pool'' \<Rightarrow> Inr (0, pool'', credits - 1))
             else Inr (rc, pool', credits))) \<and>
   (gc \<in> set gc_table \<and> gc_type gc = GC_AKEY \<and> it_addr item \<noteq> 0 \<longrightarrow>
      gc_reclaim_item drain free_item gc pool item credits =
        (case drain gc pool item credits False of
           Inl e \<Rightarrow> Inl e
         | Inr (rc, pool', creds', emp') \<Rightarrow>
             if creds' \<le> credits then
               (if emp' \<and> creds' \<noteq> 0 then
                  (case free_item gc pool' item of
                     Inl e \<Rightarrow> Inl e
                   | Inr pool'' \<Rightarrow> Inr (0, pool'', creds' - 1))
                else Inr (rc, pool', creds'))
             else Inl ASSERT_FAILED))"
  using gc_table_budgets gc_drain_item_akey [of gc item drain pool credits emp]
    gc_drain_item_upper [of gc item drain pool credits emp]
    gc_table_upper [of gc]
    gc_reclaim_item_upper [of gc item drain free_item pool credits]
    gc_reclaim_item_akey [of gc item drain free_item pool credits]
  by blast

theorem gc_tier_credit_budgets_witness:
  "gc_table ! 0 \<in> set gc_table \<and> gc_type (gc_table ! 0) = GC_AKEY \<and>
   gc_table ! 1 \<in> set gc_table \<and> gc_type (gc_table ! 1) = GC_DKEY \<and>
   it_addr \<lparr>it_addr = 4096, it_args = 0\<rparr> \<noteq> 0 \<and>
   gc_drain_item (\<lambda>g p i c e. Inr (0, p + nat c, c - 5, True)) (gc_table ! 0) (0::nat)
     \<lparr>it_addr = 4096, it_args = 0\<rparr> 100 False = Inr (0, 100, 95, True) \<and>
   gc_drain_creds (gc_table ! 1) = 32 \<and>
   gc_drain_item (\<lambda>g p i c e. Inr (0, p + nat c, c - 5, True)) (gc_table ! 1) (0::nat)
     \<lparr>it_addr = 4096, it_args = 0\<rparr> 100 False = Inr (0, 32, 100, True) \<and>
   gc_reclaim_item (\<lambda>g p i c e. Inr (0, p + nat c, c - 5, True)) (\<lambda>g p i. Inr (p + 1000))
     (gc_table ! 1) (0::nat) \<lparr>it_addr = 4096, it_args = 0\<rparr> 100 = Inr (0, 1032, 99) \<and>
   gc_reclaim_item (\<lambda>g p i c e. Inr (0, p + nat c, c - 5, True)) (\<lambda>g p i. Inr (p + 1000))
     (gc_table ! 0) (0::nat) \<lparr>it_addr = 4096, it_args = 0\<rparr> 100 = Inr (0, 1100, 94)"
proof -
  have m0: "gc_table ! 0 \<in> set gc_table" and t0: "gc_type (gc_table ! 0) = GC_AKEY"
    and m1: "gc_table ! 1 \<in> set gc_table" and t1: "gc_type (gc_table ! 1) = GC_DKEY"
    and c1: "gc_drain_creds (gc_table ! 1) = 32"
    by (simp_all add: gc_table_def)
  from gc_tier_credit_budgets
      [of "gc_table ! 0" "\<lparr>it_addr = 4096, it_args = 0\<rparr>"
          "\<lambda>g p i c e. Inr (0, p + nat c, c - 5, True)" "0::nat" 100 False
          "\<lambda>g p i. Inr (p + 1000)"]
    gc_tier_credit_budgets
      [of "gc_table ! 1" "\<lparr>it_addr = 4096, it_args = 0\<rparr>"
          "\<lambda>g p i c e. Inr (0, p + nat c, c - 5, True)" "0::nat" 100 False
          "\<lambda>g p i. Inr (p + 1000)"]
    m0 t0 m1 t1 c1
  show ?thesis by simp
qed

text \<open>
  An item of an upper tier that the drain has not emptied costs the caller nothing and
  is not freed.
\<close>

lemma gc_reclaim_item_not_emptied_example:
  "gc_reclaim_item (\<lambda>g p i c e. Inr (0, p + nat c, c - 5, False)) (\<lambda>g p i. Inr (p + 1000))
     (gc_table ! 1) (0::nat) \<lparr>it_addr = 4096, it_args = 0\<rparr> 100 = Inr (0, 32, 100)"
  by (simp add: gc_reclaim_item_def gc_drain_item_def gc_table_def)

text \<open>
  Claim C10. On a pool whose \<open>vp_dying\<close> flag is set, \<open>gc_add_item\<close> returns 0 and
  leaves the pool as it was: no bag is allocated, no item is stored, the pool is not
  registered for collection and no container is queued. (The two assertions of
  \<open>gc_type2bin\<close> come first: a call with \<open>GC_MAX\<close>, or with \<open>GC_CONT\<close> on a
  container, aborts.)
\<close>

theorem gc_add_item_dying:
  "vp_dying pool \<Longrightarrow>
   gc_add_item pool coh type item_off args zalloc tx_add =
     (if type = GC_MAX \<or> (coh \<noteq> None \<and> type = GC_CONT) then Inl ASSERT_FAILED else Inr pool)"
  by (auto simp: gc_add_item_def gc_type2bin_def split: option.splits)

theorem gc_add_item_dying_witness:
  "vp_dying (gc_init_cont (gc_pool_example True) 7) \<and>
   gc_add_item (gc_init_cont (gc_pool_example True) 7) (Some 7) GC_AKEY 4096 0 64 None =
     Inr (gc_init_cont (gc_pool_example True) 7)"
proof -
  have d: "vp_dying (gc_init_cont (gc_pool_example True) 7)"
    by (simp add: gc_init_cont_def gc_pool_example_def)
  from gc_add_item_dying [OF d, of "Some 7" GC_AKEY 4096 0 64 None] d
  show ?thesis by simp
qed

text \<open>
  The same call on a pool that is not dying stores the item in a new bag, registers the
  pool and queues the container.
\<close>

lemma gc_add_item_live_example:
  "case gc_add_item (gc_init_cont (gc_pool_example False) 7) (Some 7) GC_AKEY 4096 0 64 None of
     Inl e \<Rightarrow> False
   | Inr p \<Rightarrow>
       vp_gc_cont p = [7] \<and> vp_gc_link p \<and> vp_opened p = 2 \<and>
       cd_gc_bins p 7 GC_AKEY =
         \<lparr>bin_bag_first = 64, bin_bag_last = 64, bin_bag_size = 1018, bin_bag_nr = 1\<rparr> \<and>
       bag_item_nr (umem p 64) = 1 \<and>
       bag_items (umem p 64) ! 0 = \<lparr>it_addr = 4096, it_args = 0\<rparr>"
  by (simp add: gc_add_item_def gc_type2bin_def gc_bin_add_item_def gc_bin_find_bag_def
      gc_init_cont_def gc_pool_example_def umem_zalloc_bag_def gc_have_pool_def gc_add_pool_def
      gc_bag_size_def Let_def)

text \<open>Both initialisers set \<open>bin_bag_size\<close> of every bin to \<open>gc_bag_size\<close>.\<close>

lemma gc_init_pool_loop_keeps:
  "gc_init_pool_loop p us ws tx_add = Inr q \<Longrightarrow> a \<notin> set us \<Longrightarrow>
   pd_gc_bins q a = pd_gc_bins p a"
proof (induction us arbitrary: p ws)
  case Nil
  then show ?case by simp
next
  case (Cons u us)
  from Cons.prems(1) obtain z zs' where zs: "ws = z # zs'" and z: "z \<noteq> 0" and tx: "tx_add = None"
    and rest: "gc_init_pool_loop
                 ((umem_zalloc_bag p z gc_bag_size)
                    \<lparr>pd_gc_bins := (pd_gc_bins p)(u :=
                       \<lparr>bin_bag_first = z, bin_bag_last = z,
                        bin_bag_size = gc_bag_size, bin_bag_nr = 1\<rparr>)\<rparr>) us zs' tx_add = Inr q"
    by (auto split: list.splits if_splits option.splits)
  from Cons.prems(2) have n: "a \<notin> set us" and au: "a \<noteq> u" by auto
  from Cons.IH [OF rest n] au show ?case by (simp add: umem_zalloc_bag_def)
qed

lemma gc_init_pool_loop_bag_size:
  "gc_init_pool_loop pd ts zs tx_add = Inr pd' \<Longrightarrow> t \<in> set ts \<Longrightarrow>
   bin_bag_size (pd_gc_bins pd' t) = gc_bag_size"
proof (induction ts arbitrary: pd zs)
  case Nil
  then show ?case by simp
next
  case (Cons a ts)
  from Cons.prems(1) obtain z zs' where zs: "zs = z # zs'" and z: "z \<noteq> 0" and tx: "tx_add = None"
    and rest: "gc_init_pool_loop
                 ((umem_zalloc_bag pd z gc_bag_size)
                    \<lparr>pd_gc_bins := (pd_gc_bins pd)(a :=
                       \<lparr>bin_bag_first = z, bin_bag_last = z,
                        bin_bag_size = gc_bag_size, bin_bag_nr = 1\<rparr>)\<rparr>) ts zs' tx_add = Inr pd'"
    by (auto split: list.splits if_splits option.splits)
  show ?case
  proof (cases "t \<in> set ts")
    case True
    from Cons.IH [OF rest True] show ?thesis .
  next
    case False
    with Cons.prems(2) have ta: "t = a" by simp
    from gc_init_pool_loop_keeps [OF rest] False ta show ?thesis
      by (simp add: umem_zalloc_bag_def)
  qed
qed

lemma gc_init_pool_bag_size:
  "gc_init_pool pd zs tx_add = Inr pd' \<Longrightarrow> t \<noteq> GC_MAX \<Longrightarrow>
   bin_bag_size (pd_gc_bins pd' t) = gc_bag_size"
  unfolding gc_init_pool_def
  by (erule gc_init_pool_loop_bag_size) (cases t; simp)

lemma gc_init_cont_bag_size:
  "t \<in> {GC_AKEY, GC_DKEY, GC_OBJ} \<Longrightarrow>
   bin_bag_size (cd_gc_bins (gc_init_cont pool c) c t) = gc_bag_size"
  by (auto simp: gc_init_cont_def)

text \<open>
  Claim C8 (the code differs from its own comment). The comment on \<open>gc_bag_size\<close>
  promises bags of 250 items in at most 4 KiB; the initialiser is \<open>250 + 3 * 256\<close>, so
  the bins of a pool and of a container are set up with bags of 1018 items, which take
  16368 bytes of heap. A bag of 250 items would take 4080 bytes.
\<close>

theorem gc_bag_size_value:
  "gc_bag_size = 1018 \<and>
   gc_bag_heap_bytes gc_bag_size = 16368 \<and> \<not> gc_bag_heap_bytes gc_bag_size \<le> 4096 \<and>
   gc_bag_heap_bytes 250 = 4080 \<and>
   map (\<lambda>t. bin_bag_size (cd_gc_bins (gc_init_cont (gc_pool_example False) 7) 7 t))
     [GC_AKEY, GC_DKEY, GC_OBJ] = [1018, 1018, 1018] \<and>
   (case gc_init_pool (gc_pool_example False) [64, 128, 192, 256] None of
      Inl e \<Rightarrow> []
    | Inr p \<Rightarrow> map (\<lambda>t. bin_bag_size (pd_gc_bins p t)) [GC_AKEY, GC_DKEY, GC_OBJ, GC_CONT]) =
     [1018, 1018, 1018, 1018]"
  by (simp add: gc_bag_size_def gc_bag_heap_bytes_def gc_bag_offsetof_items_def
      gc_init_cont_def gc_init_pool_def gc_pool_example_def umem_zalloc_bag_def)

section \<open>Client network configuration\<close>

lemma d_setenv_srx:
  "d_setenv e ''FI_OFI_RXM_USE_SRX'' v True = Inr (e(''FI_OFI_RXM_USE_SRX'' \<mapsto> v))"
  by (simp add: d_setenv_def)

lemma d_setenv_secondary:
  "d_setenv e ''CRT_SECONDARY_PROVIDER'' v True = Inr (e(''CRT_SECONDARY_PROVIDER'' \<mapsto> v))"
  by (simp add: d_setenv_def)

lemma net_cfg_srx_unset_set:
  "srv_srx_set info = - 1 \<Longrightarrow> e ''FI_OFI_RXM_USE_SRX'' \<noteq> None \<Longrightarrow>
   net_cfg_srx info mem e = Inl DER_INVAL"
  by (auto simp: net_cfg_srx_def d_agetenv_str_def)

lemma net_cfg_srx_unset_unset:
  "srv_srx_set info = - 1 \<Longrightarrow> e ''FI_OFI_RXM_USE_SRX'' = None \<Longrightarrow>
   net_cfg_srx info mem e = Inr e"
  by (auto simp: net_cfg_srx_def d_agetenv_str_def)

lemma net_cfg_srx_server_set:
  "srv_srx_set info \<noteq> - 1 \<Longrightarrow>
   net_cfg_srx info mem e =
     (if asprintf_ok mem
      then Inr (e(''FI_OFI_RXM_USE_SRX'' \<mapsto> string_of_int (sint (srv_srx_set info))))
      else Inl DER_NOMEM)"
  by (simp add: net_cfg_srx_def d_setenv_srx)

lemma net_cfg_rest_result:
  "fst (net_cfg_cleanup (net_cfg_rest info resp mem s)) =
     (if strndup_provider_ok mem \<and> strndup_interface_ok mem \<and> strndup_domain_ok mem \<and>
         (rank_uris resp = [] \<or> alloc_ranks_ok mem)
      then None else Some DER_NOMEM) \<and>
   env (snd (net_cfg_cleanup (net_cfg_rest info resp mem s))) ''FI_OFI_RXM_USE_SRX'' =
     env s ''FI_OFI_RXM_USE_SRX'' \<and>
   (fst (net_cfg_cleanup (net_cfg_rest info resp mem s)) = None \<longrightarrow>
      cio_provider (crt_info (snd (net_cfg_cleanup (net_cfg_rest info resp mem s)))) =
        Some (provider info) \<and>
      cio_interface (crt_info (snd (net_cfg_cleanup (net_cfg_rest info resp mem s)))) =
        Some (interface info) \<and>
      cio_domain (crt_info (snd (net_cfg_cleanup (net_cfg_rest info resp mem s)))) =
        Some (domain info) \<and>
      g_serv_ranks (snd (net_cfg_cleanup (net_cfg_rest info resp mem s))) = rank_uris resp)"
  by (simp add: net_cfg_rest_def net_cfg_cleanup_def d_setenv_secondary Let_def)

lemma dc_mgmt_net_cfg_init_hints_failed:
  "net_cfg_set_hints (env s) (env_vars resp) = (Some err, e1) \<Longrightarrow>
   dc_mgmt_net_cfg_init info resp mem s =
     (Some err, s\<lparr>env := e1, crt_info := (crt_info s)\<lparr>cio_provider := None, cio_interface := None,
                                                     cio_domain := None\<rparr>\<rparr>)"
  by (simp add: dc_mgmt_net_cfg_init_def net_cfg_cleanup_def)

lemma dc_mgmt_net_cfg_init_rejected:
  "net_cfg_set_hints (env s) (env_vars resp) = (None, e1) \<Longrightarrow>
   srv_srx_set info = - 1 \<Longrightarrow> e1 ''FI_OFI_RXM_USE_SRX'' \<noteq> None \<Longrightarrow>
   dc_mgmt_net_cfg_init info resp mem s =
     (Some DER_INVAL, s\<lparr>env := e1, crt_info := (crt_info s)\<lparr>cio_provider := None,
                                             cio_interface := None, cio_domain := None\<rparr>\<rparr>)"
  by (simp add: dc_mgmt_net_cfg_init_def net_cfg_cleanup_def net_cfg_srx_unset_set)

lemma dc_mgmt_net_cfg_init_both_unset:
  assumes "net_cfg_set_hints (env s) (env_vars resp) = (None, e1)"
    and "srv_srx_set info = - 1" and "e1 ''FI_OFI_RXM_USE_SRX'' = None"
  shows "fst (dc_mgmt_net_cfg_init info resp mem s) =
           (if net_cfg_allocs_ok info resp mem then None else Some DER_NOMEM) \<and>
         env (snd (dc_mgmt_net_cfg_init info resp mem s)) ''FI_OFI_RXM_USE_SRX'' = None"
  using assms net_cfg_rest_result [of info resp mem "s\<lparr>env := e1\<rparr>"]
  by (simp add: dc_mgmt_net_cfg_init_def net_cfg_srx_unset_unset net_cfg_allocs_ok_def)

lemma dc_mgmt_net_cfg_init_server_set:
  assumes "net_cfg_set_hints (env s) (env_vars resp) = (None, e1)"
    and "srv_srx_set info \<noteq> - 1"
  shows "fst (dc_mgmt_net_cfg_init info resp mem s) =
           (if net_cfg_allocs_ok info resp mem then None else Some DER_NOMEM) \<and>
         env (snd (dc_mgmt_net_cfg_init info resp mem s)) ''FI_OFI_RXM_USE_SRX'' =
           (if asprintf_ok mem then Some (string_of_int (sint (srv_srx_set info)))
            else e1 ''FI_OFI_RXM_USE_SRX'') \<and>
         (net_cfg_allocs_ok info resp mem \<longrightarrow>
            cio_provider (crt_info (snd (dc_mgmt_net_cfg_init info resp mem s))) =
              Some (provider info))"
proof (cases "asprintf_ok mem")
  case True
  let ?e2 = "e1(''FI_OFI_RXM_USE_SRX'' \<mapsto> string_of_int (sint (srv_srx_set info)))"
  from True assms show ?thesis
    using net_cfg_rest_result [of info resp mem "s\<lparr>env := ?e2\<rparr>"]
    by (simp add: dc_mgmt_net_cfg_init_def net_cfg_srx_server_set net_cfg_allocs_ok_def)
next
  case False
  with assms show ?thesis
    by (simp add: dc_mgmt_net_cfg_init_def net_cfg_srx_server_set net_cfg_allocs_ok_def
        net_cfg_cleanup_def)
qed

text \<open>
  Claim C9, as amended. The function first applies the server-supplied environment
  variables; one that cannot be set ends the call with that error, the strings of
  \<open>crt_info\<close> NULL and the environment as the loop left it. When they have all been
  applied: if the server has not set SRX (\<open>srv_srx_set = -1\<close>) and the client's
  environment defines \<open>FI_OFI_RXM_USE_SRX\<close>, \<open>dc_mgmt_net_cfg_init\<close> fails with
  \<open>-DER_INVAL\<close>, leaves the three strings of \<open>crt_info\<close> NULL and sets nothing else,
  and \<open>dc_mgmt_net_cfg_check\<close> fails likewise; if neither has set it, nothing is
  rejected. If the server has set SRX, no client value is rejected: the client's
  variable is overwritten with the server's value, and the call succeeds exactly when
  its memory allocations do (it returns \<open>-DER_NOMEM\<close> otherwise).
\<close>

theorem dc_mgmt_net_cfg_init_srx:
  "(net_cfg_set_hints (env s) (env_vars resp) = (Some err, e1) \<longrightarrow>
      dc_mgmt_net_cfg_init info resp mem s =
        (Some err,
         s\<lparr>env := e1, crt_info := (crt_info s)\<lparr>cio_provider := None, cio_interface := None,
                                                cio_domain := None\<rparr>\<rparr>)) \<and>
   (net_cfg_set_hints (env s) (env_vars resp) = (None, e1) \<longrightarrow>
     (srv_srx_set info = - 1 \<and> e1 ''FI_OFI_RXM_USE_SRX'' \<noteq> None \<longrightarrow>
        dc_mgmt_net_cfg_init info resp mem s =
          (Some DER_INVAL,
           s\<lparr>env := e1, crt_info := (crt_info s)\<lparr>cio_provider := None, cio_interface := None,
                                                  cio_domain := None\<rparr>\<rparr>) \<and>
        dc_mgmt_net_cfg_check info e1 = Some DER_INVAL) \<and>
     (srv_srx_set info = - 1 \<and> e1 ''FI_OFI_RXM_USE_SRX'' = None \<longrightarrow>
        fst (dc_mgmt_net_cfg_init info resp mem s) =
          (if net_cfg_allocs_ok info resp mem then None else Some DER_NOMEM) \<and>
        env (snd (dc_mgmt_net_cfg_init info resp mem s)) ''FI_OFI_RXM_USE_SRX'' = None \<and>
        dc_mgmt_net_cfg_check info e1 = None) \<and>
     (srv_srx_set info \<noteq> - 1 \<longrightarrow>
        fst (dc_mgmt_net_cfg_init info resp mem s) =
          (if net_cfg_allocs_ok info resp mem then None else Some DER_NOMEM) \<and>
        env (snd (dc_mgmt_net_cfg_init info resp mem s)) ''FI_OFI_RXM_USE_SRX'' =
          (if asprintf_ok mem then Some (string_of_int (sint (srv_srx_set info)))
           else e1 ''FI_OFI_RXM_USE_SRX'') \<and>
        (net_cfg_allocs_ok info resp mem \<longrightarrow>
           cio_provider (crt_info (snd (dc_mgmt_net_cfg_init info resp mem s))) =
             Some (provider info)) \<and>
        dc_mgmt_net_cfg_check info e1 = None))"
proof (intro conjI impI)
  assume "net_cfg_set_hints (env s) (env_vars resp) = (Some err, e1)"
  then show "dc_mgmt_net_cfg_init info resp mem s =
        (Some err,
         s\<lparr>env := e1, crt_info := (crt_info s)\<lparr>cio_provider := None, cio_interface := None,
                                                cio_domain := None\<rparr>\<rparr>)"
    by (rule dc_mgmt_net_cfg_init_hints_failed)
next
  assume h: "net_cfg_set_hints (env s) (env_vars resp) = (None, e1)"
  {
    assume a: "srv_srx_set info = - 1 \<and> e1 ''FI_OFI_RXM_USE_SRX'' \<noteq> None"
    with h show "dc_mgmt_net_cfg_init info resp mem s =
          (Some DER_INVAL,
           s\<lparr>env := e1, crt_info := (crt_info s)\<lparr>cio_provider := None, cio_interface := None,
                                                  cio_domain := None\<rparr>\<rparr>)"
      by (simp add: dc_mgmt_net_cfg_init_rejected)
    from a show "dc_mgmt_net_cfg_check info e1 = Some DER_INVAL"
      by (auto simp: dc_mgmt_net_cfg_check_def d_agetenv_str_def)
  }
  {
    assume b: "srv_srx_set info = - 1 \<and> e1 ''FI_OFI_RXM_USE_SRX'' = None"
    note r = dc_mgmt_net_cfg_init_both_unset [OF h, of info mem]
    from b r show "fst (dc_mgmt_net_cfg_init info resp mem s) =
          (if net_cfg_allocs_ok info resp mem then None else Some DER_NOMEM)" by simp
    from b r show "env (snd (dc_mgmt_net_cfg_init info resp mem s)) ''FI_OFI_RXM_USE_SRX'' = None"
      by simp
    from b show "dc_mgmt_net_cfg_check info e1 = None"
      by (simp add: dc_mgmt_net_cfg_check_def d_agetenv_str_def)
  }
  {
    assume c: "srv_srx_set info \<noteq> - 1"
    note r = dc_mgmt_net_cfg_init_server_set [OF h c, of mem]
    from r show "fst (dc_mgmt_net_cfg_init info resp mem s) =
          (if net_cfg_allocs_ok info resp mem then None else Some DER_NOMEM)" by simp
    from r show "env (snd (dc_mgmt_net_cfg_init info resp mem s)) ''FI_OFI_RXM_USE_SRX'' =
          (if asprintf_ok mem then Some (string_of_int (sint (srv_srx_set info)))
           else e1 ''FI_OFI_RXM_USE_SRX'')" by simp
    {
      assume "net_cfg_allocs_ok info resp mem"
      with r show "cio_provider (crt_info (snd (dc_mgmt_net_cfg_init info resp mem s))) =
             Some (provider info)" by simp
    }
    from c show "dc_mgmt_net_cfg_check info e1 = None"
      by (simp add: dc_mgmt_net_cfg_check_def)
  }
qed

theorem dc_mgmt_net_cfg_init_srx_witness:
  "net_cfg_set_hints (env (net_state_example None)) [Some ''FI_OFI_RXM_USE_SRX=1''] =
     (None, (env (net_state_example None))(''FI_OFI_RXM_USE_SRX'' \<mapsto> ''1'')) \<and>
   srv_srx_set (net_info_example (- 1)) = - 1 \<and>
   fst (dc_mgmt_net_cfg_init (net_info_example (- 1))
          \<lparr>env_vars = [Some ''FI_OFI_RXM_USE_SRX=1''], rank_uris = [0, 1]\<rparr> net_mem_ok
          (net_state_example None)) = Some DER_INVAL \<and>
   crt_info (snd (dc_mgmt_net_cfg_init (net_info_example (- 1))
          \<lparr>env_vars = [Some ''FI_OFI_RXM_USE_SRX=1''], rank_uris = [0, 1]\<rparr> net_mem_ok
          (net_state_example None))) =
     \<lparr>cio_crt_timeout = 0, cio_provider = None, cio_interface = None, cio_domain = None\<rparr> \<and>
   net_cfg_set_hints (env (net_state_example (Some ''0''))) [] =
     (None, env (net_state_example (Some ''0''))) \<and>
   srv_srx_set (net_info_example 1) \<noteq> - 1 \<and>
   net_cfg_allocs_ok (net_info_example 1) \<lparr>env_vars = [], rank_uris = [0, 1]\<rparr> net_mem_ok \<and>
   fst (dc_mgmt_net_cfg_init (net_info_example 1) \<lparr>env_vars = [], rank_uris = [0, 1]\<rparr> net_mem_ok
          (net_state_example (Some ''0''))) = None \<and>
   env (snd (dc_mgmt_net_cfg_init (net_info_example 1) \<lparr>env_vars = [], rank_uris = [0, 1]\<rparr>
          net_mem_ok (net_state_example (Some ''0'')))) ''FI_OFI_RXM_USE_SRX'' = Some ''1'' \<and>
   net_cfg_set_hints (env (net_state_example (Some ''0''))) [Some ''=x''] =
     (Some DER_INVAL, env (net_state_example (Some ''0''))) \<and>
   fst (dc_mgmt_net_cfg_init (net_info_example 1) \<lparr>env_vars = [Some ''=x''], rank_uris = [0, 1]\<rparr>
          net_mem_ok (net_state_example (Some ''0''))) = Some DER_INVAL"
proof -
  have h1: "net_cfg_set_hints (env (net_state_example None)) [Some ''FI_OFI_RXM_USE_SRX=1''] =
     (None, (env (net_state_example None))(''FI_OFI_RXM_USE_SRX'' \<mapsto> ''1''))"
    by (simp add: split_env_def d_setenv_def net_state_example_def)
  have h2: "net_cfg_set_hints (env (net_state_example (Some ''0''))) [] =
     (None, env (net_state_example (Some ''0'')))"
    by simp
  have h3: "net_cfg_set_hints (env (net_state_example (Some ''0''))) [Some ''=x''] =
     (Some DER_INVAL, env (net_state_example (Some ''0'')))"
    by (simp add: split_env_def d_setenv_def)
  have s1: "string_of_int 1 = ''1''" by (simp add: string_of_int_def)
  have a: "net_cfg_allocs_ok (net_info_example 1) \<lparr>env_vars = [], rank_uris = [0, 1]\<rparr> net_mem_ok"
    by (simp add: net_cfg_allocs_ok_def net_mem_ok_def)
  have m: "asprintf_ok net_mem_ok" by (simp add: net_mem_ok_def)
  have i: "srv_srx_set (net_info_example 1) = 1" "srv_srx_set (net_info_example (- 1)) = - 1"
    by (simp_all add: net_info_example_def)
  from dc_mgmt_net_cfg_init_srx
      [where s = "net_state_example None"
         and resp = "\<lparr>env_vars = [Some ''FI_OFI_RXM_USE_SRX=1''], rank_uris = [0, 1]\<rparr>"
         and ?e1.0 = "(env (net_state_example None))(''FI_OFI_RXM_USE_SRX'' \<mapsto> ''1'')"
         and info = "net_info_example (- 1)" and mem = net_mem_ok and err = DER_INVAL]
    dc_mgmt_net_cfg_init_srx
      [where s = "net_state_example (Some ''0'')"
         and resp = "\<lparr>env_vars = [], rank_uris = [0, 1]\<rparr>"
         and ?e1.0 = "env (net_state_example (Some ''0''))"
         and info = "net_info_example 1" and mem = net_mem_ok and err = DER_INVAL]
    dc_mgmt_net_cfg_init_srx
      [where s = "net_state_example (Some ''0'')"
         and resp = "\<lparr>env_vars = [Some ''=x''], rank_uris = [0, 1]\<rparr>"
         and ?e1.0 = "env (net_state_example (Some ''0''))"
         and info = "net_info_example 1" and mem = net_mem_ok and err = DER_INVAL]
    h1 h2 h3 s1 a m i
  show ?thesis
    by (simp add: net_state_example_def)
qed

text \<open>
  The claim as stated fails when the server has set the value: a client whose
  environment says \<open>0\<close> against a server value of 1 is not rejected; its variable
  becomes \<open>1\<close> and the configuration completes.
\<close>

theorem dc_mgmt_net_cfg_init_srx_counterexample:
  "env (net_state_example (Some ''0'')) ''FI_OFI_RXM_USE_SRX'' = Some ''0'' \<and>
   srv_srx_set (net_info_example 1) = 1 \<and> string_of_int 1 \<noteq> ''0'' \<and>
   fst (dc_mgmt_net_cfg_init (net_info_example 1) \<lparr>env_vars = [], rank_uris = [0, 1]\<rparr> net_mem_ok
          (net_state_example (Some ''0''))) = None \<and>
   crt_info (snd (dc_mgmt_net_cfg_init (net_info_example 1) \<lparr>env_vars = [], rank_uris = [0, 1]\<rparr>
          net_mem_ok (net_state_example (Some ''0'')))) =
     \<lparr>cio_crt_timeout = 60, cio_provider = Some ''ofi+tcp'', cio_interface = Some ''eth0'',
      cio_domain = Some ''eth0''\<rparr> \<and>
   env (snd (dc_mgmt_net_cfg_init (net_info_example 1) \<lparr>env_vars = [], rank_uris = [0, 1]\<rparr>
          net_mem_ok (net_state_example (Some ''0'')))) ''FI_OFI_RXM_USE_SRX'' = Some ''1'' \<and>
   dc_mgmt_net_cfg_check (net_info_example 1) (env (net_state_example (Some ''0''))) = None"
  by (simp add: dc_mgmt_net_cfg_init_def net_cfg_cleanup_def net_cfg_srx_def net_cfg_rest_def
      d_setenv_def d_agetenv_str_def string_of_int_def net_info_example_def net_mem_ok_def
      net_state_example_def dc_mgmt_net_cfg_check_def Let_def)

text \<open>
  \<open>atoi\<close> on the client's \<open>CRT_TIMEOUT\<close>: a value beyond the range of \<open>int\<close> wraps.
\<close>

lemma atoi_examples:
  "atoi ''30'' = 30 \<and> sint (atoi '' -7s'') = - 7 \<and> sint (atoi ''2147483648'') = - 2147483648"
  by (simp add: atoi_def strtol_def)

section \<open>Key punch and punch propagation\<close>

lemma empty_tree_check_uncommitted:
  "ie_uncommitted e \<Longrightarrow> ki_first kinfo \<noteq> Some (ie_key e) \<Longrightarrow>
   empty_tree_check e kinfo =
     (Inr 0, kinfo\<lparr>ki_first := (if ki_first kinfo = None then Some (ie_key e) else ki_first kinfo),
                   ki_has_uncommitted := True\<rparr>)"
  by (simp add: empty_tree_check_def Let_def)

lemma empty_tree_check_committed:
  "\<not> ie_uncommitted e \<Longrightarrow> ie_fetch e = None \<Longrightarrow> ki_first kinfo \<noteq> Some (ie_key e) \<Longrightarrow>
   empty_tree_check e kinfo =
     (Inr 1, kinfo\<lparr>ki_first := (if ki_first kinfo = None then Some (ie_key e) else ki_first kinfo),
                   ki_known_key := ie_krec e, ki_non_empty := True\<rparr>)"
  by (simp add: empty_tree_check_def Let_def)

lemma empty_tree_check_seen:
  "ki_first kinfo = Some (ie_key e) \<Longrightarrow> empty_tree_check e kinfo = (Inr 1, kinfo)"
  by (simp add: empty_tree_check_def)

lemma vos_iterate_key_uncommitted:
  assumes "\<forall>e\<in>set es. ie_uncommitted e"
    and "\<forall>e\<in>set es. ki_first kinfo \<noteq> Some (ie_key e)"
    and "distinct (map ie_key es)"
  shows "vos_iterate_key (es @ rest) kinfo =
     vos_iterate_key rest
       (kinfo\<lparr>ki_first := (if ki_first kinfo = None \<and> es \<noteq> [] then Some (ie_key (hd es))
                           else ki_first kinfo),
              ki_has_uncommitted := (ki_has_uncommitted kinfo \<or> es \<noteq> [])\<rparr>)"
  using assms
proof (induction es arbitrary: kinfo)
  case Nil
  then show ?case by simp
next
  case (Cons e es)
  let ?k = "kinfo\<lparr>ki_first := (if ki_first kinfo = None then Some (ie_key e) else ki_first kinfo),
                   ki_has_uncommitted := True\<rparr>"
  from Cons.prems have c: "empty_tree_check e kinfo = (Inr 0, ?k)"
    by (simp add: empty_tree_check_uncommitted)
  from Cons.prems have a: "\<forall>e'\<in>set es. ie_uncommitted e'"
    and b: "\<forall>e'\<in>set es. ki_first ?k \<noteq> Some (ie_key e')"
    and d: "distinct (map ie_key es)"
    by auto
  from Cons.IH [OF a b d] c show ?case
    by (cases "ki_first kinfo") simp_all
qed

lemma vos_iterate_key_committed:
  assumes "\<exists>e\<in>set es. \<not> ie_uncommitted e"
    and "\<forall>e\<in>set es. ie_fetch e = None"
    and "\<forall>e\<in>set es. ki_first kinfo \<noteq> Some (ie_key e)"
    and "distinct (map ie_key es)"
  shows "\<exists>kinfo'. vos_iterate_key (es @ rest) kinfo = (Inr 1, kinfo') \<and> ki_non_empty kinfo'"
  using assms
proof (induction es arbitrary: kinfo)
  case Nil
  then show ?case by simp
next
  case (Cons e es)
  show ?case
  proof (cases "ie_uncommitted e")
    case False
    with Cons.prems show ?thesis
      by (simp add: empty_tree_check_committed)
  next
    case True
    let ?k = "kinfo\<lparr>ki_first := (if ki_first kinfo = None then Some (ie_key e) else ki_first kinfo),
                     ki_has_uncommitted := True\<rparr>"
    from True Cons.prems have c: "empty_tree_check e kinfo = (Inr 0, ?k)"
      by (simp add: empty_tree_check_uncommitted)
    from True Cons.prems have a: "\<exists>e'\<in>set es. \<not> ie_uncommitted e'"
      and f: "\<forall>e'\<in>set es. ie_fetch e' = None"
      and b: "\<forall>e'\<in>set es. ki_first ?k \<noteq> Some (ie_key e')"
      and d: "distinct (map ie_key es)"
      by auto
    from Cons.IH [OF a f b d] c show ?thesis by simp
  qed
qed


lemma tree_is_empty_tail_scan:
  assumes ok: "key_tree_ok t" and f: "ki_first kinfo = None" and n: "\<not> ki_non_empty kinfo"
  shows "fst (tree_is_empty_tail t kinfo) =
     (if list_ex (\<lambda>e. \<not> ie_uncommitted e) (kt_entries t) then Inr 0
      else if ki_has_uncommitted kinfo \<or> kt_entries t \<noteq> [] then Inl DER_INPROGRESS
      else Inr 1)"
proof (cases "list_ex (\<lambda>e. \<not> ie_uncommitted e) (kt_entries t)")
  case True
  from ok f True obtain kinfo' where
    "vos_iterate_key (kt_entries t @ []) kinfo = (Inr 1, kinfo') \<and> ki_non_empty kinfo'"
    using vos_iterate_key_committed [of "kt_entries t" kinfo "[]"]
    by (auto simp: key_tree_ok_def list_all_iff list_ex_iff)
  with True show ?thesis
    by (simp add: tree_is_empty_tail_def)
next
  case False
  with ok f have "vos_iterate_key (kt_entries t @ []) kinfo =
     vos_iterate_key []
       (kinfo\<lparr>ki_first := (if ki_first kinfo = None \<and> kt_entries t \<noteq> []
                            then Some (ie_key (hd (kt_entries t))) else ki_first kinfo),
              ki_has_uncommitted := (ki_has_uncommitted kinfo \<or> kt_entries t \<noteq> [])\<rparr>)"
    by (intro vos_iterate_key_uncommitted) (auto simp: key_tree_ok_def list_ex_iff)
  with False ok n show ?thesis
    by (simp add: tree_is_empty_tail_def key_tree_ok_def)
qed

lemma tree_is_empty_tail_stop:
  assumes ok: "key_tree_ok t" and a: "kt_anchor t < length (kt_entries t)"
    and f: "ki_first kinfo = Some (ie_key (kt_entries t ! kt_anchor t))"
    and n: "\<not> ki_non_empty kinfo" and u: "ki_has_uncommitted kinfo"
  shows "fst (tree_is_empty_tail t kinfo) =
     (if list_ex (\<lambda>e. \<not> ie_uncommitted e) (take (kt_anchor t) (kt_entries t)) then Inr 0
      else Inl DER_INPROGRESS)"
proof -
  let ?es = "kt_entries t" and ?a = "kt_anchor t"
  let ?pre = "take ?a ?es" and ?rest = "?es ! ?a # drop (Suc ?a) ?es"
  from a have split: "?es = ?pre @ ?rest" by (rule id_take_nth_drop)
  from ok have d: "distinct (map ie_key ?es)" by (simp add: key_tree_ok_def)
  have dp: "distinct (map ie_key ?pre)"
    using d by (metis distinct_take take_map)
  have nf: "\<forall>e\<in>set ?pre. ki_first kinfo \<noteq> Some (ie_key e)"
  proof
    fix e assume e: "e \<in> set ?pre"
    from d split have "distinct (map ie_key ?pre @ map ie_key ?rest)"
      by (metis map_append)
    then have "ie_key (?es ! ?a) \<notin> set (map ie_key ?pre)" by auto
    with e f show "ki_first kinfo \<noteq> Some (ie_key e)" by auto
  qed
  from ok have fe: "\<forall>e\<in>set ?pre. ie_fetch e = None"
    by (auto simp: key_tree_ok_def list_all_iff dest: in_set_takeD)
  show ?thesis
  proof (cases "list_ex (\<lambda>e. \<not> ie_uncommitted e) ?pre")
    case True
    then obtain kinfo' where
      "vos_iterate_key (?pre @ ?rest) kinfo = (Inr 1, kinfo') \<and> ki_non_empty kinfo'"
      using vos_iterate_key_committed [OF _ fe nf dp, of ?rest] by (auto simp: list_ex_iff)
    with split have "vos_iterate_key ?es kinfo = (Inr 1, kinfo') \<and> ki_non_empty kinfo'"
      by simp
    with True show ?thesis by (simp add: tree_is_empty_tail_def)
  next
    case False
    then have un: "\<forall>e\<in>set ?pre. ie_uncommitted e" by (auto simp: list_ex_iff)
    let ?k = "kinfo\<lparr>ki_first := (if ki_first kinfo = None \<and> ?pre \<noteq> []
                                  then Some (ie_key (hd ?pre)) else ki_first kinfo),
                    ki_has_uncommitted := (ki_has_uncommitted kinfo \<or> ?pre \<noteq> [])\<rparr>"
    have "vos_iterate_key (?pre @ ?rest) kinfo = vos_iterate_key ?rest ?k"
      by (rule vos_iterate_key_uncommitted [OF un nf dp])
    also have "\<dots> = (Inr 1, ?k)"
      using f by (simp add: empty_tree_check_seen)
    finally have "vos_iterate_key ?es kinfo = (Inr 1, ?k)"
      using split by simp
    with False ok n u show ?thesis
      by (simp add: tree_is_empty_tail_def key_tree_ok_def)
  qed
qed

lemma tree_is_empty_left:
  assumes ok: "key_tree_ok t"
  shows "fst (tree_is_empty t) = key_tree_left t"
proof (cases "key_tree_known_live t")
  case True
  then show ?thesis
    by (simp add: tree_is_empty_def key_tree_left_def key_tree_has_sibling_def
        key_tree_known_live_def)
next
  case nl: False
  let ?es = "kt_entries t" and ?a = "kt_anchor t"
  let ?k0 = "\<lparr>ki_known_key = kt_known_key t, ki_non_empty = False,
              ki_has_uncommitted = False, ki_first = None\<rparr>"
  have left: "key_tree_left t =
     (if list_ex (\<lambda>e. \<not> ie_uncommitted e) ?es then Inr 0
      else if ?es \<noteq> [] then Inl DER_INPROGRESS else Inr 1)"
    using nl by (simp add: key_tree_left_def key_tree_has_sibling_def key_tree_now_empty_def)
  show ?thesis
  proof (cases "kt_known_key t = 0")
    case True
    then have "tree_is_empty t = tree_is_empty_tail t ?k0"
      by (simp add: tree_is_empty_def)
    with tree_is_empty_tail_scan [OF ok, of ?k0] left show ?thesis by simp
  next
    case False
    with nl have te: "tree_is_empty t =
       (case vos_iterate_key (drop ?a ?es) ?k0 of
          (Inl e, kinfo') \<Rightarrow> (Inl e, t\<lparr>kt_known_key := ki_known_key kinfo'\<rparr>)
        | (Inr n, kinfo') \<Rightarrow>
            if ki_non_empty kinfo' then (Inr 0, t\<lparr>kt_known_key := ki_known_key kinfo'\<rparr>)
            else tree_is_empty_tail t kinfo')"
      by (simp add: tree_is_empty_def key_tree_known_live_def)
    from ok have d: "distinct (map ie_key (drop ?a ?es))"
      by (simp add: key_tree_ok_def drop_map [symmetric])
    from ok have fe: "\<forall>e\<in>set (drop ?a ?es). ie_fetch e = None"
      by (auto simp: key_tree_ok_def list_all_iff dest: in_set_dropD)
    have ex: "list_ex (\<lambda>e. \<not> ie_uncommitted e) ?es \<longleftrightarrow>
              list_ex (\<lambda>e. \<not> ie_uncommitted e) (take ?a ?es) \<or>
              list_ex (\<lambda>e. \<not> ie_uncommitted e) (drop ?a ?es)"
      by (metis append_take_drop_id list_ex_append)
    show ?thesis
    proof (cases "list_ex (\<lambda>e. \<not> ie_uncommitted e) (drop ?a ?es)")
      case True
      then obtain kinfo' where
        "vos_iterate_key (drop ?a ?es @ []) ?k0 = (Inr 1, kinfo') \<and> ki_non_empty kinfo'"
        using vos_iterate_key_committed [OF _ fe _ d, of ?k0 "[]"] by (auto simp: list_ex_iff)
      with te True ex left show ?thesis by simp
    next
      case nd: False
      then have un: "\<forall>e\<in>set (drop ?a ?es). ie_uncommitted e" by (auto simp: list_ex_iff)
      let ?k1 = "?k0\<lparr>ki_first := (if ki_first ?k0 = None \<and> drop ?a ?es \<noteq> []
                                   then Some (ie_key (hd (drop ?a ?es))) else ki_first ?k0),
                     ki_has_uncommitted := (ki_has_uncommitted ?k0 \<or> drop ?a ?es \<noteq> [])\<rparr>"
      have "vos_iterate_key (drop ?a ?es @ []) ?k0 = vos_iterate_key [] ?k1"
        by (rule vos_iterate_key_uncommitted [OF un _ d]) simp
      then have it: "vos_iterate_key (drop ?a ?es) ?k0 = (Inr 0, ?k1)" by simp
      have t1: "tree_is_empty t = tree_is_empty_tail t ?k1"
        unfolding te it by simp
      show ?thesis
      proof (cases "?a < length ?es")
        case True
        then have hd: "hd (drop ?a ?es) = ?es ! ?a" by (simp add: hd_drop_conv_nth)
        from True have ne: "drop ?a ?es \<noteq> []" "?es \<noteq> []" by auto
        have "fst (tree_is_empty_tail t ?k1) =
           (if list_ex (\<lambda>e. \<not> ie_uncommitted e) (take ?a ?es) then Inr 0
            else Inl DER_INPROGRESS)"
          by (rule tree_is_empty_tail_stop [OF ok True]) (use True in \<open>simp_all add: hd\<close>)
        with t1 left ex nd ne show ?thesis by simp
      next
        case False
        then have e: "drop ?a ?es = []" by simp
        have "fst (tree_is_empty_tail t ?k1) =
           (if list_ex (\<lambda>e. \<not> ie_uncommitted e) ?es then Inr 0
            else if ki_has_uncommitted ?k1 \<or> ?es \<noteq> [] then Inl DER_INPROGRESS
            else Inr 1)"
          by (rule tree_is_empty_tail_scan [OF ok]) (simp_all add: e)
        with t1 left e show ?thesis by simp
      qed
    qed
  qed
qed

lemma key_tree_left_empty_iff: "key_tree_left t = Inr 1 \<longleftrightarrow> key_tree_now_empty t"
  by (auto simp: key_tree_left_def key_tree_now_empty_def key_tree_has_sibling_def)

lemma key_tree_left_sibling_iff: "key_tree_left t = Inr 0 \<longleftrightarrow> key_tree_has_sibling t"
  by (auto simp: key_tree_left_def)

lemma key_punch_akeys_all:
  "\<forall>j. i \<le> j \<and> j < i + n \<longrightarrow> punch j = Inr 0 \<Longrightarrow>
   key_punch_akeys punch i n (Inr 0) = (Inr 0, map KEY_TREE_PUNCH_AKEY [i..<i + n])"
proof (induction n arbitrary: i)
  case 0
  then show ?case by simp
next
  case (Suc n)
  from Suc.prems have h: "punch i = Inr 0" by simp
  from Suc.prems have t: "\<forall>j. Suc i \<le> j \<and> j < Suc i + n \<longrightarrow> punch j = Inr 0" by simp
  from Suc.IH [OF t] h show ?case by (simp add: upt_conv_Cons)
qed

lemma key_punch_akeys_ok:
  "list_all (\<lambda>i. punch i = Inr 0) [i..<i + n] \<Longrightarrow>
   key_punch_akeys punch i n (Inr 0) = (Inr 0, map KEY_TREE_PUNCH_AKEY [i..<i + n])"
  by (rule key_punch_akeys_all) (simp add: list_all_iff)

lemma key_punch_akeys_events:
  "KEY_TREE_PUNCH_DKEY \<notin> set (snd (key_punch_akeys punch i n r)) \<and>
   OI_PUNCH \<notin> set (snd (key_punch_akeys punch i n r))"
  by (induction punch i n r rule: key_punch_akeys.induct) (auto split: prod.splits)

lemma vos_propagate_check_events:
  "KEY_TREE_PUNCH_DKEY \<notin> set (snd (snd (vos_propagate_check propagate c t type))) \<and>
   OI_PUNCH \<notin> set (snd (snd (vos_propagate_check propagate c t type)))"
  by (auto simp: vos_propagate_check_def Let_def split: prod.splits sum.splits)

lemma vos_propagate_check_gate:
  "vos_propagate_check False False t VOS_ITER_DKEY = (Inr 0, t, [])"
  by (simp add: vos_propagate_check_def)

lemma vos_propagate_check_left:
  assumes ok: "key_tree_ok t" and ty: "type = VOS_ITER_AKEY \<or> propagate"
  shows "fst (vos_propagate_check propagate False t type) = key_tree_left t"
proof -
  obtain r t' where te: "tree_is_empty t = (r, t')" by (cases "tree_is_empty t")
  with tree_is_empty_left [OF ok] have r: "r = key_tree_left t" by simp
  have "r = Inr 0 \<or> r = Inr 1 \<or> r = Inl DER_INPROGRESS"
    unfolding r by (simp add: key_tree_left_def)
  with ty te r show ?thesis
    by (auto simp: vos_propagate_check_def Let_def)
qed

lemma key_punch_dkey_result:
  assumes pd: "pe_punch_dkey pe = Inr 0" and cd: "\<not> pe_conflict_dkey pe"
    and nr: "VOS_OF_REPLAY_PC \<notin> flags" and ok: "propagate \<longrightarrow> key_tree_ok (pe_dkey_tree pe)"
  shows "pr_rc (key_punch_dkey propagate pe flags evs t) =
           (if propagate then key_tree_left (pe_dkey_tree pe) else Inr 0) \<and>
         (KEY_TREE_PUNCH_DKEY \<in> set (pr_events (key_punch_dkey propagate pe flags evs t)))"
proof (cases propagate)
  case True
  with ok have k: "key_tree_ok (pe_dkey_tree pe)" by simp
  obtain r t' fl where v:
    "vos_propagate_check propagate False (pe_dkey_tree pe) VOS_ITER_DKEY = (r, t', fl)"
    by (cases "vos_propagate_check propagate False (pe_dkey_tree pe) VOS_ITER_DKEY") auto
  with vos_propagate_check_left [OF k, of VOS_ITER_DKEY propagate] True
  have "r = key_tree_left (pe_dkey_tree pe)" by simp
  with pd cd nr v True show ?thesis
    by (simp add: key_punch_dkey_def)
next
  case False
  with pd cd nr show ?thesis
    by (simp add: key_punch_dkey_def vos_propagate_check_gate)
qed

lemma key_punch_dkey_replay:
  assumes pd: "pe_punch_dkey pe = Inr 0" and rp: "VOS_OF_REPLAY_PC \<in> flags"
  shows "pr_rc (key_punch_dkey propagate pe flags evs t) = Inr 0 \<and>
         (KEY_TREE_PUNCH_DKEY \<in> set (pr_events (key_punch_dkey propagate pe flags evs t)))"
  using assms by (simp add: key_punch_dkey_def)

lemma key_punch_akeys_part:
  assumes ok: "punch_callees_ok pe (Some n)" and nr: "VOS_OF_REPLAY_PC \<notin> flags"
    and ka: "key_tree_ok (pe_akey_tree pe)"
  shows "\<exists>t2 fl2.
     KEY_TREE_PUNCH_DKEY \<notin> set fl2 \<and>
     key_punch propagate pe (Some n) flags =
       (if key_tree_left (pe_akey_tree pe) = Inr 1
        then key_punch_dkey propagate pe flags (map KEY_TREE_PUNCH_AKEY [0..<n] @ fl2) t2
        else if key_tree_left (pe_akey_tree pe) = Inr 0
        then \<lparr>pr_rc = Inr 0, pr_events = map KEY_TREE_PUNCH_AKEY [0..<n] @ fl2 @ [KEY_MARK_AGG],
              pr_akey_tree = t2, pr_dkey_tree = pe_dkey_tree pe\<rparr>
        else \<lparr>pr_rc = key_tree_left (pe_akey_tree pe),
              pr_events = map KEY_TREE_PUNCH_AKEY [0..<n] @ fl2,
              pr_akey_tree = t2, pr_dkey_tree = pe_dkey_tree pe\<rparr>)"
proof -
  from ok have a: "key_punch_akeys (pe_punch_akey pe) 0 n (Inr 0) =
      (Inr 0, map KEY_TREE_PUNCH_AKEY [0..<n])"
    using key_punch_akeys_ok [of "pe_punch_akey pe" 0 n] by (simp add: punch_callees_ok_def)
  from ok have c: "\<not> pe_conflict_akey pe" by (simp add: punch_callees_ok_def)
  obtain r t2 fl2 where v:
    "vos_propagate_check propagate False (pe_akey_tree pe) VOS_ITER_AKEY = (r, t2, fl2)"
    by (cases "vos_propagate_check propagate False (pe_akey_tree pe) VOS_ITER_AKEY") auto
  with vos_propagate_check_left [OF ka, of VOS_ITER_AKEY propagate]
  have r: "r = key_tree_left (pe_akey_tree pe)" by simp
  from v vos_propagate_check_events [of propagate False "pe_akey_tree pe" VOS_ITER_AKEY]
  have f: "KEY_TREE_PUNCH_DKEY \<notin> set fl2" by simp
  have "key_punch propagate pe (Some n) flags =
       (if key_tree_left (pe_akey_tree pe) = Inr 1
        then key_punch_dkey propagate pe flags (map KEY_TREE_PUNCH_AKEY [0..<n] @ fl2) t2
        else if key_tree_left (pe_akey_tree pe) = Inr 0
        then \<lparr>pr_rc = Inr 0, pr_events = map KEY_TREE_PUNCH_AKEY [0..<n] @ fl2 @ [KEY_MARK_AGG],
              pr_akey_tree = t2, pr_dkey_tree = pe_dkey_tree pe\<rparr>
        else \<lparr>pr_rc = key_tree_left (pe_akey_tree pe),
              pr_events = map KEY_TREE_PUNCH_AKEY [0..<n] @ fl2,
              pr_akey_tree = t2, pr_dkey_tree = pe_dkey_tree pe\<rparr>)"
    using ok nr by (simp add: key_punch_def Let_def a c v r punch_callees_ok_def)
  with f show ?thesis by blast
qed

lemma key_punch_akeys_replay:
  assumes ok: "punch_callees_ok pe (Some n)" and rp: "VOS_OF_REPLAY_PC \<in> flags"
  shows "pr_rc (key_punch propagate pe (Some n) flags) = Inr 0 \<and>
         KEY_TREE_PUNCH_DKEY \<notin> set (pr_events (key_punch propagate pe (Some n) flags))"
proof -
  from ok have a: "key_punch_akeys (pe_punch_akey pe) 0 n (Inr 0) =
      (Inr 0, map KEY_TREE_PUNCH_AKEY [0..<n])"
    using key_punch_akeys_ok [of "pe_punch_akey pe" 0 n] by (simp add: punch_callees_ok_def)
  from ok rp show ?thesis
    by (auto simp: key_punch_def Let_def a punch_callees_ok_def)
qed

lemma key_punch_dkey_no_oi:
  "OI_PUNCH \<notin> set evs \<Longrightarrow> OI_PUNCH \<notin> set (pr_events (key_punch_dkey propagate pe flags evs t))"
  using vos_propagate_check_events [of propagate "pe_conflict_dkey pe" "pe_dkey_tree pe" VOS_ITER_DKEY]
  by (auto simp: key_punch_dkey_def split: prod.splits)

lemma key_punch_no_oi:
  "OI_PUNCH \<notin> set (pr_events (key_punch propagate pe akeys flags))"
proof (cases akeys)
  case None
  then show ?thesis by (simp add: key_punch_def Let_def key_punch_dkey_no_oi)
next
  case (Some n)
  obtain rc1 evs1 where a: "key_punch_akeys (pe_punch_akey pe) 0 n (Inr 0) = (rc1, evs1)"
    by (cases "key_punch_akeys (pe_punch_akey pe) 0 n (Inr 0)")
  with key_punch_akeys_events [of "pe_punch_akey pe" 0 n "Inr 0"]
  have e1: "OI_PUNCH \<notin> set evs1" by simp
  obtain rc2 t2 fl2 where v: "vos_propagate_check propagate (pe_conflict_akey pe) (pe_akey_tree pe) VOS_ITER_AKEY = (rc2, t2, fl2)"
    by (cases "vos_propagate_check propagate (pe_conflict_akey pe) (pe_akey_tree pe) VOS_ITER_AKEY") auto
  with vos_propagate_check_events [of propagate "pe_conflict_akey pe" "pe_akey_tree pe" VOS_ITER_AKEY]
  have e2: "OI_PUNCH \<notin> set fl2" by simp
  from e1 e2 have e3: "OI_PUNCH \<notin> set (evs1 @ fl2)" by simp
  from e1 have e4: "OI_PUNCH \<notin> set (evs1 @ [])" by simp
  show ?thesis
    using e1 e2 key_punch_dkey_no_oi [OF e3] key_punch_dkey_no_oi [OF e4]
    by (simp add: key_punch_def Let_def Some a v)
qed

lemma obj_punch_held_iff:
  "OI_PUNCH \<in> set (snd (vos_obj_punch_held propagate pe info_ok oi True akeys flags)) \<longleftrightarrow>
     info_ok \<and> (\<exists>n>0. pr_rc (key_punch propagate pe akeys flags) = Inr n)"
  using key_punch_no_oi [of propagate pe akeys flags]
  by (auto simp: vos_obj_punch_held_def obj_punch_def Let_def split: sum.splits)

lemma key_punch_result:
  assumes ok: "punch_callees_ok pe akeys"
    and ka: "akeys \<noteq> None \<longrightarrow> key_tree_ok (pe_akey_tree pe)"
    and kd: "propagate \<longrightarrow> key_tree_ok (pe_dkey_tree pe)"
    and nr: "VOS_OF_REPLAY_PC \<notin> flags"
  shows "pr_rc (key_punch propagate pe akeys flags) =
           (if akeys \<noteq> None \<and> key_tree_left (pe_akey_tree pe) \<noteq> Inr 1
            then key_tree_left (pe_akey_tree pe)
            else if propagate then key_tree_left (pe_dkey_tree pe) else Inr 0) \<and>
         (KEY_TREE_PUNCH_DKEY \<in> set (pr_events (key_punch propagate pe akeys flags)) \<longleftrightarrow>
            akeys = None \<or> key_tree_now_empty (pe_akey_tree pe))"
proof -
  from ok have pd: "pe_punch_dkey pe = Inr 0" and cd: "\<not> pe_conflict_dkey pe"
    by (simp_all add: punch_callees_ok_def)
  note dk = key_punch_dkey_result [OF pd cd nr kd]
  show ?thesis
  proof (cases akeys)
    case None
    with ok have "key_punch propagate pe akeys flags =
        key_punch_dkey propagate pe flags [] (pe_akey_tree pe)"
      by (simp add: key_punch_def punch_callees_ok_def)
    with None dk [of "[]" "pe_akey_tree pe"] show ?thesis by simp
  next
    case (Some n)
    with ok ka have okn: "punch_callees_ok pe (Some n)" and k: "key_tree_ok (pe_akey_tree pe)"
      by simp_all
    from key_punch_akeys_part [OF okn nr k, of propagate] obtain t2 fl2 where
      f: "KEY_TREE_PUNCH_DKEY \<notin> set fl2" and
      e: "key_punch propagate pe (Some n) flags =
       (if key_tree_left (pe_akey_tree pe) = Inr 1
        then key_punch_dkey propagate pe flags (map KEY_TREE_PUNCH_AKEY [0..<n] @ fl2) t2
        else if key_tree_left (pe_akey_tree pe) = Inr 0
        then \<lparr>pr_rc = Inr 0, pr_events = map KEY_TREE_PUNCH_AKEY [0..<n] @ fl2 @ [KEY_MARK_AGG],
              pr_akey_tree = t2, pr_dkey_tree = pe_dkey_tree pe\<rparr>
        else \<lparr>pr_rc = key_tree_left (pe_akey_tree pe),
              pr_events = map KEY_TREE_PUNCH_AKEY [0..<n] @ fl2,
              pr_akey_tree = t2, pr_dkey_tree = pe_dkey_tree pe\<rparr>)"
      by blast
    show ?thesis
    proof (cases "key_tree_left (pe_akey_tree pe) = Inr 1")
      case True
      then have ne: "key_tree_now_empty (pe_akey_tree pe)"
        using key_tree_left_empty_iff [of "pe_akey_tree pe"] by blast
      from True e have "key_punch propagate pe (Some n) flags =
          key_punch_dkey propagate pe flags (map KEY_TREE_PUNCH_AKEY [0..<n] @ fl2) t2"
        by simp
      with True ne Some dk [of "map KEY_TREE_PUNCH_AKEY [0..<n] @ fl2" t2] show ?thesis
        by simp
    next
      case False
      then have ne: "\<not> key_tree_now_empty (pe_akey_tree pe)"
        using key_tree_left_empty_iff [of "pe_akey_tree pe"] by blast
      from False e have "key_punch propagate pe (Some n) flags =
         (if key_tree_left (pe_akey_tree pe) = Inr 0
          then \<lparr>pr_rc = Inr 0, pr_events = map KEY_TREE_PUNCH_AKEY [0..<n] @ fl2 @ [KEY_MARK_AGG],
                pr_akey_tree = t2, pr_dkey_tree = pe_dkey_tree pe\<rparr>
          else \<lparr>pr_rc = key_tree_left (pe_akey_tree pe),
                pr_events = map KEY_TREE_PUNCH_AKEY [0..<n] @ fl2,
                pr_akey_tree = t2, pr_dkey_tree = pe_dkey_tree pe\<rparr>)"
        by simp
      with False ne Some f show ?thesis
        by auto
    qed
  qed
qed

lemma key_punch_replay:
  assumes ok: "punch_callees_ok pe akeys" and rp: "VOS_OF_REPLAY_PC \<in> flags"
  shows "pr_rc (key_punch propagate pe akeys flags) = Inr 0 \<and>
         (KEY_TREE_PUNCH_DKEY \<in> set (pr_events (key_punch propagate pe akeys flags)) \<longleftrightarrow>
            akeys = None)"
proof (cases akeys)
  case None
  with ok have "key_punch propagate pe akeys flags =
      key_punch_dkey propagate pe flags [] (pe_akey_tree pe)"
    by (simp add: key_punch_def punch_callees_ok_def)
  moreover from ok have "pe_punch_dkey pe = Inr 0" by (simp add: punch_callees_ok_def)
  ultimately show ?thesis
    using None key_punch_dkey_replay [OF _ rp, of pe propagate "[]" "pe_akey_tree pe"] by simp
next
  case (Some n)
  with ok key_punch_akeys_replay [OF _ rp, of pe n propagate] show ?thesis by simp
qed

lemma key_tree_left_positive:
  "(\<exists>n>0. key_tree_left t = Inr n) \<longleftrightarrow> key_tree_now_empty t"
  by (auto simp: key_tree_left_def key_tree_now_empty_def key_tree_has_sibling_def)

text \<open>
  Claim C1, as amended. In a key punch whose callees all succeed, with no conflict and
  with key trees whose iteration can be followed, and with \<open>VOS_OF_REPLAY_PC\<close> not set:
  the dkey is punched exactly when the punch is a dkey punch or the akey tree of the
  dkey has become empty after the akeys were punched; an akey tree that still holds a
  sibling (a committed visible akey, or a cached known key that is not punched) ends
  the punch with 0 and one that holds only uncommitted entries with \<open>-DER_INPROGRESS\<close>.
  The punch goes on from the dkey to the object exactly when the global
  \<open>vos_dkey_punch_propagate\<close> is enabled and the dkey tree of the object has become
  empty as well: then \<open>key_punch\<close> returns 1 and \<open>obj_punch\<close> punches the object (unless
  its allocation fails). With the global disabled \<open>key_punch\<close> returns 0 after the dkey
  and the object is not punched. With \<open>VOS_OF_REPLAY_PC\<close> set nothing propagates: only
  the keys named in the call are punched.
\<close>

theorem key_punch_propagation:
  "punch_callees_ok pe akeys \<and> (akeys \<noteq> None \<longrightarrow> key_tree_ok (pe_akey_tree pe)) \<and>
   (propagate \<longrightarrow> key_tree_ok (pe_dkey_tree pe)) \<longrightarrow>
     (VOS_OF_REPLAY_PC \<notin> flags \<longrightarrow>
        (KEY_TREE_PUNCH_DKEY \<in> set (pr_events (key_punch propagate pe akeys flags)) \<longleftrightarrow>
           akeys = None \<or> key_tree_now_empty (pe_akey_tree pe)) \<and>
        (OI_PUNCH \<in> set (snd (vos_obj_punch_held propagate pe info_ok oi True akeys flags)) \<longleftrightarrow>
           info_ok \<and> propagate \<and> (akeys = None \<or> key_tree_now_empty (pe_akey_tree pe)) \<and>
           key_tree_now_empty (pe_dkey_tree pe)) \<and>
        pr_rc (key_punch propagate pe akeys flags) =
          (if akeys \<noteq> None \<and> \<not> key_tree_now_empty (pe_akey_tree pe)
           then key_tree_left (pe_akey_tree pe)
           else if propagate then key_tree_left (pe_dkey_tree pe) else Inr 0)) \<and>
     (VOS_OF_REPLAY_PC \<in> flags \<longrightarrow>
        (KEY_TREE_PUNCH_DKEY \<in> set (pr_events (key_punch propagate pe akeys flags)) \<longleftrightarrow>
           akeys = None) \<and>
        OI_PUNCH \<notin> set (snd (vos_obj_punch_held propagate pe info_ok oi True akeys flags)) \<and>
        pr_rc (key_punch propagate pe akeys flags) = Inr 0)"
proof (intro impI conjI)
  assume h: "punch_callees_ok pe akeys \<and> (akeys \<noteq> None \<longrightarrow> key_tree_ok (pe_akey_tree pe)) \<and>
   (propagate \<longrightarrow> key_tree_ok (pe_dkey_tree pe))"
  then have ok: "punch_callees_ok pe akeys"
    and ka: "akeys \<noteq> None \<longrightarrow> key_tree_ok (pe_akey_tree pe)"
    and kd: "propagate \<longrightarrow> key_tree_ok (pe_dkey_tree pe)"
    by simp_all
  {
    assume nr: "VOS_OF_REPLAY_PC \<notin> flags"
    note r = key_punch_result [OF ok ka kd nr]
    from r show "KEY_TREE_PUNCH_DKEY \<in> set (pr_events (key_punch propagate pe akeys flags)) \<longleftrightarrow>
           akeys = None \<or> key_tree_now_empty (pe_akey_tree pe)" by simp
    have rc: "pr_rc (key_punch propagate pe akeys flags) =
          (if akeys \<noteq> None \<and> \<not> key_tree_now_empty (pe_akey_tree pe)
           then key_tree_left (pe_akey_tree pe)
           else if propagate then key_tree_left (pe_dkey_tree pe) else Inr 0)"
      using r key_tree_left_empty_iff [of "pe_akey_tree pe"] by auto
    then show "pr_rc (key_punch propagate pe akeys flags) =
          (if akeys \<noteq> None \<and> \<not> key_tree_now_empty (pe_akey_tree pe)
           then key_tree_left (pe_akey_tree pe)
           else if propagate then key_tree_left (pe_dkey_tree pe) else Inr 0)" .
    have "(\<exists>n>0. pr_rc (key_punch propagate pe akeys flags) = Inr n) \<longleftrightarrow>
            propagate \<and> (akeys = None \<or> key_tree_now_empty (pe_akey_tree pe)) \<and>
            key_tree_now_empty (pe_dkey_tree pe)"
      unfolding rc
      using key_tree_left_positive [of "pe_akey_tree pe"]
        key_tree_left_positive [of "pe_dkey_tree pe"]
      by auto
    then show "OI_PUNCH \<in> set (snd (vos_obj_punch_held propagate pe info_ok oi True akeys flags)) \<longleftrightarrow>
           info_ok \<and> propagate \<and> (akeys = None \<or> key_tree_now_empty (pe_akey_tree pe)) \<and>
           key_tree_now_empty (pe_dkey_tree pe)"
      unfolding obj_punch_held_iff by blast
  }
  {
    assume rp: "VOS_OF_REPLAY_PC \<in> flags"
    note r = key_punch_replay [OF ok rp, of propagate]
    from r show "KEY_TREE_PUNCH_DKEY \<in> set (pr_events (key_punch propagate pe akeys flags)) \<longleftrightarrow>
           akeys = None" by simp
    from r show "pr_rc (key_punch propagate pe akeys flags) = Inr 0" by simp
    from r show "OI_PUNCH \<notin> set (snd (vos_obj_punch_held propagate pe info_ok oi True akeys flags))"
      by (simp add: obj_punch_held_iff)
  }
qed

lemma punch_env_example_ok: "punch_callees_ok (punch_env_example ta td) akeys"
  by (simp add: punch_callees_ok_def punch_env_example_def list_all_iff split: option.splits)

lemma key_tree_examples:
  "key_tree_ok key_tree_emptied" "key_tree_now_empty key_tree_emptied"
  "key_tree_ok key_tree_sibling" "\<not> key_tree_now_empty key_tree_sibling"
  "key_tree_has_sibling key_tree_sibling" "key_tree_left key_tree_sibling = Inr 0"
  "key_tree_left key_tree_emptied = Inr 1"
  by (simp_all add: key_tree_ok_def key_tree_now_empty_def key_tree_has_sibling_def
      key_tree_left_def key_tree_known_live_def key_tree_emptied_def key_tree_sibling_def)

text \<open>
  On the second example tree the two passes of \<open>tree_is_empty\<close> run as in the code: the
  pass from the anchor meets the committed entry and records it as the known key.
\<close>

lemma tree_is_empty_sibling_example:
  "tree_is_empty key_tree_sibling = (Inr 0, key_tree_sibling\<lparr>kt_known_key := 0x3000\<rparr>)"
  by (simp add: tree_is_empty_def key_tree_sibling_def empty_tree_check_def Let_def)

theorem key_punch_propagation_witness:
  "punch_callees_ok punch_env_emptied (Some 2) \<and> VOS_OF_REPLAY_PC \<notin> {} \<and>
   key_tree_ok (pe_akey_tree punch_env_emptied) \<and> key_tree_ok (pe_dkey_tree punch_env_emptied) \<and>
   key_tree_now_empty (pe_akey_tree punch_env_emptied) \<and>
   key_tree_now_empty (pe_dkey_tree punch_env_emptied) \<and>
   KEY_TREE_PUNCH_DKEY \<in> set (pr_events (key_punch True punch_env_emptied (Some 2) {})) \<and>
   pr_rc (key_punch True punch_env_emptied (Some 2) {}) = Inr 1 \<and>
   OI_PUNCH \<in> set (snd (vos_obj_punch_held True punch_env_emptied True (Inr 0) True (Some 2) {})) \<and>
   punch_callees_ok (punch_env_example key_tree_sibling key_tree_emptied) (Some 2) \<and>
   key_tree_ok key_tree_sibling \<and> key_tree_has_sibling key_tree_sibling \<and>
   KEY_TREE_PUNCH_DKEY \<notin> set (pr_events
     (key_punch True (punch_env_example key_tree_sibling key_tree_emptied) (Some 2) {})) \<and>
   pr_rc (key_punch True (punch_env_example key_tree_sibling key_tree_emptied) (Some 2) {}) = Inr 0 \<and>
   punch_callees_ok (punch_env_example key_tree_emptied key_tree_sibling) None \<and>
   KEY_TREE_PUNCH_DKEY \<in> set (pr_events
     (key_punch True (punch_env_example key_tree_emptied key_tree_sibling) None {})) \<and>
   pr_rc (key_punch True (punch_env_example key_tree_emptied key_tree_sibling) None {}) = Inr 0 \<and>
   OI_PUNCH \<notin> set (snd (vos_obj_punch_held True
     (punch_env_example key_tree_emptied key_tree_sibling) True (Inr 0) True None {}))"
proof -
  have t: "pe_akey_tree (punch_env_example ta td) = ta" "pe_dkey_tree (punch_env_example ta td) = td"
    for ta td
    by (simp_all add: punch_env_example_def)
  from key_punch_propagation
      [where pe = punch_env_emptied and akeys = "Some 2" and propagate = True and flags = "{}"
         and info_ok = True and oi = "Inr 0"]
    key_punch_propagation
      [where pe = "punch_env_example key_tree_sibling key_tree_emptied" and akeys = "Some 2"
         and propagate = True and flags = "{}" and info_ok = True and oi = "Inr 0"]
    key_punch_propagation
      [where pe = "punch_env_example key_tree_emptied key_tree_sibling" and akeys = None
         and propagate = True and flags = "{}" and info_ok = True and oi = "Inr 0"]
    punch_env_example_ok key_tree_examples
  show ?thesis
    by (simp add: t punch_env_emptied_def)
qed

text \<open>
  The claim as stated fails in the default configuration, where
  \<open>vos_dkey_punch_propagate\<close> is false: both trees have become empty and
  \<open>VOS_OF_REPLAY_PC\<close> is not set, the dkey is punched, and the object is not.
\<close>

theorem key_punch_propagation_counterexample:
  "punch_callees_ok punch_env_emptied (Some 2) \<and> VOS_OF_REPLAY_PC \<notin> {} \<and>
   key_tree_now_empty (pe_akey_tree punch_env_emptied) \<and>
   key_tree_now_empty (pe_dkey_tree punch_env_emptied) \<and>
   vos_obj_punch_held False punch_env_emptied True (Inr 0) True (Some 2) {} =
     (Inr 0,
      [KEY_TREE_PUNCH_AKEY 0, KEY_TREE_PUNCH_AKEY 1, TS_APPEND_CFLAGS VOS_TS_READ_DKEY,
       TS_APPEND_VFLAGS VOS_OF_PUNCH_PROPAGATE, TS_APPEND_CFLAGS VOS_TS_WRITE_DKEY,
       KEY_TREE_PUNCH_DKEY]) \<and>
   OI_PUNCH \<notin> set (snd (vos_obj_punch_held False punch_env_emptied True (Inr 0) True (Some 2) {}))"
proof -
  have e: "key_tree_now_empty (pe_akey_tree punch_env_emptied)"
    "key_tree_now_empty (pe_dkey_tree punch_env_emptied)"
    by (simp_all add: punch_env_emptied_def punch_env_example_def key_tree_examples)
  have k: "key_punch False punch_env_emptied (Some 2) {} =
     \<lparr>pr_rc = Inr 0,
      pr_events = [KEY_TREE_PUNCH_AKEY 0, KEY_TREE_PUNCH_AKEY 1, TS_APPEND_CFLAGS VOS_TS_READ_DKEY,
       TS_APPEND_VFLAGS VOS_OF_PUNCH_PROPAGATE, TS_APPEND_CFLAGS VOS_TS_WRITE_DKEY,
       KEY_TREE_PUNCH_DKEY],
      pr_akey_tree = key_tree_emptied\<lparr>kt_known_key := 0\<rparr>,
      pr_dkey_tree = key_tree_emptied\<rparr>"
    by (simp add: key_punch_def key_punch_dkey_def vos_propagate_check_def tree_is_empty_def
        tree_is_empty_tail_def punch_env_emptied_def punch_env_example_def key_tree_emptied_def
        Let_def numeral_2_eq_2)
  have ok: "punch_callees_ok punch_env_emptied (Some 2)"
    unfolding punch_env_emptied_def by (rule punch_env_example_ok)
  from e ok show ?thesis
    by (simp add: vos_obj_punch_held_def k)
qed

section \<open>Memory blocks of the persistent heap\<close>

lemma zone_store_simps:
  "chunk_headers (zone_store z s v) = (chunk_headers z)(s := v)"
  "zone_trace (zone_store z s v) = zone_trace z @ [EV_STORE s v]"
  by (simp_all add: zone_store_def)

lemma mo_wal_persist_simps:
  "chunk_headers (mo_wal_persist z s) = chunk_headers z"
  "zone_trace (mo_wal_persist z s) = zone_trace z @ [EV_WAL_PERSIST s]"
  by (simp_all add: mo_wal_persist_def)

lemma fold_transient_headers_other:
  "\<forall>e \<in> set es. ue_slot e \<noteq> k \<Longrightarrow>
   chunk_headers (fold (\<lambda>e z. zone_store z (ue_slot e) (ue_value e)) es z) k = chunk_headers z k"
  by (induction es arbitrary: z) (simp_all add: zone_store_simps)

lemma fold_transient_trace:
  "zone_trace (fold (\<lambda>e z. zone_store z (ue_slot e) (ue_value e)) es z) =
   zone_trace z @ map (\<lambda>e. EV_STORE (ue_slot e) (ue_value e)) es"
  by (induction es arbitrary: z) (simp_all add: zone_store_simps)

lemma fold_persistent_trace:
  "zone_trace (fold (\<lambda>e z. mo_wal_persist (zone_store z (ue_slot e) (ue_value e)) (ue_slot e)) es z) =
   zone_trace z @ concat (map (\<lambda>e. [EV_STORE (ue_slot e) (ue_value e), EV_WAL_PERSIST (ue_slot e)]) es)"
  by (induction es arbitrary: z) (simp_all add: zone_store_simps mo_wal_persist_simps)

lemma operation_process_append:
  "operation_process z (ctx @ [\<lparr>ue_slot = k, ue_value = hv, ue_type = LOG_PERSISTENT\<rparr>,
                               \<lparr>ue_slot = f, ue_value = fv, ue_type = LOG_TRANSIENT\<rparr>]) =
   zone_store
     (fold (\<lambda>e z. zone_store z (ue_slot e) (ue_value e)) (filter (\<lambda>e. ue_type e = LOG_TRANSIENT) ctx)
        (mo_wal_persist
           (zone_store
              (fold (\<lambda>e z. mo_wal_persist (zone_store z (ue_slot e) (ue_value e)) (ue_slot e))
                 (filter (\<lambda>e. ue_type e = LOG_PERSISTENT) ctx) z)
              k hv) k))
     f fv"
  by (simp add: operation_process_def Let_def)

lemma huge_prep_operation_hdr_direct:
  assumes "n \<noteq> 1"
  shows "huge_prep_operation_hdr z \<lparr>chunk_id = k, mb_size_idx = n\<rparr> op None =
     (zone_store
        (mo_wal_persist
           (zone_store z k
              \<lparr>hdr_type = (if op = MEMBLOCK_ALLOCATED then CHUNK_TYPE_USED else CHUNK_TYPE_FREE),
               hdr_flags = hdr_flags (chunk_headers z k), hdr_size_idx = n\<rparr>) k)
        (k + n - 1) \<lparr>hdr_type = CHUNK_TYPE_FOOTER, hdr_flags = 0, hdr_size_idx = n\<rparr>, None)"
  using assms
  by (simp add: huge_prep_operation_hdr_def chunk_get_chunk_hdr_value_def Let_def)

lemma huge_prep_operation_hdr_ctx:
  assumes "n \<noteq> 1"
  shows "huge_prep_operation_hdr z \<lparr>chunk_id = k, mb_size_idx = n\<rparr> op (Some ctx) =
     (z, Some (ctx @
        [\<lparr>ue_slot = k,
          ue_value = \<lparr>hdr_type = (if op = MEMBLOCK_ALLOCATED then CHUNK_TYPE_USED else CHUNK_TYPE_FREE),
                      hdr_flags = hdr_flags (chunk_headers z k), hdr_size_idx = n\<rparr>,
          ue_type = LOG_PERSISTENT\<rparr>,
         \<lparr>ue_slot = k + n - 1,
          ue_value = \<lparr>hdr_type = CHUNK_TYPE_FOOTER, hdr_flags = 0, hdr_size_idx = n\<rparr>,
          ue_type = LOG_TRANSIENT\<rparr>]))"
  using assms
  by (simp add: huge_prep_operation_hdr_def chunk_get_chunk_hdr_value_def Let_def
      operation_add_entry_def operation_add_typed_entry_def)

text \<open>
  Claim C2. For a huge block of \<open>n \<ge> 2\<close> chunks with its header in slot \<open>k\<close>:
  outside a transaction, \<open>huge_prep_operation_hdr\<close> stores and persists the header
  (type used, \<open>size_idx = n\<close>) and only then stores the footer (type footer,
  \<open>size_idx = n\<close>) in slot \<open>k + n - 1\<close>, which is not persisted; inside a transaction
  it appends the header as a persistent entry and the footer as a transient entry, and
  processing the context applies the persistent entries first and the footer last,
  leaving the footer in slot \<open>k + n - 1\<close>; at heap boot \<open>huge_reinit_chunk\<close> rewrites
  the footer of a used block from its header, again without persisting it.
\<close>

theorem huge_block_footer:
  "2 \<le> n \<longrightarrow>
     (case huge_prep_operation_hdr z \<lparr>chunk_id = k, mb_size_idx = n\<rparr> MEMBLOCK_ALLOCATED None of
        (z', ctx') \<Rightarrow>
          ctx' = None \<and>
          chunk_headers z' k =
            \<lparr>hdr_type = CHUNK_TYPE_USED, hdr_flags = hdr_flags (chunk_headers z k), hdr_size_idx = n\<rparr> \<and>
          chunk_headers z' (k + n - 1) =
            \<lparr>hdr_type = CHUNK_TYPE_FOOTER, hdr_flags = 0, hdr_size_idx = n\<rparr> \<and>
          zone_trace z' = zone_trace z @
            [EV_STORE k \<lparr>hdr_type = CHUNK_TYPE_USED, hdr_flags = hdr_flags (chunk_headers z k),
                         hdr_size_idx = n\<rparr>,
             EV_WAL_PERSIST k,
             EV_STORE (k + n - 1) \<lparr>hdr_type = CHUNK_TYPE_FOOTER, hdr_flags = 0, hdr_size_idx = n\<rparr>]) \<and>
     (case huge_prep_operation_hdr z \<lparr>chunk_id = k, mb_size_idx = n\<rparr> MEMBLOCK_ALLOCATED (Some ctx) of
        (z', ctx') \<Rightarrow>
          z' = z \<and>
          ctx' = Some (ctx @
            [\<lparr>ue_slot = k,
              ue_value = \<lparr>hdr_type = CHUNK_TYPE_USED, hdr_flags = hdr_flags (chunk_headers z k),
                          hdr_size_idx = n\<rparr>,
              ue_type = LOG_PERSISTENT\<rparr>,
             \<lparr>ue_slot = k + n - 1,
              ue_value = \<lparr>hdr_type = CHUNK_TYPE_FOOTER, hdr_flags = 0, hdr_size_idx = n\<rparr>,
              ue_type = LOG_TRANSIENT\<rparr>]) \<and>
          chunk_headers (operation_process z' (the ctx')) (k + n - 1) =
            \<lparr>hdr_type = CHUNK_TYPE_FOOTER, hdr_flags = 0, hdr_size_idx = n\<rparr> \<and>
          ((\<forall>e \<in> set ctx. ue_type e = LOG_TRANSIENT \<longrightarrow> ue_slot e \<noteq> k) \<longrightarrow>
             chunk_headers (operation_process z' (the ctx')) k =
               \<lparr>hdr_type = CHUNK_TYPE_USED, hdr_flags = hdr_flags (chunk_headers z k),
                hdr_size_idx = n\<rparr>) \<and>
          zone_trace (operation_process z' (the ctx')) = zone_trace z @
            concat (map (\<lambda>e. [EV_STORE (ue_slot e) (ue_value e), EV_WAL_PERSIST (ue_slot e)])
                      (filter (\<lambda>e. ue_type e = LOG_PERSISTENT) ctx)) @
            [EV_STORE k \<lparr>hdr_type = CHUNK_TYPE_USED, hdr_flags = hdr_flags (chunk_headers z k),
                         hdr_size_idx = n\<rparr>,
             EV_WAL_PERSIST k] @
            map (\<lambda>e. EV_STORE (ue_slot e) (ue_value e)) (filter (\<lambda>e. ue_type e = LOG_TRANSIENT) ctx) @
            [EV_STORE (k + n - 1) \<lparr>hdr_type = CHUNK_TYPE_FOOTER, hdr_flags = 0, hdr_size_idx = n\<rparr>]) \<and>
     (hdr_type (chunk_headers z k) = CHUNK_TYPE_USED \<and> hdr_size_idx (chunk_headers z k) = n \<longrightarrow>
        chunk_headers (huge_reinit_chunk z \<lparr>chunk_id = k, mb_size_idx = n\<rparr>) k = chunk_headers z k \<and>
        chunk_headers (huge_reinit_chunk z \<lparr>chunk_id = k, mb_size_idx = n\<rparr>) (k + n - 1) =
          \<lparr>hdr_type = CHUNK_TYPE_FOOTER, hdr_flags = hdr_flags (chunk_headers z k), hdr_size_idx = n\<rparr> \<and>
        zone_trace (huge_reinit_chunk z \<lparr>chunk_id = k, mb_size_idx = n\<rparr>) = zone_trace z @
          [EV_STORE (k + n - 1)
             \<lparr>hdr_type = CHUNK_TYPE_FOOTER, hdr_flags = hdr_flags (chunk_headers z k),
              hdr_size_idx = n\<rparr>])"
proof (intro impI conjI)
  assume n: "2 \<le> n"
  then have n1: "n \<noteq> 1" and kf: "k + n - 1 \<noteq> k" by simp_all
  show "case huge_prep_operation_hdr z \<lparr>chunk_id = k, mb_size_idx = n\<rparr> MEMBLOCK_ALLOCATED None of
        (z', ctx') \<Rightarrow>
          ctx' = None \<and>
          chunk_headers z' k =
            \<lparr>hdr_type = CHUNK_TYPE_USED, hdr_flags = hdr_flags (chunk_headers z k), hdr_size_idx = n\<rparr> \<and>
          chunk_headers z' (k + n - 1) =
            \<lparr>hdr_type = CHUNK_TYPE_FOOTER, hdr_flags = 0, hdr_size_idx = n\<rparr> \<and>
          zone_trace z' = zone_trace z @
            [EV_STORE k \<lparr>hdr_type = CHUNK_TYPE_USED, hdr_flags = hdr_flags (chunk_headers z k),
                         hdr_size_idx = n\<rparr>,
             EV_WAL_PERSIST k,
             EV_STORE (k + n - 1) \<lparr>hdr_type = CHUNK_TYPE_FOOTER, hdr_flags = 0, hdr_size_idx = n\<rparr>]"
    using kf by (simp add: huge_prep_operation_hdr_direct [OF n1] zone_store_simps mo_wal_persist_simps)
  show "case huge_prep_operation_hdr z \<lparr>chunk_id = k, mb_size_idx = n\<rparr> MEMBLOCK_ALLOCATED (Some ctx) of
        (z', ctx') \<Rightarrow>
          z' = z \<and>
          ctx' = Some (ctx @
            [\<lparr>ue_slot = k,
              ue_value = \<lparr>hdr_type = CHUNK_TYPE_USED, hdr_flags = hdr_flags (chunk_headers z k),
                          hdr_size_idx = n\<rparr>,
              ue_type = LOG_PERSISTENT\<rparr>,
             \<lparr>ue_slot = k + n - 1,
              ue_value = \<lparr>hdr_type = CHUNK_TYPE_FOOTER, hdr_flags = 0, hdr_size_idx = n\<rparr>,
              ue_type = LOG_TRANSIENT\<rparr>]) \<and>
          chunk_headers (operation_process z' (the ctx')) (k + n - 1) =
            \<lparr>hdr_type = CHUNK_TYPE_FOOTER, hdr_flags = 0, hdr_size_idx = n\<rparr> \<and>
          ((\<forall>e \<in> set ctx. ue_type e = LOG_TRANSIENT \<longrightarrow> ue_slot e \<noteq> k) \<longrightarrow>
             chunk_headers (operation_process z' (the ctx')) k =
               \<lparr>hdr_type = CHUNK_TYPE_USED, hdr_flags = hdr_flags (chunk_headers z k),
                hdr_size_idx = n\<rparr>) \<and>
          zone_trace (operation_process z' (the ctx')) = zone_trace z @
            concat (map (\<lambda>e. [EV_STORE (ue_slot e) (ue_value e), EV_WAL_PERSIST (ue_slot e)])
                      (filter (\<lambda>e. ue_type e = LOG_PERSISTENT) ctx)) @
            [EV_STORE k \<lparr>hdr_type = CHUNK_TYPE_USED, hdr_flags = hdr_flags (chunk_headers z k),
                         hdr_size_idx = n\<rparr>,
             EV_WAL_PERSIST k] @
            map (\<lambda>e. EV_STORE (ue_slot e) (ue_value e)) (filter (\<lambda>e. ue_type e = LOG_TRANSIENT) ctx) @
            [EV_STORE (k + n - 1) \<lparr>hdr_type = CHUNK_TYPE_FOOTER, hdr_flags = 0, hdr_size_idx = n\<rparr>]"
    using kf
    by (simp add: huge_prep_operation_hdr_ctx [OF n1] operation_process_append zone_store_simps
        mo_wal_persist_simps fold_transient_trace fold_persistent_trace
        fold_transient_headers_other)
  {
    assume u: "hdr_type (chunk_headers z k) = CHUNK_TYPE_USED \<and> hdr_size_idx (chunk_headers z k) = n"
    then have r: "huge_reinit_chunk z \<lparr>chunk_id = k, mb_size_idx = n\<rparr> =
      zone_store z (k + n - 1)
        \<lparr>hdr_type = CHUNK_TYPE_FOOTER, hdr_flags = hdr_flags (chunk_headers z k), hdr_size_idx = n\<rparr>"
      using n1 by (cases "chunk_headers z k") (simp add: huge_reinit_chunk_def huge_write_footer_def Let_def)
    show "chunk_headers (huge_reinit_chunk z \<lparr>chunk_id = k, mb_size_idx = n\<rparr>) k = chunk_headers z k"
      using kf by (simp add: r zone_store_simps)
    show "chunk_headers (huge_reinit_chunk z \<lparr>chunk_id = k, mb_size_idx = n\<rparr>) (k + n - 1) =
          \<lparr>hdr_type = CHUNK_TYPE_FOOTER, hdr_flags = hdr_flags (chunk_headers z k), hdr_size_idx = n\<rparr>"
      by (simp add: r zone_store_simps)
    show "zone_trace (huge_reinit_chunk z \<lparr>chunk_id = k, mb_size_idx = n\<rparr>) = zone_trace z @
          [EV_STORE (k + n - 1)
             \<lparr>hdr_type = CHUNK_TYPE_FOOTER, hdr_flags = hdr_flags (chunk_headers z k),
              hdr_size_idx = n\<rparr>]"
      by (simp add: r zone_store_simps)
  }
qed

theorem huge_block_footer_witness:
  "(2::nat) \<le> 3 \<and>
   chunk_headers (fst (huge_prep_operation_hdr zone_example \<lparr>chunk_id = 5, mb_size_idx = 3\<rparr>
        MEMBLOCK_ALLOCATED None)) 5 =
     \<lparr>hdr_type = CHUNK_TYPE_USED, hdr_flags = 0, hdr_size_idx = 3\<rparr> \<and>
   chunk_headers (fst (huge_prep_operation_hdr zone_example \<lparr>chunk_id = 5, mb_size_idx = 3\<rparr>
        MEMBLOCK_ALLOCATED None)) 7 =
     \<lparr>hdr_type = CHUNK_TYPE_FOOTER, hdr_flags = 0, hdr_size_idx = 3\<rparr> \<and>
   zone_trace (fst (huge_prep_operation_hdr zone_example \<lparr>chunk_id = 5, mb_size_idx = 3\<rparr>
        MEMBLOCK_ALLOCATED None)) =
     [EV_STORE 5 \<lparr>hdr_type = CHUNK_TYPE_USED, hdr_flags = 0, hdr_size_idx = 3\<rparr>,
      EV_WAL_PERSIST 5,
      EV_STORE 7 \<lparr>hdr_type = CHUNK_TYPE_FOOTER, hdr_flags = 0, hdr_size_idx = 3\<rparr>] \<and>
   snd (huge_prep_operation_hdr zone_example \<lparr>chunk_id = 5, mb_size_idx = 3\<rparr>
        MEMBLOCK_ALLOCATED (Some [])) =
     Some [\<lparr>ue_slot = 5, ue_value = \<lparr>hdr_type = CHUNK_TYPE_USED, hdr_flags = 0, hdr_size_idx = 3\<rparr>,
            ue_type = LOG_PERSISTENT\<rparr>,
           \<lparr>ue_slot = 7, ue_value = \<lparr>hdr_type = CHUNK_TYPE_FOOTER, hdr_flags = 0, hdr_size_idx = 3\<rparr>,
            ue_type = LOG_TRANSIENT\<rparr>]"
  using huge_block_footer [where n = 3 and z = zone_example and k = 5 and ctx = "[]"]
  by (simp add: zone_example_def case_prod_beta)

subsection \<open>Run bitmaps\<close>

lemma memblock_run_init_bitmap_eq:
  assumes "memblock_run_init_bitmap b = Inr vals"
  shows "nvalues b \<noteq> 0 \<and> nvalues b \<le> bitmap_size b div 8 \<and>
         vals = replicate (nvalues b - 1) 0 @ [push_bit (nbits b mod 64) (- 1)] @
                replicate (bitmap_size b div 8 - nvalues b) (- 1)"
proof -
  from assms have nz: "nvalues b \<noteq> 0" and le: "nvalues b \<le> bitmap_size b div 8"
    by (auto simp: memblock_run_init_bitmap_def split: if_splits)
  then obtain j where j: "nvalues b = Suc j" by (cases "nvalues b") auto
  from le j have d: "bitmap_size b div 8 - j = Suc (bitmap_size b div 8 - Suc j)" by simp
  have "drop j (replicate (bitmap_size b div 8) (- 1 :: u64)) =
        (- 1) # replicate (bitmap_size b div 8 - Suc j) (- 1)"
    by (simp add: d)
  with assms nz le j show ?thesis
    by (auto simp: memblock_run_init_bitmap_def Let_def RUN_BITS_PER_VALUE_def list_update_append)
qed

lemma memblock_run_init_bitmap_nth:
  assumes "memblock_run_init_bitmap b = Inr vals" and "i < bitmap_size b div 8"
  shows "vals ! i = (if i < nvalues b - 1 then 0
                     else if i = nvalues b - 1 then push_bit (nbits b mod 64) (- 1) else - 1)"
proof -
  from memblock_run_init_bitmap_eq [OF assms(1)]
  have nz: "nvalues b \<noteq> 0" and le: "nvalues b \<le> bitmap_size b div 8"
    and v: "vals = replicate (nvalues b - 1) 0 @ [push_bit (nbits b mod 64) (- 1)] @
                replicate (bitmap_size b div 8 - nvalues b) (- 1)"
    by simp_all
  show ?thesis
  proof (cases "i < nvalues b - 1")
    case True
    then show ?thesis by (simp add: v nth_append)
  next
    case False
    show ?thesis
    proof (cases "i = nvalues b - 1")
      case True
      then show ?thesis by (simp add: v nth_append)
    next
      case f2: False
      from nz False f2 have g: "i - (nvalues b - 1) = Suc (i - nvalues b)" by linarith
      from nz f2 False assms(2) have "i - nvalues b < bitmap_size b div 8 - nvalues b" by linarith
      with False f2 g show ?thesis by (simp add: v nth_append)
    qed
  qed
qed

lemma bit_push_bit_ones: "bit (push_bit t (- 1 :: u64)) j \<longleftrightarrow> t \<le> j \<and> j < 64"
  by (auto simp: bit_simps)

lemma run_bit_decomp: "j < 64 \<Longrightarrow> run_bit vals (64 * i + j) = bit (vals ! i) j"
  by (simp add: run_bit_def)

lemma run_init_bit:
  assumes init: "memblock_run_init_bitmap b = Inr vals"
    and nb: "nbits b = 64 * q + r" and r: "r < 64"
    and nv: "nvalues b = (if r = 0 then q else q + 1)"
    and i: "i < bitmap_size b div 8" and j: "j < 64"
  shows "run_bit vals (64 * i + j) \<longleftrightarrow> (if r = 0 then q - 1 \<le> i else q < i \<or> (i = q \<and> r \<le> j))"
proof -
  note n = memblock_run_init_bitmap_nth [OF init i]
  from memblock_run_init_bitmap_eq [OF init] have nz: "nvalues b \<noteq> 0" by simp
  from nb r have m: "nbits b mod 64 = r" by simp
  show ?thesis
  proof (cases "r = 0")
    case True
    with nv nz have q: "nvalues b = q" "q \<noteq> 0" by simp_all
    show ?thesis
    proof (cases "i < q - 1")
      case True
      with q \<open>r = 0\<close> show ?thesis by (simp add: run_bit_decomp [OF j] n)
    next
      case False
      then have "q - 1 \<le> i" by simp
      with q \<open>r = 0\<close> j False show ?thesis
        by (simp add: run_bit_decomp [OF j] n m bit_push_bit_ones)
    qed
  next
    case False
    with nv have q: "nvalues b = q + 1" by simp
    show ?thesis
    proof (cases "i < q")
      case True
      with q False show ?thesis by (simp add: run_bit_decomp [OF j] n)
    next
      case nl: False
      show ?thesis
      proof (cases "i = q")
        case True
        with n q m have "vals ! i = push_bit r (- 1)" by simp
        then have "bit (vals ! i) j \<longleftrightarrow> r \<le> j"
          using j by (simp only: bit_push_bit_ones) simp
        with True False show ?thesis by (simp add: run_bit_decomp [OF j])
      next
        case ne: False
        with nl have "q < i" by simp
        with q False ne nl j show ?thesis by (simp add: run_bit_decomp [OF j] n)
      qed
    qed
  qed
qed

text \<open>A descriptor whose number of values is the number of bits divided by 64, rounded up.\<close>

lemma div64_ceil: "r < 64 \<Longrightarrow> (64 * q + r + 63) div 64 = (if r = 0 then q else q + (1::nat))"
  by (auto intro!: div_nat_eqI)

lemma run_bitmap_decomp:
  assumes "nvalues b = (nbits b + 63) div 64"
  obtains q r where "nbits b = 64 * q + r" "r < 64" "nvalues b = (if r = 0 then q else q + 1)"
proof -
  let ?q = "nbits b div 64" and ?r = "nbits b mod 64"
  have a: "nbits b = 64 * ?q + ?r" by simp
  have b: "?r < 64" by simp
  have s: "64 * ?q + ?r = nbits b" by simp
  have "(nbits b + 63) div 64 = (64 * ?q + ?r + 63) div 64" by (simp only: s)
  also have "\<dots> = (if ?r = 0 then ?q else ?q + 1)" by (rule div64_ceil [OF b])
  finally have "nvalues b = (if ?r = 0 then ?q else ?q + 1)" using assms by simp
  with a b that show ?thesis by blast
qed

text \<open>
  For a descriptor with \<open>nvalues = \<lceil>nbits / 64\<rceil>\<close> (what \<open>memblock_run_bitmap\<close>
  computes), the bits past \<open>nbits\<close> are set after initialisation; the bits below
  \<open>nbits\<close> are clear when \<open>nbits\<close> is not a multiple of 64; when it is, the last 64
  of them are set.
\<close>

lemma run_init_trailing_bits_set:
  assumes init: "memblock_run_init_bitmap b = Inr vals"
    and nv: "nvalues b = (nbits b + 63) div 64"
    and p: "nbits b \<le> p" "p < (bitmap_size b div 8) * 64"
  shows "run_bit vals p"
proof -
  obtain q r where nb: "nbits b = 64 * q + r" and r: "r < 64"
    and v: "nvalues b = (if r = 0 then q else q + 1)"
    using run_bitmap_decomp [OF nv] by blast
  define i j where "i = p div 64" and "j = p mod 64"
  have pd: "p = 64 * i + j" and j: "j < 64" by (simp_all add: i_def j_def)
  from p(2) have i: "i < bitmap_size b div 8" by (simp add: i_def div_less_iff_less_mult)
  from p(1) nb pd j r have "if r = 0 then q - 1 \<le> i else q < i \<or> (i = q \<and> r \<le> j)"
    by (auto split: if_splits)
  with run_init_bit [OF init nb r v i j] show ?thesis by (simp add: pd)
qed

lemma run_init_usable_bits_clear:
  assumes init: "memblock_run_init_bitmap b = Inr vals"
    and nv: "nvalues b = (nbits b + 63) div 64"
    and t: "nbits b mod 64 \<noteq> 0"
    and p: "p < nbits b" and s: "p < (bitmap_size b div 8) * 64"
  shows "\<not> run_bit vals p"
proof -
  obtain q r where nb: "nbits b = 64 * q + r" and r: "r < 64"
    and v: "nvalues b = (if r = 0 then q else q + 1)"
    using run_bitmap_decomp [OF nv] by blast
  from t nb r have r0: "r \<noteq> 0" by auto
  define i j where "i = p div 64" and "j = p mod 64"
  have pd: "p = 64 * i + j" and j: "j < 64" by (simp_all add: i_def j_def)
  from s have i: "i < bitmap_size b div 8" by (simp add: i_def div_less_iff_less_mult)
  from p nb pd j r have "\<not> (q < i \<or> (i = q \<and> r \<le> j))" by auto
  with run_init_bit [OF init nb r v i j] r0 show ?thesis by (simp add: pd)
qed

lemma run_init_last_value_set:
  assumes init: "memblock_run_init_bitmap b = Inr vals"
    and nv: "nvalues b = (nbits b + 63) div 64"
    and t: "nbits b mod 64 = 0"
    and p: "nbits b - 64 \<le> p" "p < nbits b"
  shows "run_bit vals p"
proof -
  obtain q r where nb: "nbits b = 64 * q + r" and r: "r < 64"
    and v: "nvalues b = (if r = 0 then q else q + 1)"
    using run_bitmap_decomp [OF nv] by blast
  from t nb r have r0: "r = 0" by auto
  define i j where "i = p div 64" and "j = p mod 64"
  have pd: "p = 64 * i + j" and j: "j < 64" by (simp_all add: i_def j_def)
  from memblock_run_init_bitmap_eq [OF init] v r0 have q: "q \<le> bitmap_size b div 8" by simp
  from p nb r0 pd j have iq: "q - 1 \<le> i" "i < q" by auto
  with q have i: "i < bitmap_size b div 8" by simp
  from run_init_bit [OF init nb r v i j] r0 iq show ?thesis by (simp add: pd)
qed

text \<open>
  Claim C4 (the code misses a case). A run of one chunk with units of 4064 bytes and a
  flexible bitmap has \<open>nbits = 64\<close>, one bitmap value and 48 bytes of bitmap. For it
  \<open>trailing_bits\<close> is 0, the last value is \<open>UINT64_MAX << 0\<close>, and \<open>memblock_run_init\<close>
  leaves every bit of the bitmap set: the bits 0 to 63 of the usable units are not
  clear, and \<open>run_calc_free\<close> counts no free unit where the claim has 64.
\<close>

theorem memblock_run_init_full_last_value:
  "memblock_run_bitmap 1 CHUNK_FLAG_FLEX_BITMAP 4064 0 =
     Inr (1, \<lparr>nvalues = 1, nbits = 64, bitmap_size = 48\<rparr>) \<and>
   memblock_run_init_bitmap \<lparr>nvalues = 1, nbits = 64, bitmap_size = 48\<rparr> =
     Inr [- 1, - 1, - 1, - 1, - 1, - 1] \<and>
   (case memblock_run_init zone_example 5
           \<lparr>rdsc_flags = CHUNK_FLAG_FLEX_BITMAP, rdsc_unit_size = 4064, rdsc_size_idx = 1,
            rdsc_alignment = 0, rdsc_bitmap = \<lparr>nvalues = 1, nbits = 64, bitmap_size = 48\<rparr>\<rparr> of
      Inl e \<Rightarrow> []
    | Inr (run, z, m) \<Rightarrow> content run) = [- 1, - 1, - 1, - 1, - 1, - 1] \<and>
   run_bit [- 1, - 1, - 1, - 1, - 1, - 1] 0 \<and>
   run_bit [- 1, - 1, - 1, - 1, - 1, - 1] 63 \<and>
   run_calc_free \<lparr>nvalues = 1, nbits = 64, bitmap_size = 48\<rparr> [- 1, - 1, - 1, - 1, - 1, - 1] = 0"
proof -
  have b: "memblock_run_bitmap 1 CHUNK_FLAG_FLEX_BITMAP 4064 0 =
     Inr (1, \<lparr>nvalues = 1, nbits = 64, bitmap_size = 48\<rparr>)"
    unfolding memblock_run_bitmap_def Let_def
    by (simp add: CHUNK_FLAG_FLEX_BITMAP_def RUN_CONTENT_SIZE_BYTES_def
        CHUNKSIZE_def RUN_BASE_METADATA_SIZE_def RUN_BASE_METADATA_VALUES_def
        RUN_BITS_PER_VALUE_def CACHELINE_SIZE_def util_div_ceil_def ALIGN_UP_def u32_of_def
        u32_sub_def u64_sub_def)
  have i: "memblock_run_init_bitmap \<lparr>nvalues = 1, nbits = 64, bitmap_size = 48\<rparr> =
     Inr [- 1, - 1, - 1, - 1, - 1, - 1]"
    by code_simp
  have r: "(case memblock_run_init zone_example 5
           \<lparr>rdsc_flags = CHUNK_FLAG_FLEX_BITMAP, rdsc_unit_size = 4064, rdsc_size_idx = 1,
            rdsc_alignment = 0, rdsc_bitmap = \<lparr>nvalues = 1, nbits = 64, bitmap_size = 48\<rparr>\<rparr> of
      Inl e \<Rightarrow> []
    | Inr (run, z, m) \<Rightarrow> content run) = [- 1, - 1, - 1, - 1, - 1, - 1]"
    using i unfolding memblock_run_init_def Let_def
    by (simp add: zone_example_def zone_store_def mo_wal_persist_def)
  have f: "run_calc_free \<lparr>nvalues = 1, nbits = 64, bitmap_size = 48\<rparr> [- 1, - 1, - 1, - 1, - 1, - 1] = 0"
    by (simp add: run_calc_free_def util_popcount64_def)
  from b i r f show ?thesis by (simp add: run_bit_def)
qed

section \<open>LRU array\<close>

lemma manual_find_free_loop_none:
  assumes "\<forall>si \<in> set sis. si < length (la_sub array)"
    and "\<forall>sub \<in> set (la_sub array). ls_free sub = LRU_NO_IDX"
  shows "manual_find_free_loop array sis key = None"
  using assms
  by (induction sis) (auto simp: sub_find_free_def Let_def)

lemma lrua_array_alloc_one_flags:
  "lrua_array_alloc_one array si ok = Inr array1 \<Longrightarrow> la_flags array1 = la_flags array"
  by (auto simp: lrua_array_alloc_one_def Let_def split: if_splits)

lemma lrua_array_alloc_flags:
  assumes "lrua_array_alloc nr_ent nr_arrays payload_size fl on_evict on_init array_ok table_ok = Inr array"
  shows "la_flags array = (if nr_arrays \<noteq> 1 then fl OR LRU_FLAG_EVICT_MANUAL else fl)"
  using assms unfolding lrua_array_alloc_def Let_def
  by (auto split: if_splits dest!: lrua_array_alloc_one_flags)

lemma evict_manual_bit_set:
  "(fl OR LRU_FLAG_EVICT_MANUAL) AND LRU_FLAG_EVICT_MANUAL \<noteq> (0::u32)"
proof
  assume "(fl OR LRU_FLAG_EVICT_MANUAL) AND LRU_FLAG_EVICT_MANUAL = 0"
  then have "bit ((fl OR 1) AND (1::u32)) 0 = bit (0::u32) 0"
    by (simp add: LRU_FLAG_EVICT_MANUAL_def)
  then show False
    by (simp add: bit_and_iff bit_or_iff)
qed

lemma lrua_array_shift_loop_1: "lrua_array_shift_loop (Suc 0) (Suc 0) = Suc 0"
  by (simp add: lrua_array_shift_loop.simps)

lemma lrua_alloc_example_reached:
  "lrua_array_alloc 4 2 8 0 None None True True = Inr lrua_alloc_example"
  unfolding lrua_array_alloc_def lrua_array_alloc_one_def Let_def lrua_alloc_example_def
  by (simp add: lrua_array_shift_loop_1 LRU_FLAG_EVICT_MANUAL_def LRU_NO_IDX_def upt_conv_Cons)

lemma lrua_full_example_reached:
  "lrua_find_free_keys lrua_alloc_example [11, 12, 13, 14] =
   ([Inr 0, Inr 1, Inr 2, Inr 3], lrua_full_example)"
  unfolding lrua_alloc_example_def lrua_full_example_def
  by (simp add: lrua_find_free_def manual_find_free_def sub_find_free_def
      lrua_remove_entry_def lrua_insert_def lrua_array_alloc_one_def sub_head_def sub_set_head_def
      sub_entries_def ent2idx_def LRU_FLAG_EVICT_MANUAL_def LRU_NO_IDX_def Let_def upt_conv_Cons)

text \<open>
  Claim C6. An array that \<open>lrua_array_alloc\<close> creates with \<open>nr_arrays\<close> other than 1 has
  \<open>LRU_FLAG_EVICT_MANUAL\<close> set in \<open>la_flags\<close>, whatever flags the caller passed. In an array
  with that flag set, in which no sub-array is left unallocated and no sub-array has a
  free entry, \<open>lrua_find_free\<close> returns \<open>-DER_BUSY\<close> and leaves the whole array as it was:
  every key, payload and link of every entry, both heads of every sub-array and both
  lists of sub-arrays.
\<close>

theorem lrua_find_free_busy:
  "(lrua_array_alloc nr_ent nr_arrays payload_size fl on_evict on_init array_ok table_ok = Inr array0
      \<and> nr_arrays \<noteq> 1
      \<longrightarrow> la_flags array0 AND LRU_FLAG_EVICT_MANUAL \<noteq> 0) \<and>
   (la_flags array AND LRU_FLAG_EVICT_MANUAL \<noteq> 0 \<and> lrua_exhausted array
      \<longrightarrow> lrua_find_free array key alloc_ok = (Inl DER_BUSY, array))"
proof (intro conjI impI)
  assume "lrua_array_alloc nr_ent nr_arrays payload_size fl on_evict on_init array_ok table_ok = Inr array0
      \<and> nr_arrays \<noteq> 1"
  then show "la_flags array0 AND LRU_FLAG_EVICT_MANUAL \<noteq> 0"
    using lrua_array_alloc_flags [of nr_ent nr_arrays payload_size fl on_evict on_init array_ok table_ok array0]
      evict_manual_bit_set [of fl] by simp
next
  assume a: "la_flags array AND LRU_FLAG_EVICT_MANUAL \<noteq> 0 \<and> lrua_exhausted array"
  then have "manual_find_free_loop array (la_free_sub array) key = None"
    by (intro manual_find_free_loop_none) (auto simp: lrua_exhausted_def list_all_iff)
  with a show "lrua_find_free array key alloc_ok = (Inl DER_BUSY, array)"
    by (simp add: lrua_find_free_def manual_find_free_def lrua_exhausted_def)
qed

theorem lrua_find_free_busy_witness:
  "lrua_array_alloc 4 2 8 0 None None True True = Inr lrua_alloc_example \<and>
   la_flags lrua_alloc_example AND LRU_FLAG_EVICT_MANUAL \<noteq> 0 \<and>
   la_flags lrua_full_example AND LRU_FLAG_EVICT_MANUAL \<noteq> 0 \<and>
   lrua_exhausted lrua_full_example \<and>
   lrua_find_free lrua_full_example 15 True = (Inl DER_BUSY, lrua_full_example)"
proof -
  have h: "la_flags lrua_full_example AND LRU_FLAG_EVICT_MANUAL \<noteq> 0 \<and>
           lrua_exhausted lrua_full_example"
    by (simp add: lrua_full_example_def lrua_exhausted_def LRU_FLAG_EVICT_MANUAL_def
        LRU_NO_IDX_def)
  show ?thesis
    using lrua_find_free_busy [where nr_ent = 4 and nr_arrays = 2 and payload_size = 8
        and fl = 0 and on_evict = None and on_init = None and array_ok = True
        and table_ok = True and ?array0.0 = lrua_alloc_example and array = lrua_full_example
        and key = 15 and alloc_ok = True]
      lrua_alloc_example_reached h
    by simp
qed

end
